(* ===== verification/JS_Prelude.thy ===== *)
theory JS_Prelude
  imports Main "HOL-Library.Word"
begin

text \<open>
  Shared vocabulary of the development. JavaScript strings are sequences of UTF-16 code
  units, so a string of the program is a list of \<open>16 word\<close>; the string built-ins the
  components call (\<open>String.prototype.trim\<close>, \<open>split\<close>, \<open>toUpperCase\<close>,
  \<open>slice\<close>, indexing, \<open>Array.prototype.join\<close>) are defined here on that type, with
  the lemmas the component theories share: the characterisation of a blank string, the
  split/join round trip, and length bounds. The collection \<open>js_simps\<close> gathers the
  equations that evaluate these built-ins on literals.
\<close>

named_theorems js_simps "equations that evaluate the JavaScript string built-ins"
named_theorems model_simps "unfolding rules of the component handlers"

type_synonym code_unit = "16 word"
type_synonym js_string = "code_unit list"

text \<open>A literal of the source, read code unit by code unit (ASCII text only).\<close>

definition js_str :: "string \<Rightarrow> js_string" where
  "js_str s = map (\<lambda>c. of_nat (of_char c)) s"

subsection \<open>Whitespace and \<open>String.prototype.trim\<close>\<close>

text \<open>
  ECMA-262 \<open>WhiteSpace\<close> and \<open>LineTerminator\<close>: TAB, VT, FF, SP, NBSP, ZWNBSP, the
  Unicode space separators (U+1680, U+2000 to U+200A, U+202F, U+205F, U+3000), and LF, CR,
  LS, PS. \<open>trim\<close> removes them from both ends.
\<close>

definition is_js_whitespace :: "code_unit \<Rightarrow> bool" where
  "is_js_whitespace c \<longleftrightarrow>
     c \<in> {0x09, 0x0B, 0x0C, 0x20, 0xA0, 0xFEFF, 0x1680, 0x202F, 0x205F, 0x3000,
          0x0A, 0x0D, 0x2028, 0x2029}
     \<or> (0x2000 \<le> c \<and> c \<le> 0x200A)"

definition js_trim :: "js_string \<Rightarrow> js_string" where
  "js_trim s = rev (dropWhile is_js_whitespace (rev (dropWhile is_js_whitespace s)))"

subsection \<open>\<open>split\<close>, indexing and \<open>Array.prototype.join\<close>\<close>

text \<open>
  \<open>s.split(d)\<close> for a one-unit separator \<open>d\<close>: the maximal pieces between occurrences
  of \<open>d\<close>, empty pieces included, and \<open>[""]\<close> for the empty string.
\<close>

fun js_split :: "code_unit \<Rightarrow> js_string \<Rightarrow> js_string list" where
  "js_split d [] = [[]]"
| "js_split d (c # cs) =
     (if c = d then [] # js_split d cs
      else (case js_split d cs of [] \<Rightarrow> [[c]] | w # ws \<Rightarrow> (c # w) # ws))"

text \<open>
  \<open>n[0]\<close> reads one code unit, or \<open>undefined\<close> (\<open>None\<close>) on the empty string;
  \<open>join\<close> writes \<open>undefined\<close> elements as the empty string.
\<close>

definition js_index0 :: "js_string \<Rightarrow> js_string option" where
  "js_index0 s = (case s of [] \<Rightarrow> None | c # _ \<Rightarrow> Some [c])"

definition js_elem_str :: "js_string option \<Rightarrow> js_string" where
  "js_elem_str x = (case x of None \<Rightarrow> [] | Some s \<Rightarrow> s)"

fun js_join :: "js_string \<Rightarrow> js_string option list \<Rightarrow> js_string" where
  "js_join sep [] = []"
| "js_join sep [x] = js_elem_str x"
| "js_join sep (x # y # ys) = js_elem_str x @ sep @ js_join sep (y # ys)"

subsection \<open>\<open>toUpperCase\<close> and \<open>slice\<close>\<close>

text \<open>
  Upper-casing of one code unit, per the Unicode case mapping restricted to Basic Latin
  and Latin-1 Supplement: \<open>a\<close>..\<open>z\<close> and U+00E0..U+00FE (but U+00F7) move down by
  0x20, U+00FF becomes U+0178, U+00B5 becomes U+039C, and U+00DF (sharp s) becomes the two
  units \<open>SS\<close>. Every other code unit is left as it is.
\<close>

definition js_upper_unit :: "code_unit \<Rightarrow> js_string" where
  "js_upper_unit c =
     (if 0x61 \<le> c \<and> c \<le> 0x7A then [c - 0x20]
      else if 0xE0 \<le> c \<and> c \<le> 0xFE \<and> c \<noteq> 0xF7 then [c - 0x20]
      else if c = 0xFF then [0x178]
      else if c = 0xB5 then [0x39C]
      else if c = 0xDF then [0x53, 0x53]
      else [c])"

definition js_to_upper :: "js_string \<Rightarrow> js_string" where
  "js_to_upper s = concat (map js_upper_unit s)"

text \<open>\<open>s.slice(0, n)\<close> for a non-negative \<open>n\<close>.\<close>

definition js_slice0 :: "js_string \<Rightarrow> nat \<Rightarrow> js_string" where
  "js_slice0 s n = take n s"

subsection \<open>Lemmas on the built-ins\<close>

lemma dropWhile_eq_Nil_iff_all: "dropWhile P xs = [] \<longleftrightarrow> (\<forall>x\<in>set xs. P x)"
  by (induction xs) auto

lemma js_trim_Nil_iff: "js_trim s = [] \<longleftrightarrow> (\<forall>c\<in>set s. is_js_whitespace c)"
proof -
  have "js_trim s = [] \<longleftrightarrow> (\<forall>c\<in>set (rev (dropWhile is_js_whitespace s)). is_js_whitespace c)"
    by (simp add: js_trim_def dropWhile_eq_Nil_iff_all)
  also have "\<dots> \<longleftrightarrow> (\<forall>c\<in>set s. is_js_whitespace c)"
    by (induction s) auto
  finally show ?thesis .
qed

lemma js_trim_subset: "set (js_trim s) \<subseteq> set s"
  unfolding js_trim_def by (auto dest!: set_dropWhileD)

lemma js_elem_str_simps [simp]: "js_elem_str None = []" "js_elem_str (Some s) = s"
  by (simp_all add: js_elem_str_def)

lemma js_split_nonempty [simp]: "js_split d s \<noteq> []"
  by (induction d s rule: js_split.induct) (auto split: list.splits)

lemma js_split_pieces: "w \<in> set (js_split d s) \<Longrightarrow> d \<notin> set w"
  by (induction d s arbitrary: w rule: js_split.induct) (auto split: list.splits if_splits)

lemma js_join_Cons_Cons:
  "js_join sep (Some x # y # ys) = x @ sep @ js_join sep (y # ys)"
  by (simp add: js_elem_str_def)

lemma js_join_single [simp]: "js_join sep [Some x] = x"
  by (simp add: js_elem_str_def)

lemma js_join_split: "js_join [d] (map Some (js_split d s)) = s"
proof (induction d s rule: js_split.induct)
  case (1 d)
  then show ?case by simp
next
  case (2 d c cs)
  obtain w ws where split: "js_split d cs = w # ws"
    using js_split_nonempty by (cases "js_split d cs") auto
  show ?case
  proof (cases "c = d")
    case True
    with 2 split show ?thesis
      by (simp add: js_join_Cons_Cons)
  next
    case False
    with "2.IH"(2) [OF False] split show ?thesis
      by (cases ws) (simp_all add: js_join_Cons_Cons)
  qed
qed

lemma js_split_append_sep:
  "d \<notin> set w \<Longrightarrow> js_split d (w @ d # s) = w # js_split d s"
  by (induction w) auto

lemma js_split_no_sep: "d \<notin> set w \<Longrightarrow> js_split d w = [w]"
  by (induction w) auto

lemma js_split_join:
  "\<forall>w\<in>set ws. d \<notin> set w \<Longrightarrow> ws \<noteq> [] \<Longrightarrow> js_split d (js_join [d] (map Some ws)) = ws"
proof (induction ws)
  case Nil
  then show ?case by simp
next
  case (Cons w ws)
  show ?case
  proof (cases ws)
    case Nil
    with Cons.prems show ?thesis by (simp add: js_split_no_sep)
  next
    case (Cons v vs)
    with Cons.prems Cons.IH show ?thesis
      by (simp add: js_join_Cons_Cons js_split_append_sep)
  qed
qed

lemma js_upper_unit_nonempty [simp]: "js_upper_unit c \<noteq> []"
  by (simp add: js_upper_unit_def)

lemma js_to_upper_Nil_iff [simp]: "js_to_upper s = [] \<longleftrightarrow> s = []"
  by (simp add: js_to_upper_def)

lemma length_js_slice0 [simp]: "length (js_slice0 s n) = min n (length s)"
  by (simp add: js_slice0_def)

lemmas js_eval [js_simps] =
  js_str_def is_js_whitespace_def js_trim_def js_index0_def js_elem_str_def
  js_upper_unit_def js_to_upper_def js_slice0_def

end
