(* ===== verification/Backend.thy ===== *)
theory Backend
  imports JS_Prelude "HOL-Library.Multiset"
begin

text \<open>
  The hosted backend the components call (its three tables), which is not code of the
  repository: its state is modelled from the specification. The authenticated session is
  held by each browser's client library and is part of the client state
  (\<open>Feed_System\<close>). The operations
  translate the calls the components make: the nested select of \<open>loadFeedbacks\<close>
  (\<open>src/pages/Index.tsx\<close>) with its join and its ordering, and the two inserts of
  \<open>NewFeedbackDialog.handleSubmit\<close> and \<open>FeedbackCard.handleSubmitComment\<close>.
  The database assigns each new row the next id and a timestamp from a clock that only
  grows; the well-formedness invariant \<open>db_wf\<close> records what that gives, and every
  write keeps it. The main facts: the feed query returns every feedback row once, newest
  first, strictly ordered by \<open>created_at\<close>; a new feedback comes first in the next
  query; a comment shows up under its feedback and nowhere else.
\<close>

type_synonym uid = nat
type_synonym row_id = nat
type_synonym timestamp = nat

record profile =
  full_name :: js_string
  profile_class :: js_string

record feedback_row =
  fb_id :: row_id
  fb_user :: uid
  fb_category :: js_string
  fb_title :: js_string
  fb_content :: js_string
  fb_created :: timestamp

record comment_row =
  cm_id :: row_id
  cm_feedback :: row_id
  cm_user :: uid
  cm_content :: js_string
  cm_created :: timestamp

record db =
  profiles :: "uid \<rightharpoonup> profile"
  feedback_tbl :: "feedback_row list"
  comments_tbl :: "comment_row list"
  next_id :: row_id
  clock :: timestamp

datatype backend_error = Network_failure | Request_rejected

subsection \<open>The shapes the client receives\<close>

text \<open>
  \<open>interface Feedback\<close> of \<open>Index.tsx\<close> and \<open>interface Comment\<close> of
  \<open>FeedbackCard.tsx\<close>. The embedded \<open>profiles\<close> is typed as always present, but a
  to-one embed returns \<open>null\<close> when no profile row matches: it is an option here.
\<close>

record comment_view =
  c_id :: row_id
  c_content :: js_string
  c_created_at :: timestamp
  c_profiles :: "profile option"

record feedback_view =
  f_id :: row_id
  f_title :: js_string
  f_content :: js_string
  f_category :: js_string
  f_created_at :: timestamp
  f_profiles :: "profile option"
  f_comments :: "comment_view list"

subsection \<open>Operations\<close>

definition comment_join :: "db \<Rightarrow> comment_row \<Rightarrow> comment_view" where
  "comment_join d r =
     \<lparr>c_id = cm_id r, c_content = cm_content r, c_created_at = cm_created r,
      c_profiles = profiles d (cm_user r)\<rparr>"

text \<open>
  The embedded \<open>comments(...)\<close> of \<open>Index.tsx\<close> 71--76 carries no \<open>order\<close>: the
  backend may return a thread's comments in any order. The model returns them in table
  order, one of the orders allowed; every claim about threads below is stated up to that
  order (on their multisets).
\<close>

definition feedback_join :: "db \<Rightarrow> feedback_row \<Rightarrow> feedback_view" where
  "feedback_join d r =
     \<lparr>f_id = fb_id r, f_title = fb_title r, f_content = fb_content r,
      f_category = fb_category r, f_created_at = fb_created r,
      f_profiles = profiles d (fb_user r),
      f_comments = map (comment_join d) (filter (\<lambda>c. cm_feedback c = fb_id r) (comments_tbl d))\<rparr>"

text \<open>\<open>.order("created_at", { ascending: false })\<close>.\<close>

definition feed_order :: "feedback_row list \<Rightarrow> feedback_row list" where
  "feed_order rs = rev (sort_key fb_created rs)"

definition query_feed :: "db \<Rightarrow> feedback_view list" where
  "query_feed d = map (feedback_join d) (feed_order (feedback_tbl d))"

definition insert_feedback ::
  "uid \<Rightarrow> js_string \<Rightarrow> js_string \<Rightarrow> js_string \<Rightarrow> db \<Rightarrow> db" where
  "insert_feedback u category title content d =
     d\<lparr>feedback_tbl := feedback_tbl d @
         [\<lparr>fb_id = next_id d, fb_user = u, fb_category = category, fb_title = title,
           fb_content = content, fb_created = clock d\<rparr>],
       next_id := Suc (next_id d), clock := Suc (clock d)\<rparr>"

text \<open>
  The foreign keys of \<open>comments\<close> reject a comment on no feedback
  (\<open>feedback_id\<close>) and one by a user with no profile row (\<open>user_id\<close>, the key the
  embed \<open>profiles(...)\<close> of \<open>Index.tsx\<close> 75 follows).
\<close>

definition insert_comment :: "uid \<Rightarrow> row_id \<Rightarrow> js_string \<Rightarrow> db \<Rightarrow> backend_error + db" where
  "insert_comment u fid content d =
     (if fid \<notin> fb_id ` set (feedback_tbl d) \<or> profiles d u = None then Inl Request_rejected
      else Inr (d\<lparr>comments_tbl := comments_tbl d @
         [\<lparr>cm_id = next_id d, cm_feedback = fid, cm_user = u, cm_content = content,
           cm_created = clock d\<rparr>],
       next_id := Suc (next_id d), clock := Suc (clock d)\<rparr>))"

definition db_init :: "(uid \<rightharpoonup> profile) \<Rightarrow> db" where
  "db_init ps = \<lparr>profiles = ps, feedback_tbl = [], comments_tbl = [],
                 next_id = 0, clock = 0\<rparr>"

subsection \<open>Well-formedness\<close>

definition db_wf :: "db \<Rightarrow> bool" where
  "db_wf d \<longleftrightarrow>
     distinct (map fb_id (feedback_tbl d) @ map cm_id (comments_tbl d))
   \<and> (\<forall>r\<in>set (feedback_tbl d). fb_id r < next_id d \<and> fb_created r < clock d)
   \<and> (\<forall>c\<in>set (comments_tbl d). cm_id c < next_id d \<and> cm_created c < clock d
                                \<and> cm_feedback c \<in> fb_id ` set (feedback_tbl d))
   \<and> distinct (map fb_created (feedback_tbl d))"

lemmas db_ops_defs [model_simps] =
  insert_feedback_def insert_comment_def db_init_def

lemma db_wf_init: "db_wf (db_init ps)"
  by (simp add: db_wf_def db_init_def)

lemma insert_feedback_wf: "db_wf d \<Longrightarrow> db_wf (insert_feedback u c t x d)"
proof -
  assume wf: "db_wf d"
  then have "next_id d \<notin> set (map fb_id (feedback_tbl d) @ map cm_id (comments_tbl d))"
    and "clock d \<notin> set (map fb_created (feedback_tbl d))"
    by (auto simp: db_wf_def)
  with wf show ?thesis
    by (auto simp: db_wf_def insert_feedback_def less_Suc_eq)
qed

lemma insert_comment_wf:
  "db_wf d \<Longrightarrow> insert_comment u fid x d = Inr d' \<Longrightarrow> db_wf d'"
proof -
  assume wf: "db_wf d" and ins: "insert_comment u fid x d = Inr d'"
  then have fid: "fid \<in> fb_id ` set (feedback_tbl d)"
    by (simp add: insert_comment_def split: if_splits)
  with ins have d': "d' = d\<lparr>comments_tbl := comments_tbl d @
         [\<lparr>cm_id = next_id d, cm_feedback = fid, cm_user = u, cm_content = x,
           cm_created = clock d\<rparr>], next_id := Suc (next_id d), clock := Suc (clock d)\<rparr>"
    by (simp add: insert_comment_def split: if_splits)
  from wf have "next_id d \<notin> set (map fb_id (feedback_tbl d) @ map cm_id (comments_tbl d))"
    by (auto simp: db_wf_def)
  with wf fid show ?thesis
    by (auto simp: db_wf_def d' less_Suc_eq)
qed

lemmas db_wf_preserved = insert_feedback_wf insert_comment_wf

subsection \<open>The feed query\<close>

lemma mset_feed_order [simp]: "mset (feed_order rs) = mset rs"
  by (simp add: feed_order_def)

lemma set_feed_order [simp]: "set (feed_order rs) = set rs"
  by (simp add: feed_order_def)

lemma feed_order_strict:
  assumes "distinct (map fb_created rs)"
  shows "sorted_wrt (>) (map fb_created (feed_order rs))"
proof -
  have "sorted (map fb_created (sort_key fb_created rs))"
    by (rule sorted_sort_key)
  moreover have "distinct (map fb_created (sort_key fb_created rs))"
    using assms mset_eq_imp_distinct_iff [of "map fb_created (sort_key fb_created rs)"
        "map fb_created rs"]
    by simp
  ultimately have "sorted_wrt (<) (map fb_created (sort_key fb_created rs))"
    by (simp add: strict_sorted_iff)
  then show ?thesis
    by (simp add: feed_order_def rev_map [symmetric] sorted_wrt_rev)
qed

lemma map_created_query_feed:
  "map f_created_at (query_feed d) = map fb_created (feed_order (feedback_tbl d))"
  by (simp add: query_feed_def feedback_join_def)

lemma map_id_query_feed:
  "map f_id (query_feed d) = map fb_id (feed_order (feedback_tbl d))"
  by (simp add: query_feed_def feedback_join_def)

text \<open>The newest row leads the order: its timestamp exceeds every other one.\<close>

lemma feed_order_snoc_newest:
  assumes "\<forall>x\<in>set rs. fb_created x < fb_created r"
  shows "feed_order (rs @ [r]) = r # feed_order rs"
proof -
  have "sort_key fb_created (rs @ [r]) = sort_key fb_created rs @ [r]"
  proof (rule properties_for_sort_key)
    show "mset (sort_key fb_created rs @ [r]) = mset (rs @ [r])" by simp
    show "sorted (map fb_created (sort_key fb_created rs @ [r]))"
      using assms by (auto simp: sorted_append less_imp_le)
    fix k :: feedback_row
    show "filter (\<lambda>y. fb_created k = fb_created y) (sort_key fb_created rs @ [r]) =
          filter (\<lambda>y. fb_created k = fb_created y) (rs @ [r])"
      using sort_key_stable [of fb_created "fb_created k" rs] by (simp add: eq_commute)
  qed
  then show ?thesis by (simp add: feed_order_def)
qed

subsection \<open>The feed after a write\<close>

text \<open>
  \<open>query_feed\<close> is the abstraction of the tables to what the page shows. A write
  refines an abstract operation on that list: a new feedback is put in front, a new comment
  is appended to the thread of its feedback, every other entry is unchanged.
\<close>

lemma feedback_join_cong:
  "profiles d' = profiles d \<Longrightarrow> comments_tbl d' = comments_tbl d \<Longrightarrow>
   feedback_join d' = feedback_join d"
  by (simp add: fun_eq_iff feedback_join_def comment_join_def)

lemma comment_join_cong:
  "profiles d' = profiles d \<Longrightarrow> comment_join d' = comment_join d"
  by (simp add: fun_eq_iff comment_join_def)

lemma no_comments_on_fresh_id:
  "db_wf d \<Longrightarrow> filter (\<lambda>c. cm_feedback c = next_id d) (comments_tbl d) = []"
  by (fastforce simp: db_wf_def filter_empty_conv)

text \<open>
  C7. Publishing refines the abstract feed: on well-formed tables, after
  \<open>insert(feedback)\<close> the feed query returns the new feedback first, with the text,
  category and author it was sent with and no comments, followed by the feed as it was.
\<close>

theorem query_feed_insert_feedback:
  assumes wf: "db_wf d"
  shows "query_feed (insert_feedback u k t x d) =
           \<lparr>f_id = next_id d, f_title = t, f_content = x, f_category = k, f_created_at = clock d,
            f_profiles = profiles d u, f_comments = []\<rparr> # query_feed d"
proof -
  let ?r = "\<lparr>fb_id = next_id d, fb_user = u, fb_category = k, fb_title = t,
             fb_content = x, fb_created = clock d\<rparr>"
  let ?d = "insert_feedback u k t x d"
  have "\<forall>y\<in>set (feedback_tbl d). fb_created y < fb_created ?r"
    using wf by (simp add: db_wf_def)
  then have ord: "feed_order (feedback_tbl ?d) = ?r # feed_order (feedback_tbl d)"
    by (simp add: insert_feedback_def feed_order_snoc_newest)
  have join: "feedback_join ?d = feedback_join d"
    by (rule feedback_join_cong) (simp_all add: insert_feedback_def)
  show ?thesis
    using no_comments_on_fresh_id [OF wf]
    by (simp add: query_feed_def ord join feedback_join_def)
qed

text \<open>
  In the model's order, a new comment closes its thread; every other entry is unchanged.
\<close>

lemma query_feed_insert_comment_model:
  assumes ins: "insert_comment u fid x d = Inr d'"
  shows "query_feed d' =
           map (\<lambda>v. if f_id v = fid
                     then v\<lparr>f_comments := f_comments v @
                              [\<lparr>c_id = next_id d, c_content = x, c_created_at = clock d,
                                c_profiles = profiles d u\<rparr>]\<rparr>
                     else v) (query_feed d)"
proof -
  from ins have d': "d' = d\<lparr>comments_tbl := comments_tbl d @
         [\<lparr>cm_id = next_id d, cm_feedback = fid, cm_user = u, cm_content = x,
           cm_created = clock d\<rparr>], next_id := Suc (next_id d), clock := Suc (clock d)\<rparr>"
    by (simp add: insert_comment_def split: if_splits)
  have "comment_join d' = comment_join d"
    by (rule comment_join_cong) (simp add: d')
  then show ?thesis
    by (simp add: query_feed_def d' feedback_join_def comment_join_def)
qed

text \<open>
  C8. Commenting round-trips through the feed, whatever order the backend gives a thread:
  a comment the backend accepts is returned by the next feed query in the thread of its
  feedback, once, with its text, timestamp and its author's profile; the feedbacks, their
  order and fields, and every other thread are unchanged (threads compared as multisets).
\<close>

theorem query_feed_insert_comment:
  assumes ins: "insert_comment u fid x d = Inr d'"
  shows "list_all2 (\<lambda>v' v. v'\<lparr>f_comments := []\<rparr> = v\<lparr>f_comments := []\<rparr>
             \<and> mset (f_comments v') = mset (f_comments v)
                 + (if f_id v = fid
                    then {#\<lparr>c_id = next_id d, c_content = x, c_created_at = clock d,
                            c_profiles = profiles d u\<rparr>#}
                    else {#}))
           (query_feed d') (query_feed d)"
  unfolding query_feed_insert_comment_model [OF ins] list_all2_map1 list_all2_same
  by simp

end
