(* ===== verification/Interface.thy ===== *)
theory Interface
  imports Backend
begin

text \<open>
  The interface the three components and the backend agree on. A component's handler is
  cut at each \<open>await\<close>: the code before it runs as one step and issues a backend
  \<open>call\<close>; the code after it runs when the \<open>response\<close> arrives. \<open>serve\<close> is the
  backend's side of a call, with a \<open>fault\<close> chosen by the network: the request may be
  lost before the backend sees it, or the response may be lost after the backend has
  applied it (the client then sees an error for a write that happened). Each handler
  step returns an \<open>outcome\<close>: the component's new state, the calls it issued (each
  tagged with the continuation that waits for it), the toasts it showed, and whether it
  invoked the parent's reload callback (\<open>onFeedbackAdded\<close> / \<open>onCommentAdded\<close>).
\<close>

datatype call =
    Get_session
  | Get_user
  | Query_feed
  | Insert_feedback uid js_string js_string js_string
  | Insert_comment row_id uid js_string
  | Sign_out

datatype response =
    Resp_session "uid option"
  | Resp_user "uid option"
  | Resp_feed "backend_error + feedback_view list"
  | Resp_done "backend_error option"

datatype fault = No_fault | Lost_request | Lost_response

text \<open>The messages of the source's \<open>toast\<close> calls (Portuguese copy, named here).\<close>

datatype msg =
    Erro_ao_carregar_feedbacks
  | Erro_ao_sair
  | Ate_logo
  | Voce_precisa_estar_logado
  | Erro_ao_publicar_feedback
  | Feedback_publicado_com_sucesso
  | Voce_precisa_estar_logado_para_comentar
  | Erro_ao_enviar_comentario
  | Comentario_enviado

datatype toast = Toast_error msg | Toast_success msg

datatype route = Route_index | Route_auth

record ('s, 'k) outcome =
  new_state :: 's
  calls :: "('k \<times> call) list"
  toasts :: "toast list"
  reload :: bool

definition quiet :: "'s \<Rightarrow> ('s, 'k) outcome" where
  "quiet s = \<lparr>new_state = s, calls = [], toasts = [], reload = False\<rparr>"

subsection \<open>The backend's side of a call\<close>

text \<open>
  \<open>serve sess c f d\<close>: the backend answers call \<open>c\<close> of a client whose session is
  \<open>sess\<close>. \<open>getSession\<close> reads the locally stored session and does not fail on the
  network; \<open>getUser\<close> asks the server and yields \<open>user = null\<close> on any error. A
  write that fails before the backend sees it changes nothing; one whose response is lost is
  applied. The foreign key of \<open>feedback.user_id\<close> to \<open>profiles\<close> (the key the embed
  \<open>profiles(...)\<close> of \<open>Index.tsx\<close> 70 follows) rejects a feedback by a user with no
  profile row, as \<open>insert_comment\<close> rejects such a comment. A successful
  \<open>signOut\<close> clears the client's session (done by the caller).
\<close>

definition write_result :: "fault \<Rightarrow> db \<Rightarrow> db \<Rightarrow> response \<times> db" where
  "write_result f d d' =
     (case f of No_fault \<Rightarrow> (Resp_done None, d')
      | Lost_request \<Rightarrow> (Resp_done (Some Network_failure), d)
      | Lost_response \<Rightarrow> (Resp_done (Some Network_failure), d'))"

fun serve :: "uid option \<Rightarrow> call \<Rightarrow> fault \<Rightarrow> db \<Rightarrow> response \<times> db" where
  "serve sess Get_session f d = (Resp_session sess, d)"
| "serve sess Get_user f d = (Resp_user (if f = No_fault then sess else None), d)"
| "serve sess Query_feed f d =
     (Resp_feed (if f = No_fault then Inr (query_feed d) else Inl Network_failure), d)"
| "serve sess (Insert_feedback u c t x) f d =
     (if profiles d u = None
      then (Resp_done (Some (if f = No_fault then Request_rejected else Network_failure)), d)
      else write_result f d (insert_feedback u c t x d))"
| "serve sess (Insert_comment fid u x) f d =
     (case insert_comment u fid x d of
        Inl e \<Rightarrow> (Resp_done (Some (if f = No_fault then e else Network_failure)), d)
      | Inr d' \<Rightarrow> write_result f d d')"
| "serve sess Sign_out f d =
     (Resp_done (if f = No_fault then None else Some Network_failure), d)"

lemma serve_wf: "db_wf d \<Longrightarrow> serve sess c f d = (r, d') \<Longrightarrow> db_wf d'"
  by (cases c; cases f)
     (auto simp: write_result_def insert_feedback_wf dest: insert_comment_wf split: sum.splits if_splits)

lemma serve_read_only:
  "c \<in> {Get_session, Get_user, Query_feed, Sign_out} \<Longrightarrow> snd (serve sess c f d) = d"
  by auto

end
