(* ===== verification/Commenter.thy ===== *)
theory Commenter
  imports Interface
begin

text \<open>
  \<open>src/components/FeedbackCard.tsx\<close>: one card of the feed, with its comment writer.
  The card's React state (\<open>showComments\<close>, \<open>newComment\<close>, \<open>isSubmitting\<close>) is the
  record \<open>card_state\<close>. \<open>handleSubmitComment\<close> is cut at its two \<open>await\<close>s into
  \<open>handleSubmitComment\<close> (up to \<open>getUser\<close>), \<open>comment_after_user\<close> (up to the
  insert) and \<open>comment_after_insert\<close>; the continuation datatype \<open>comment_cont\<close>
  records which of them waits for a response and the comment text the closure captured.
  The UI events (toggle, typing, the send button with its \<open>disabled\<close> guard) are
  functions on the state. The card's render is in \<open>Card_Render\<close>.
\<close>

record card_state =
  showComments :: bool
  newComment :: js_string
  isSubmitting :: bool

definition card_init :: card_state where
  "card_init = \<lparr>showComments = False, newComment = [], isSubmitting = False\<rparr>"

datatype comment_cont = K_comment_user js_string | K_comment_insert

subsection \<open>\<open>handleSubmitComment\<close>\<close>

definition handleSubmitComment ::
  "row_id \<Rightarrow> card_state \<Rightarrow> (card_state, comment_cont) outcome" where
  "handleSubmitComment fid s =
     (if js_trim (newComment s) = [] then quiet s
      else \<lparr>new_state = s\<lparr>isSubmitting := True\<rparr>,
            calls = [(K_comment_user (newComment s), Get_user)],
            toasts = [], reload = False\<rparr>)"

definition comment_after_user ::
  "row_id \<Rightarrow> js_string \<Rightarrow> uid option \<Rightarrow> card_state \<Rightarrow> (card_state, comment_cont) outcome" where
  "comment_after_user fid content user s =
     (case user of
        None \<Rightarrow> \<lparr>new_state = s\<lparr>isSubmitting := False\<rparr>, calls = [],
                 toasts = [Toast_error Voce_precisa_estar_logado_para_comentar], reload = False\<rparr>
      | Some u \<Rightarrow> \<lparr>new_state = s, calls = [(K_comment_insert, Insert_comment fid u content)],
                   toasts = [], reload = False\<rparr>)"

definition comment_after_insert ::
  "backend_error option \<Rightarrow> card_state \<Rightarrow> (card_state, comment_cont) outcome" where
  "comment_after_insert err s =
     (case err of
        Some e \<Rightarrow> \<lparr>new_state = s\<lparr>isSubmitting := False\<rparr>, calls = [],
                   toasts = [Toast_error Erro_ao_enviar_comentario], reload = False\<rparr>
      | None \<Rightarrow> \<lparr>new_state = s\<lparr>newComment := [], isSubmitting := False\<rparr>, calls = [],
                 toasts = [Toast_success Comentario_enviado], reload = True\<rparr>)"

text \<open>A response reaches the continuation that waits for it.\<close>

fun comment_deliver ::
  "row_id \<Rightarrow> comment_cont \<Rightarrow> response \<Rightarrow> card_state \<Rightarrow> (card_state, comment_cont) outcome" where
  "comment_deliver fid (K_comment_user content) (Resp_user user) s =
     comment_after_user fid content user s"
| "comment_deliver fid K_comment_insert (Resp_done err) s = comment_after_insert err s"
| "comment_deliver fid k r s = quiet s"

subsection \<open>UI events\<close>

definition toggle_comments :: "card_state \<Rightarrow> card_state" where
  "toggle_comments s = s\<lparr>showComments := \<not> showComments s\<rparr>"

definition type_comment :: "js_string \<Rightarrow> card_state \<Rightarrow> card_state" where
  "type_comment v s = s\<lparr>newComment := v\<rparr>"

definition send_disabled :: "card_state \<Rightarrow> bool" where
  "send_disabled s \<longleftrightarrow> isSubmitting s \<or> js_trim (newComment s) = []"

text \<open>The send button is rendered only while the comments are shown.\<close>

definition click_send :: "row_id \<Rightarrow> card_state \<Rightarrow> (card_state, comment_cont) outcome" where
  "click_send fid s =
     (if showComments s \<and> \<not> send_disabled s then handleSubmitComment fid s else quiet s)"

lemmas comment_handler_defs [model_simps] =
  handleSubmitComment_def comment_after_user_def comment_after_insert_def
  toggle_comments_def type_comment_def send_disabled_def click_send_def quiet_def card_init_def

subsection \<open>Handler lemmas\<close>

lemma handleSubmitComment_blank:
  "js_trim (newComment s) = [] \<Longrightarrow> handleSubmitComment fid s = quiet s"
  by (simp add: handleSubmitComment_def)

lemma handleSubmitComment_start:
  "js_trim (newComment s) \<noteq> [] \<Longrightarrow>
   handleSubmitComment fid s =
     \<lparr>new_state = s\<lparr>isSubmitting := True\<rparr>, calls = [(K_comment_user (newComment s), Get_user)],
      toasts = [], reload = False\<rparr>"
  by (simp add: handleSubmitComment_def)

lemma click_send_quiet:
  "isSubmitting s \<or> js_trim (newComment s) = [] \<or> \<not> showComments s \<Longrightarrow> click_send fid s = quiet s"
  by (auto simp: click_send_def send_disabled_def)

lemma click_send_calls:
  "calls (click_send fid s) = [] \<or>
   (\<not> isSubmitting s \<and> calls (click_send fid s) = [(K_comment_user (newComment s), Get_user)]
    \<and> isSubmitting (new_state (click_send fid s)))"
  by (auto simp: model_simps)

lemma comment_after_user_None:
  "comment_after_user fid x None s =
     \<lparr>new_state = s\<lparr>isSubmitting := False\<rparr>, calls = [],
      toasts = [Toast_error Voce_precisa_estar_logado_para_comentar], reload = False\<rparr>"
  by (simp add: comment_after_user_def)

lemma comment_after_insert_newComment:
  "newComment (new_state (comment_after_insert err s)) = (if err = None then [] else newComment s)"
  by (auto simp: comment_after_insert_def split: option.splits)

lemma comment_after_insert_idle:
  "\<not> isSubmitting (new_state (comment_after_insert err s)) \<and> calls (comment_after_insert err s) = []
   \<and> reload (comment_after_insert err s) = (err = None)"
  by (auto simp: comment_after_insert_def split: option.splits)

end
