(* ===== verification/Composer.thy ===== *)
theory Composer
  imports Interface
begin

text \<open>
  \<open>src/components/NewFeedbackDialog.tsx\<close>: the dialog that publishes a feedback.
  Its React state (\<open>open\<close>, \<open>isSubmitting\<close>, \<open>category\<close>) and the two
  uncontrolled form inputs \<open>title\<close> and \<open>content\<close>, which exist only while the
  dialog's content is mounted, form the record \<open>dialog_state\<close>. \<open>handleSubmit\<close> is
  cut at its two \<open>await\<close>s (\<open>handleSubmit\<close>, \<open>compose_after_user\<close>,
  \<open>compose_after_insert\<close>); the continuation \<open>K_compose_user\<close> holds the form data
  and the category the handler read before the first \<open>await\<close>. The UI events are the
  dialog's \<open>onOpenChange\<close>, the \<open>Select\<close>'s four items, typing into the inputs, and
  the form's submission, which the browser lets through only when the required fields are
  non-empty and the submit button is enabled.
\<close>

record dialog_state =
  dlg_open :: bool
  dlg_isSubmitting :: bool
  dlg_category :: js_string
  dlg_title :: js_string
  dlg_content :: js_string

definition dialog_init :: dialog_state where
  "dialog_init = \<lparr>dlg_open = False, dlg_isSubmitting = False, dlg_category = [],
                  dlg_title = [], dlg_content = []\<rparr>"

datatype compose_cont = K_compose_user js_string js_string js_string | K_compose_insert

subsection \<open>\<open>handleSubmit\<close>\<close>

definition handleSubmit :: "dialog_state \<Rightarrow> (dialog_state, compose_cont) outcome" where
  "handleSubmit s =
     \<lparr>new_state = s\<lparr>dlg_isSubmitting := True\<rparr>,
      calls = [(K_compose_user (dlg_title s) (dlg_content s) (dlg_category s), Get_user)],
      toasts = [], reload = False\<rparr>"

definition compose_after_user ::
  "js_string \<Rightarrow> js_string \<Rightarrow> js_string \<Rightarrow> uid option \<Rightarrow> dialog_state
   \<Rightarrow> (dialog_state, compose_cont) outcome" where
  "compose_after_user title content category user s =
     (case user of
        None \<Rightarrow> \<lparr>new_state = s\<lparr>dlg_isSubmitting := False\<rparr>, calls = [],
                 toasts = [Toast_error Voce_precisa_estar_logado], reload = False\<rparr>
      | Some u \<Rightarrow> \<lparr>new_state = s,
                   calls = [(K_compose_insert, Insert_feedback u category title content)],
                   toasts = [], reload = False\<rparr>)"

text \<open>
  On success the dialog closes (\<open>setOpen(false)\<close>), which unmounts the form and with
  it the typed title and content; \<open>setCategory("")\<close> clears the select.
\<close>

definition compose_after_insert ::
  "backend_error option \<Rightarrow> dialog_state \<Rightarrow> (dialog_state, compose_cont) outcome" where
  "compose_after_insert err s =
     (case err of
        Some e \<Rightarrow> \<lparr>new_state = s\<lparr>dlg_isSubmitting := False\<rparr>, calls = [],
                   toasts = [Toast_error Erro_ao_publicar_feedback], reload = False\<rparr>
      | None \<Rightarrow> \<lparr>new_state = s\<lparr>dlg_open := False, dlg_title := [], dlg_content := [],
                                 dlg_category := [], dlg_isSubmitting := False\<rparr>,
                 calls = [], toasts = [Toast_success Feedback_publicado_com_sucesso],
                 reload = True\<rparr>)"

fun compose_deliver ::
  "compose_cont \<Rightarrow> response \<Rightarrow> dialog_state \<Rightarrow> (dialog_state, compose_cont) outcome" where
  "compose_deliver (K_compose_user t c k) (Resp_user user) s = compose_after_user t c k user s"
| "compose_deliver K_compose_insert (Resp_done err) s = compose_after_insert err s"
| "compose_deliver k r s = quiet s"

subsection \<open>UI events\<close>

text \<open>\<open>onOpenChange\<close>: closing unmounts the form content and its typed values.\<close>

definition set_open :: "bool \<Rightarrow> dialog_state \<Rightarrow> dialog_state" where
  "set_open b s =
     (if b then s\<lparr>dlg_open := True\<rparr>
      else s\<lparr>dlg_open := False, dlg_title := [], dlg_content := []\<rparr>)"

datatype category_item = Professores | Materias | Atividades | Geral

primrec item_value :: "category_item \<Rightarrow> js_string" where
  "item_value Professores = js_str ''professores''"
| "item_value Materias = js_str ''materias''"
| "item_value Atividades = js_str ''atividades''"
| "item_value Geral = js_str ''geral''"

definition category_values :: "js_string list" where
  "category_values = map item_value [Professores, Materias, Atividades, Geral]"

definition select_category :: "category_item \<Rightarrow> dialog_state \<Rightarrow> dialog_state" where
  "select_category i s = (if dlg_open s then s\<lparr>dlg_category := item_value i\<rparr> else s)"

definition type_title :: "js_string \<Rightarrow> dialog_state \<Rightarrow> dialog_state" where
  "type_title v s = (if dlg_open s then s\<lparr>dlg_title := v\<rparr> else s)"

definition type_content :: "js_string \<Rightarrow> dialog_state \<Rightarrow> dialog_state" where
  "type_content v s = (if dlg_open s then s\<lparr>dlg_content := v\<rparr> else s)"

text \<open>
  Constraint validation of the \<open>required\<close> fields (\<open>NewFeedbackDialog.tsx\<close> 96, 105):
  a value is missing only when it is the empty string (whitespace passes). The
  \<open>required\<close> of the Radix \<open>Select\<close> (78) reaches a hidden native select with
  value \<open>""\<close> and no empty option, on which the browser selects the first option; it
  does not block a submission with no category chosen, so \<open>category\<close> is not checked.
\<close>

definition form_valid :: "dialog_state \<Rightarrow> bool" where
  "form_valid s \<longleftrightarrow> dlg_title s \<noteq> [] \<and> dlg_content s \<noteq> []"

definition submit_form :: "dialog_state \<Rightarrow> (dialog_state, compose_cont) outcome" where
  "submit_form s =
     (if dlg_open s \<and> \<not> dlg_isSubmitting s \<and> form_valid s then handleSubmit s else quiet s)"

subsection \<open>Rendering\<close>

text \<open>
  The dialog's render: the trigger button is always there; the form is rendered only
  while the dialog is open. The select shows the chosen item's text, or its placeholder
  while the value is the empty string; the uncontrolled inputs show what was typed; the
  submit button is disabled and reads ``Publicando...'' while a submission is in flight.
\<close>

primrec item_label :: "category_item \<Rightarrow> js_string" where
  "item_label Professores = js_str ''Professores''"
| "item_label Materias = js_str ''Mat'' @ [0xE9] @ js_str ''rias''"
| "item_label Atividades = js_str ''Atividades''"
| "item_label Geral = js_str ''Geral''"

definition select_display :: "js_string \<Rightarrow> js_string" where
  "select_display v =
     (case find (\<lambda>i. item_value i = v) [Professores, Materias, Atividades, Geral] of
        Some i \<Rightarrow> item_label i
      | None \<Rightarrow> js_str ''Selecione uma categoria'')"

record dialog_form =
  df_category :: js_string
  df_title :: js_string
  df_content :: js_string
  df_submit_label :: js_string
  df_submit_disabled :: bool

record dialog_view =
  dv_trigger :: js_string
  dv_form :: "dialog_form option"

definition render_dialog :: "dialog_state \<Rightarrow> dialog_view" where
  "render_dialog s =
     \<lparr>dv_trigger = js_str ''Novo Feedback'',
      dv_form = (if dlg_open s
                 then Some \<lparr>df_category = select_display (dlg_category s),
                            df_title = dlg_title s, df_content = dlg_content s,
                            df_submit_label = (if dlg_isSubmitting s then js_str ''Publicando...''
                                               else js_str ''Publicar''),
                            df_submit_disabled = dlg_isSubmitting s\<rparr>
                 else None)\<rparr>"

definition dialog_wf :: "dialog_state \<Rightarrow> bool" where
  "dialog_wf s \<longleftrightarrow>
     (dlg_category s = [] \<or> dlg_category s \<in> range item_value)
   \<and> (\<not> dlg_open s \<longrightarrow> dlg_title s = [] \<and> dlg_content s = [])"

lemmas compose_handler_defs [model_simps] =
  handleSubmit_def compose_after_user_def compose_after_insert_def set_open_def
  select_category_def type_title_def type_content_def form_valid_def submit_form_def
  dialog_init_def

subsection \<open>Lemmas\<close>

lemma range_item_value: "range item_value = set category_values"
proof -
  have "c \<in> set [Professores, Materias, Atividades, Geral]" for c
    by (cases c) simp_all
  then have "set [Professores, Materias, Atividades, Geral] = UNIV" by blast
  then show ?thesis unfolding category_values_def by (simp only: list.set_map)
qed

lemma dialog_wf_init: "dialog_wf dialog_init"
  by (simp add: dialog_wf_def dialog_init_def)

lemma dialog_wf_events:
  "dialog_wf s \<Longrightarrow> dialog_wf (set_open b s)"
  "dialog_wf s \<Longrightarrow> dialog_wf (select_category i s)"
  "dialog_wf s \<Longrightarrow> dialog_wf (type_title v s)"
  "dialog_wf s \<Longrightarrow> dialog_wf (type_content v s)"
  by (auto simp: dialog_wf_def model_simps)

lemma dialog_wf_submit: "dialog_wf s \<Longrightarrow> dialog_wf (new_state (submit_form s))"
  by (auto simp: dialog_wf_def model_simps quiet_def)

lemma dialog_wf_deliver: "dialog_wf s \<Longrightarrow> dialog_wf (new_state (compose_deliver k r s))"
  by (cases "(k, r, s)" rule: compose_deliver.cases)
     (auto simp: dialog_wf_def model_simps quiet_def split: option.splits)

lemma submit_form_calls:
  "calls (submit_form s) = [] \<or>
   (\<not> dlg_isSubmitting s \<and> form_valid s \<and> dlg_open s \<and>
    calls (submit_form s) = [(K_compose_user (dlg_title s) (dlg_content s) (dlg_category s), Get_user)]
    \<and> dlg_isSubmitting (new_state (submit_form s)))"
  by (auto simp: model_simps quiet_def)

lemma compose_after_insert_idle:
  "\<not> dlg_isSubmitting (new_state (compose_after_insert err s)) \<and> calls (compose_after_insert err s) = []
   \<and> reload (compose_after_insert err s) = (err = None)"
  by (auto simp: compose_after_insert_def split: option.splits)

lemma select_display_item: "select_display (item_value i) = item_label i"
  by (cases i) (simp_all add: select_display_def js_str_def)

end
