(* ===== verification/Feed_Loader.thy ===== *)
theory Feed_Loader
  imports Interface
begin

text \<open>
  \<open>src/pages/Index.tsx\<close>: the feed page. Its React state (\<open>user\<close>,
  \<open>feedbacks\<close>, \<open>isLoading\<close>), the router location that \<open>navigate\<close> sets, and
  whether its auth subscription is live form the record \<open>index_state\<close>. The mount
  effect starts \<open>checkAuth\<close> and subscribes to \<open>onAuthStateChange\<close>; its cleanup
  unsubscribes. \<open>checkAuth\<close> is cut at its \<open>await\<close>s (\<open>checkAuth_after_session\<close>,
  \<open>checkAuth_after_load\<close>), \<open>loadFeedbacks\<close> at its query
  (\<open>loadFeedbacks_after_query\<close>), \<open>handleSignOut\<close> at \<open>signOut\<close>. A reload that
  a child asks for (\<open>onFeedbackAdded\<close>, \<open>onCommentAdded\<close>) is \<open>loadFeedbacks\<close>
  with the continuation \<open>K_reload\<close>; nobody awaits it. \<open>index_screen\<close> is what the
  page renders: the loading screen, the empty feed, or the cards in order.
\<close>

record index_state =
  ix_user :: "uid option"
  ix_feedbacks :: "feedback_view list"
  ix_isLoading :: bool
  ix_route :: route
  ix_subscribed :: bool

definition index_init :: index_state where
  "index_init = \<lparr>ix_user = None, ix_feedbacks = [], ix_isLoading = True,
                 ix_route = Route_index, ix_subscribed = False\<rparr>"

datatype index_cont = K_check_session | K_check_load | K_reload | K_sign_out

subsection \<open>Handlers\<close>

definition loadFeedbacks :: "index_cont \<Rightarrow> index_state \<Rightarrow> (index_state, index_cont) outcome" where
  "loadFeedbacks k s = \<lparr>new_state = s, calls = [(k, Query_feed)], toasts = [], reload = False\<rparr>"

definition loadFeedbacks_after_query ::
  "backend_error + feedback_view list \<Rightarrow> index_state \<Rightarrow> (index_state, index_cont) outcome" where
  "loadFeedbacks_after_query res s =
     (case res of
        Inl e \<Rightarrow> \<lparr>new_state = s, calls = [], toasts = [Toast_error Erro_ao_carregar_feedbacks],
                  reload = False\<rparr>
      | Inr data \<Rightarrow> quiet (s\<lparr>ix_feedbacks := data\<rparr>))"

text \<open>The mount effect: \<open>checkAuth()\<close> runs to its first \<open>await\<close>, then the subscription.\<close>

definition index_mount :: "index_state \<Rightarrow> (index_state, index_cont) outcome" where
  "index_mount s =
     \<lparr>new_state = s\<lparr>ix_subscribed := True\<rparr>, calls = [(K_check_session, Get_session)],
      toasts = [], reload = False\<rparr>"

definition index_unmount :: "index_state \<Rightarrow> index_state" where
  "index_unmount s = s\<lparr>ix_subscribed := False\<rparr>"

definition checkAuth_after_session ::
  "uid option \<Rightarrow> index_state \<Rightarrow> (index_state, index_cont) outcome" where
  "checkAuth_after_session sess s =
     (case sess of
        None \<Rightarrow> quiet (s\<lparr>ix_route := Route_auth\<rparr>)
      | Some u \<Rightarrow> loadFeedbacks K_check_load (s\<lparr>ix_user := Some u\<rparr>))"

definition checkAuth_after_load ::
  "backend_error + feedback_view list \<Rightarrow> index_state \<Rightarrow> (index_state, index_cont) outcome" where
  "checkAuth_after_load res s =
     (let out = loadFeedbacks_after_query res s
      in out\<lparr>new_state := (new_state out)\<lparr>ix_isLoading := False\<rparr>\<rparr>)"

definition onAuthStateChange :: "uid option \<Rightarrow> index_state \<Rightarrow> index_state" where
  "onAuthStateChange sess s =
     (if \<not> ix_subscribed s then s
      else if sess = None then s\<lparr>ix_user := None, ix_route := Route_auth\<rparr>
      else s\<lparr>ix_user := sess\<rparr>)"

definition handleSignOut :: "index_state \<Rightarrow> (index_state, index_cont) outcome" where
  "handleSignOut s = \<lparr>new_state = s, calls = [(K_sign_out, Sign_out)], toasts = [], reload = False\<rparr>"

definition signOut_after :: "backend_error option \<Rightarrow> index_state \<Rightarrow> (index_state, index_cont) outcome" where
  "signOut_after err s =
     (case err of
        Some e \<Rightarrow> \<lparr>new_state = s, calls = [], toasts = [Toast_error Erro_ao_sair], reload = False\<rparr>
      | None \<Rightarrow> \<lparr>new_state = s\<lparr>ix_route := Route_auth\<rparr>, calls = [], toasts = [Toast_success Ate_logo],
                 reload = False\<rparr>)"

fun index_deliver ::
  "index_cont \<Rightarrow> response \<Rightarrow> index_state \<Rightarrow> (index_state, index_cont) outcome" where
  "index_deliver K_check_session (Resp_session sess) s = checkAuth_after_session sess s"
| "index_deliver K_check_load (Resp_feed res) s = checkAuth_after_load res s"
| "index_deliver K_reload (Resp_feed res) s = loadFeedbacks_after_query res s"
| "index_deliver K_sign_out (Resp_done err) s = signOut_after err s"
| "index_deliver k r s = quiet s"

subsection \<open>Rendering\<close>

datatype index_screen = Screen_loading | Screen_empty | Screen_feed "feedback_view list"

definition index_screen :: "index_state \<Rightarrow> index_screen" where
  "index_screen s =
     (if ix_isLoading s then Screen_loading
      else if ix_feedbacks s = [] then Screen_empty
      else Screen_feed (ix_feedbacks s))"

lemmas index_handler_defs [model_simps] =
  loadFeedbacks_def loadFeedbacks_after_query_def index_mount_def index_unmount_def
  checkAuth_after_session_def checkAuth_after_load_def onAuthStateChange_def
  handleSignOut_def signOut_after_def index_init_def

subsection \<open>Lemmas\<close>

lemma loadFeedbacks_after_query_feed:
  "ix_feedbacks (new_state (loadFeedbacks_after_query res s)) =
     (case res of Inl e \<Rightarrow> ix_feedbacks s | Inr data \<Rightarrow> data)"
  by (simp add: model_simps quiet_def split: sum.splits)

lemma index_deliver_calls:
  "set (calls (index_deliver k r s)) \<subseteq> {(K_check_load, Query_feed)}"
  by (cases "(k, r, s)" rule: index_deliver.cases)
     (auto simp: model_simps quiet_def Let_def split: option.splits sum.splits)

end
