(* ===== verification/Feed_System.thy ===== *)
theory Feed_System
  imports Commenter Composer Feed_Loader
begin

text \<open>
  The components composed as the running application. Several browser clients share one
  backend. A client holds its session (kept by the client library), the feed page
  (\<open>Index.tsx\<close>), the two \<open>NewFeedbackDialog\<close> instances the page renders (in the
  header, and inside the empty-feed card), one \<open>FeedbackCard\<close> per feedback id
  (React's \<open>key\<close>), its requests in flight, and the toasts shown so far. A request is a
  task \<open>(continuation, call, response)\<close>: the network serves it at some point
  (\<open>Serve\<close>, with a fault) and delivers the response later (\<open>Deliver\<close>), in any
  order with the other tasks. A component is mounted as \<open>Index.tsx\<close> renders it:
  dialogs and cards only once the page has loaded, the second dialog only while the feed
  is empty, a card only while its feedback is in the feed. The mounted dialogs and cards
  are association lists \<open>(key, instance, state)\<close>; \<open>settle\<close> drops the ones no
  longer rendered and mounts the new ones with their initial state and a fresh instance
  number (React's fiber identity). A task names the instance that made it, so a response
  to a request of an instance that has since unmounted updates nothing; the calls, toasts
  and reloads its continuation makes still happen, as they do in React.
  \<open>sys_exec\<close> runs one action, \<open>sys_run\<close> a list of them, and \<open>reach S0\<close>
  is the set of states reachable from \<open>S0\<close>.
\<close>

datatype dialog_slot = Header_dialog | Empty_feed_dialog

datatype cont =
    KI index_cont
  | KD nat compose_cont
  | KC row_id nat comment_cont

type_synonym task = "cont \<times> call \<times> response option"

record client =
  cl_session :: "uid option"
  cl_index :: index_state
  cl_dialogs :: "(dialog_slot \<times> nat \<times> dialog_state) list"
  cl_cards :: "(row_id \<times> nat \<times> card_state) list"
  cl_next_inst :: nat
  cl_pending :: "task list"
  cl_shown :: "toast list"

record sys =
  backend :: db
  clients :: "nat \<Rightarrow> client"

subsection \<open>Mounting\<close>

definition page_live :: "client \<Rightarrow> bool" where
  "page_live c \<longleftrightarrow> ix_route (cl_index c) = Route_index"

definition page_ready :: "client \<Rightarrow> bool" where
  "page_ready c \<longleftrightarrow> page_live c \<and> \<not> ix_isLoading (cl_index c)"

definition mounted_slots :: "client \<Rightarrow> dialog_slot list" where
  "mounted_slots c =
     (if page_ready c
      then Header_dialog # (if ix_feedbacks (cl_index c) = [] then [Empty_feed_dialog] else [])
      else [])"

definition mounted_cards :: "client \<Rightarrow> row_id list" where
  "mounted_cards c = (if page_ready c then map f_id (ix_feedbacks (cl_index c)) else [])"

text \<open>
  \<open>remount ks old s0 n\<close>: the components for keys \<open>ks\<close>, keeping the instance and
  state of those already mounted and numbering the new ones from \<open>n\<close>.
\<close>

fun remount :: "'k list \<Rightarrow> ('k \<times> nat \<times> 's) list \<Rightarrow> 's \<Rightarrow> nat \<Rightarrow> ('k \<times> nat \<times> 's) list \<times> nat" where
  "remount [] old s0 n = ([], n)"
| "remount (k # ks) old s0 n =
     (case map_of old k of
        Some (i, s) \<Rightarrow> (let (rest, n') = remount ks old s0 n in ((k, i, s) # rest, n'))
      | None \<Rightarrow> (let (rest, n') = remount ks old s0 (Suc n) in ((k, n, s0) # rest, n')))"

definition settle :: "client \<Rightarrow> client" where
  "settle c =
     (let (ds, n1) = remount (mounted_slots c) (cl_dialogs c) dialog_init (cl_next_inst c);
          (cs, n2) = remount (mounted_cards c) (cl_cards c) card_init n1
      in c\<lparr>cl_index := (if page_live c then cl_index c else index_unmount (cl_index c)),
           cl_dialogs := ds, cl_cards := cs, cl_next_inst := n2\<rparr>)"

text \<open>The state of instance \<open>i\<close>, or the initial one if it is no longer mounted.\<close>

definition inst_state :: "('k \<times> nat \<times> 's) list \<Rightarrow> nat \<Rightarrow> 's \<Rightarrow> 's" where
  "inst_state xs i s0 = (case find (\<lambda>(k, j, s). j = i) xs of Some (k, j, s) \<Rightarrow> s | None \<Rightarrow> s0)"

definition set_inst :: "nat \<Rightarrow> 's \<Rightarrow> ('k \<times> nat \<times> 's) list \<Rightarrow> ('k \<times> nat \<times> 's) list" where
  "set_inst i s' xs = map (\<lambda>(k, j, s). if j = i then (k, j, s') else (k, j, s)) xs"

subsection \<open>Applying a handler's outcome\<close>

definition spawn :: "('k \<Rightarrow> cont) \<Rightarrow> ('k \<times> call) list \<Rightarrow> task list" where
  "spawn tag cs = map (\<lambda>(k, c). (tag k, c, None)) cs"

text \<open>The parent's \<open>loadFeedbacks\<close>, run by a child's callback, sends the feed query.\<close>

definition reload_tasks :: "bool \<Rightarrow> task list" where
  "reload_tasks b = (if b then [(KI K_reload, Query_feed, None)] else [])"

definition apply_index :: "bool \<Rightarrow> (index_state, index_cont) outcome \<Rightarrow> client \<Rightarrow> client" where
  "apply_index live out c =
     c\<lparr>cl_index := (if live then new_state out else cl_index c),
       cl_pending := cl_pending c @ spawn KI (calls out),
       cl_shown := cl_shown c @ toasts out\<rparr>"

definition apply_dialog ::
  "nat \<Rightarrow> (dialog_state, compose_cont) outcome \<Rightarrow> client \<Rightarrow> client" where
  "apply_dialog i out c =
     c\<lparr>cl_dialogs := set_inst i (new_state out) (cl_dialogs c),
       cl_pending := cl_pending c @ spawn (KD i) (calls out) @ reload_tasks (reload out),
       cl_shown := cl_shown c @ toasts out\<rparr>"

definition apply_card ::
  "row_id \<Rightarrow> nat \<Rightarrow> (card_state, comment_cont) outcome \<Rightarrow> client \<Rightarrow> client" where
  "apply_card f i out c =
     c\<lparr>cl_cards := set_inst i (new_state out) (cl_cards c),
       cl_pending := cl_pending c @ spawn (KC f i) (calls out) @ reload_tasks (reload out),
       cl_shown := cl_shown c @ toasts out\<rparr>"

subsection \<open>Actions\<close>

datatype ui_event =
    Open_change dialog_slot bool
  | Choose_category dialog_slot category_item
  | Input_title dialog_slot js_string
  | Input_content dialog_slot js_string
  | Submit dialog_slot
  | Toggle_comments row_id
  | Input_comment row_id js_string
  | Send_comment row_id
  | Click_sign_out

definition update_dialog :: "dialog_slot \<Rightarrow> (dialog_state \<Rightarrow> dialog_state) \<Rightarrow> client \<Rightarrow> client option" where
  "update_dialog d f c =
     (case map_of (cl_dialogs c) d of
        Some (i, st) \<Rightarrow> Some (c\<lparr>cl_dialogs := set_inst i (f st) (cl_dialogs c)\<rparr>)
      | None \<Rightarrow> None)"

definition update_card :: "row_id \<Rightarrow> (card_state \<Rightarrow> card_state) \<Rightarrow> client \<Rightarrow> client option" where
  "update_card fid f c =
     (case map_of (cl_cards c) fid of
        Some (i, st) \<Rightarrow> Some (c\<lparr>cl_cards := set_inst i (f st) (cl_cards c)\<rparr>)
      | None \<Rightarrow> None)"

fun ui_step :: "ui_event \<Rightarrow> client \<Rightarrow> client option" where
  "ui_step (Open_change d b) c = update_dialog d (set_open b) c"
| "ui_step (Choose_category d i) c = update_dialog d (select_category i) c"
| "ui_step (Input_title d v) c = update_dialog d (type_title v) c"
| "ui_step (Input_content d v) c = update_dialog d (type_content v) c"
| "ui_step (Submit d) c =
     (case map_of (cl_dialogs c) d of
        Some (i, st) \<Rightarrow> Some (apply_dialog i (submit_form st) c)
      | None \<Rightarrow> None)"
| "ui_step (Toggle_comments fid) c = update_card fid toggle_comments c"
| "ui_step (Input_comment fid v) c = update_card fid (type_comment v) c"
| "ui_step (Send_comment fid) c =
     (case map_of (cl_cards c) fid of
        Some (i, st) \<Rightarrow> Some (apply_card fid i (click_send fid st) c)
      | None \<Rightarrow> None)"
| "ui_step Click_sign_out c =
     (if page_ready c then Some (apply_index True (handleSignOut (cl_index c)) c) else None)"

text \<open>The network serves task \<open>i\<close>: the backend answers it and applies it.\<close>

definition serve_task :: "nat \<Rightarrow> fault \<Rightarrow> client \<Rightarrow> db \<Rightarrow> (client \<times> db) option" where
  "serve_task i f c d =
     (if i < length (cl_pending c) then
        (case cl_pending c ! i of
           (k, cl, None) \<Rightarrow>
             (let (r, d') = serve (cl_session c) cl f d
              in Some (c\<lparr>cl_pending := (cl_pending c)[i := (k, cl, Some r)],
                         cl_session := (if cl = Sign_out \<and> f = No_fault then None
                                        else cl_session c)\<rparr>, d'))
         | (k, cl, Some r) \<Rightarrow> None)
      else None)"

fun run_cont :: "cont \<Rightarrow> response \<Rightarrow> client \<Rightarrow> client" where
  "run_cont (KI k) r c = apply_index (page_live c) (index_deliver k r (cl_index c)) c"
| "run_cont (KD i k) r c =
     apply_dialog i (compose_deliver k r (inst_state (cl_dialogs c) i dialog_init)) c"
| "run_cont (KC f i k) r c =
     apply_card f i (comment_deliver f k r (inst_state (cl_cards c) i card_init)) c"

definition remove_at :: "nat \<Rightarrow> 'a list \<Rightarrow> 'a list" where
  "remove_at i xs = take i xs @ drop (Suc i) xs"

text \<open>The response of served task \<open>i\<close> reaches its continuation.\<close>

definition deliver :: "nat \<Rightarrow> client \<Rightarrow> client option" where
  "deliver i c =
     (if i < length (cl_pending c) then
        (case cl_pending c ! i of
           (k, cl, None) \<Rightarrow> None
         | (k, cl, Some r) \<Rightarrow> Some (run_cont k r (c\<lparr>cl_pending := remove_at i (cl_pending c)\<rparr>)))
      else None)"

datatype action =
    UI nat ui_event
  | Serve nat nat fault
  | Deliver nat nat
  | Auth_event nat
  | Session_lost nat

definition set_client :: "nat \<Rightarrow> client \<Rightarrow> sys \<Rightarrow> sys" where
  "set_client n c S = S\<lparr>clients := (clients S)(n := settle c)\<rparr>"

fun sys_exec :: "action \<Rightarrow> sys \<Rightarrow> sys option" where
  "sys_exec (UI n e) S = map_option (\<lambda>c. set_client n c S) (ui_step e (clients S n))"
| "sys_exec (Serve n i f) S =
     map_option (\<lambda>(c, d). set_client n c (S\<lparr>backend := d\<rparr>)) (serve_task i f (clients S n) (backend S))"
| "sys_exec (Deliver n i) S = map_option (\<lambda>c. set_client n c S) (deliver i (clients S n))"
| "sys_exec (Auth_event n) S =
     Some (set_client n ((clients S n)\<lparr>cl_index :=
             onAuthStateChange (cl_session (clients S n)) (cl_index (clients S n))\<rparr>) S)"
| "sys_exec (Session_lost n) S = Some (set_client n ((clients S n)\<lparr>cl_session := None\<rparr>) S)"

fun sys_run :: "action list \<Rightarrow> sys \<Rightarrow> sys option" where
  "sys_run [] S = Some S"
| "sys_run (a # as) S = (case sys_exec a S of None \<Rightarrow> None | Some S' \<Rightarrow> sys_run as S')"

definition client_start :: "uid option \<Rightarrow> client" where
  "client_start sess =
     \<lparr>cl_session = sess, cl_index = new_state (index_mount index_init),
      cl_dialogs = [], cl_cards = [], cl_next_inst = 0,
      cl_pending = spawn KI (calls (index_mount index_init)), cl_shown = []\<rparr>"

definition sys_start :: "(uid \<rightharpoonup> profile) \<Rightarrow> (nat \<Rightarrow> uid option) \<Rightarrow> sys" where
  "sys_start ps sess = \<lparr>backend = db_init ps, clients = (\<lambda>n. client_start (sess n))\<rparr>"

inductive reach :: "sys \<Rightarrow> sys \<Rightarrow> bool" for S0 where
  reach_start: "reach S0 S0"
| reach_step: "reach S0 S \<Longrightarrow> sys_exec a S = Some S' \<Longrightarrow> reach S0 S'"

lemmas system_defs [model_simps] =
  page_live_def page_ready_def mounted_slots_def mounted_cards_def settle_def inst_state_def
  set_inst_def spawn_def reload_tasks_def apply_index_def apply_dialog_def apply_card_def
  update_dialog_def update_card_def serve_task_def remove_at_def deliver_def set_client_def
  client_start_def sys_start_def

lemma sys_run_reach: "sys_run as S = Some S' \<Longrightarrow> reach S0 S \<Longrightarrow> reach S0 S'"
proof (induction as arbitrary: S)
  case Nil
  then show ?case by simp
next
  case (Cons a as)
  then obtain S1 where "sys_exec a S = Some S1" and "sys_run as S1 = Some S'"
    by (auto split: option.splits)
  with Cons.prems(2) Cons.IH show ?case by (blast intro: reach_step)
qed

text \<open>A run that the model executes to the end reaches its final state.\<close>

lemma sys_run_reach_the:
  "\<not> Option.is_none (sys_run as S0) \<Longrightarrow> reach S0 (the (sys_run as S0))"
  by (rule sys_run_reach [OF _ reach_start]) (auto simp: Option.is_none_def)

text \<open>A key that stays rendered keeps its instance and state (React's reconciliation by key).\<close>

lemma remount_map_of:
  "map_of old k = Some p \<Longrightarrow> k \<in> set ks \<Longrightarrow> map_of (fst (remount ks old s0 n)) k = Some p"
proof (induction ks arbitrary: n)
  case Nil
  then show ?case by simp
next
  case (Cons k' ks)
  show ?case
  proof (cases "map_of old k'")
    case None
    with Cons.prems have "k' \<noteq> k" by auto
    with Cons None show ?thesis by (simp add: case_prod_beta)
  next
    case (Some q)
    with Cons show ?thesis by (cases "k' = k") (auto simp: case_prod_beta)
  qed
qed

lemma settle_keeps_card:
  assumes "map_of (cl_cards c) f = Some p" and "f \<in> set (mounted_cards c)"
  shows "map_of (cl_cards (settle c)) f = Some p"
proof -
  obtain ds n1 where r1: "remount (mounted_slots c) (cl_dialogs c) dialog_init (cl_next_inst c) = (ds, n1)"
    by fastforce
  obtain cs n2 where r2: "remount (mounted_cards c) (cl_cards c) card_init n1 = (cs, n2)"
    by fastforce
  from remount_map_of [OF assms, of card_init n1] r2 have "map_of cs f = Some p" by simp
  with r1 r2 show ?thesis by (simp add: settle_def)
qed

lemma settle_index_live: "page_live c \<Longrightarrow> cl_index (settle c) = cl_index c"
  by (simp add: settle_def split: prod.splits)

end
