(* ===== verification/System_Invariants.thy ===== *)
theory System_Invariants
  imports Feed_System
begin

text \<open>
  Invariants of the composed system, each proved for one action and lifted to every
  reachable state by rule induction on \<open>reach\<close>. \<open>client_inv\<close> is the busy-flag
  protocol of the two writers: every mounted composer or card instance has exactly one
  request in flight while its \<open>isSubmitting\<close> flag is set and none otherwise; it rests
  on the tasks having the shapes the handlers give them (\<open>task_ok\<close>) and on instance
  numbers being fresh. \<open>client_feeds P\<close> says every feed a client holds or is about to
  receive satisfies \<open>P\<close>; it holds in every reachable state whenever \<open>P\<close> holds of the
  backend's feed at every query (\<open>sys_exec_feeds\<close>). \<open>feed_inv\<close> is its instance for
  the newest-first order, which rests on \<open>db_wf\<close>.
\<close>

fun dialog_inst :: "cont \<Rightarrow> nat option" where
  "dialog_inst (KD i k) = Some i"
| "dialog_inst k = None"

fun card_inst :: "cont \<Rightarrow> nat option" where
  "card_inst (KC f i k) = Some i"
| "card_inst k = None"

definition dialog_flight :: "task list \<Rightarrow> nat \<Rightarrow> nat" where
  "dialog_flight ts i = length (filter (\<lambda>t. dialog_inst (fst t) = Some i) ts)"

definition card_flight :: "task list \<Rightarrow> nat \<Rightarrow> nat" where
  "card_flight ts i = length (filter (\<lambda>t. card_inst (fst t) = Some i) ts)"

fun is_insert_feedback :: "call \<Rightarrow> bool" where
  "is_insert_feedback (Insert_feedback u c t x) = True"
| "is_insert_feedback c = False"

fun is_insert_comment :: "call \<Rightarrow> bool" where
  "is_insert_comment (Insert_comment f u x) = True"
| "is_insert_comment c = False"

fun cont_fits :: "cont \<Rightarrow> call \<Rightarrow> bool" where
  "cont_fits (KI K_check_session) c = (c = Get_session)"
| "cont_fits (KI K_check_load) c = (c = Query_feed)"
| "cont_fits (KI K_reload) c = (c = Query_feed)"
| "cont_fits (KI K_sign_out) c = (c = Sign_out)"
| "cont_fits (KD i (K_compose_user t x k)) c = (c = Get_user)"
| "cont_fits (KD i K_compose_insert) c = is_insert_feedback c"
| "cont_fits (KC f i (K_comment_user x)) c = (c = Get_user)"
| "cont_fits (KC f i K_comment_insert) c = is_insert_comment c"

fun resp_fits :: "call \<Rightarrow> response \<Rightarrow> bool" where
  "resp_fits Get_session r = (case r of Resp_session s \<Rightarrow> True | _ \<Rightarrow> False)"
| "resp_fits Get_user r = (case r of Resp_user u \<Rightarrow> True | _ \<Rightarrow> False)"
| "resp_fits Query_feed r = (case r of Resp_feed x \<Rightarrow> True | _ \<Rightarrow> False)"
| "resp_fits c r = (case r of Resp_done e \<Rightarrow> True | _ \<Rightarrow> False)"

definition task_ok :: "nat \<Rightarrow> task \<Rightarrow> bool" where
  "task_ok n t \<longleftrightarrow>
     cont_fits (fst t) (fst (snd t))
   \<and> (case snd (snd t) of None \<Rightarrow> True | Some r \<Rightarrow> resp_fits (fst (snd t)) r)
   \<and> (case dialog_inst (fst t) of None \<Rightarrow> True | Some i \<Rightarrow> i < n)
   \<and> (case card_inst (fst t) of None \<Rightarrow> True | Some i \<Rightarrow> i < n)"

definition entries_ok :: "('s \<Rightarrow> bool) \<Rightarrow> (nat \<Rightarrow> nat) \<Rightarrow> nat \<Rightarrow> ('k \<times> nat \<times> 's) list \<Rightarrow> bool" where
  "entries_ok fl cnt n xs \<longleftrightarrow> (\<forall>(k, i, s)\<in>set xs. i < n \<and> cnt i = (if fl s then 1 else 0))"

definition calls_fit :: "('k \<Rightarrow> cont) \<Rightarrow> ('k \<times> call) list \<Rightarrow> bool" where
  "calls_fit tag cs \<longleftrightarrow> (\<forall>(k, c)\<in>set cs. cont_fits (tag k) c)"

definition client_inv :: "client \<Rightarrow> bool" where
  "client_inv c \<longleftrightarrow>
     (\<forall>t\<in>set (cl_pending c). task_ok (cl_next_inst c) t)
   \<and> entries_ok dlg_isSubmitting (dialog_flight (cl_pending c)) (cl_next_inst c) (cl_dialogs c)
   \<and> entries_ok isSubmitting (card_flight (cl_pending c)) (cl_next_inst c) (cl_cards c)"

definition feed_sorted :: "feedback_view list \<Rightarrow> bool" where
  "feed_sorted xs \<longleftrightarrow> sorted_wrt (>) (map f_created_at xs)"

text \<open>
  \<open>client_feeds P c\<close>: the feed the page holds and every feed an answered query is about
  to deliver satisfy \<open>P\<close>.
\<close>

definition resp_feed_ok :: "(feedback_view list \<Rightarrow> bool) \<Rightarrow> task \<Rightarrow> bool" where
  "resp_feed_ok P t \<longleftrightarrow> (case snd (snd t) of Some (Resp_feed (Inr xs)) \<Rightarrow> P xs | _ \<Rightarrow> True)"

definition client_feeds :: "(feedback_view list \<Rightarrow> bool) \<Rightarrow> client \<Rightarrow> bool" where
  "client_feeds P c \<longleftrightarrow> P (ix_feedbacks (cl_index c)) \<and> (\<forall>t\<in>set (cl_pending c). resp_feed_ok P t)"

definition feed_inv :: "sys \<Rightarrow> bool" where
  "feed_inv S \<longleftrightarrow> db_wf (backend S) \<and> (\<forall>n. client_feeds feed_sorted (clients S n))"

subsection \<open>Counting tasks\<close>

lemma dialog_flight_append [simp]:
  "dialog_flight (xs @ ys) i = dialog_flight xs i + dialog_flight ys i"
  by (simp add: dialog_flight_def)

lemma card_flight_append [simp]:
  "card_flight (xs @ ys) i = card_flight xs i + card_flight ys i"
  by (simp add: card_flight_def)

lemma flight_Nil [simp]: "dialog_flight [] i = 0" "card_flight [] i = 0"
  by (simp_all add: dialog_flight_def card_flight_def)

lemma flight_reload_tasks [simp]:
  "dialog_flight (reload_tasks b) i = 0" "card_flight (reload_tasks b) i = 0"
  by (simp_all add: dialog_flight_def card_flight_def reload_tasks_def)

lemma flight_spawn [simp]:
  "dialog_flight (spawn KI ks) i = 0" "card_flight (spawn KI ks) i = 0"
  "card_flight (spawn (KD j) ds) i = 0" "dialog_flight (spawn (KC f j) cs) i = 0"
  "dialog_flight (spawn (KD j) ds) i = (if i = j then length ds else 0)"
  "card_flight (spawn (KC f j) cs) i = (if i = j then length cs else 0)"
  by (auto simp: dialog_flight_def card_flight_def spawn_def comp_def split_def filter_False)

lemma filter_length_update:
  "i < length xs \<Longrightarrow> P (xs ! i) = P x \<Longrightarrow> length (filter P (xs[i := x])) = length (filter P xs)"
  by (induction xs arbitrary: i) (auto split: nat.splits)

lemma filter_length_remove_at:
  assumes "i < length xs"
  shows "length (filter P xs) = length (filter P (remove_at i xs)) + (if P (xs ! i) then 1 else 0)"
proof -
  have "xs = take i xs @ xs ! i # drop (Suc i) xs"
    using assms by (simp add: id_take_nth_drop)
  then have "length (filter P xs) = length (filter P (take i xs @ xs ! i # drop (Suc i) xs))"
    by simp
  then show ?thesis by (simp add: remove_at_def)
qed

lemma set_remove_at: "set (remove_at i xs) \<subseteq> set xs"
  by (auto simp: remove_at_def dest: in_set_takeD in_set_dropD)

subsection \<open>The busy-flag invariant\<close>

lemma entries_ok_set_inst:
  assumes ok: "entries_ok fl cnt n xs"
    and other: "\<And>j. j \<noteq> i \<Longrightarrow> cnt' j = cnt j"
    and own: "(\<exists>k s. (k, i, s) \<in> set xs) \<Longrightarrow> cnt' i = (if fl s' then 1 else 0)"
  shows "entries_ok fl cnt' n (set_inst i s' xs)"
  unfolding entries_ok_def
proof (intro ballI, clarify)
  fix k j s assume "(k, j, s) \<in> set (set_inst i s' xs)"
  then obtain s0 where old: "(k, j, s0) \<in> set xs" and s: "s = (if j = i then s' else s0)"
    by (auto simp: set_inst_def split: if_splits)
  from ok old have "j < n" and "cnt j = (if fl s0 then 1 else 0)"
    unfolding entries_ok_def by fastforce+
  show "j < n \<and> cnt' j = (if fl s then 1 else 0)"
  proof (cases "j = i")
    case True
    with old have "\<exists>k s. (k, i, s) \<in> set xs" by blast
    then have "cnt' i = (if fl s' then 1 else 0)" by (rule own)
    with True s \<open>j < n\<close> show ?thesis by simp
  next
    case False
    with other s \<open>j < n\<close> \<open>cnt j = _\<close> show ?thesis by simp
  qed
qed

lemma entries_ok_mono:
  "entries_ok fl cnt n xs \<Longrightarrow> n \<le> n' \<Longrightarrow> entries_ok fl cnt n' xs"
  unfolding entries_ok_def by fastforce

lemma remount_entries:
  "remount ks old s0 n = (ys, n') \<Longrightarrow>
   n \<le> n' \<and> (\<forall>(k, i, s)\<in>set ys. (k, i, s) \<in> set old \<or> (n \<le> i \<and> i < n' \<and> s = s0))"
proof (induction ks arbitrary: n ys n')
  case Nil
  then show ?case by simp
next
  case (Cons k ks)
  show ?case
  proof (cases "map_of old k")
    case None
    obtain rest m where r: "remount ks old s0 (Suc n) = (rest, m)" by fastforce
    with Cons.prems None have "ys = (k, n, s0) # rest" and "n' = m" by simp_all
    with Cons.IH [OF r] show ?thesis by fastforce
  next
    case (Some p)
    obtain i s where p: "p = (i, s)" by fastforce
    obtain rest m where r: "remount ks old s0 n = (rest, m)" by fastforce
    with Cons.prems Some p have "ys = (k, i, s) # rest" and "n' = m" by simp_all
    moreover have "(k, i, s) \<in> set old" using Some p by (simp add: map_of_SomeD)
    ultimately show ?thesis using Cons.IH [OF r] by fastforce
  qed
qed

lemma entries_ok_remount:
  assumes ok: "entries_ok fl cnt n old"
    and fresh: "\<And>i. n \<le> i \<Longrightarrow> cnt i = 0"
    and init: "\<not> fl s0"
    and r: "remount ks old s0 n = (ys, n')"
  shows "entries_ok fl cnt n' ys \<and> n \<le> n'"
proof -
  from remount_entries [OF r] have n: "n \<le> n'"
    and ys: "\<And>k i s. (k, i, s) \<in> set ys \<Longrightarrow> (k, i, s) \<in> set old \<or> (n \<le> i \<and> i < n' \<and> s = s0)"
    by fastforce+
  have "entries_ok fl cnt n' ys"
    unfolding entries_ok_def
  proof (intro ballI, clarify)
    fix k i s assume "(k, i, s) \<in> set ys"
    from ys [OF this] show "i < n' \<and> cnt i = (if fl s then 1 else 0)"
    proof
      assume "(k, i, s) \<in> set old"
      with ok n show ?thesis unfolding entries_ok_def by fastforce
    next
      assume "n \<le> i \<and> i < n' \<and> s = s0"
      with fresh init show ?thesis by simp
    qed
  qed
  with n show ?thesis by simp
qed

lemma inst_state_mem:
  "(k, i, s) \<in> set xs \<Longrightarrow> \<exists>k'. (k', i, inst_state xs i s0) \<in> set xs"
proof (induction xs)
  case Nil
  then show ?case by simp
next
  case (Cons x xs)
  obtain k1 j s1 where x: "x = (k1, j, s1)" by (cases x) auto
  show ?case
  proof (cases "j = i")
    case True
    with x show ?thesis by (auto simp: inst_state_def)
  next
    case False
    with Cons x have "\<exists>k'. (k', i, inst_state xs i s0) \<in> set xs" by auto
    with False x show ?thesis by (auto simp: inst_state_def)
  qed
qed

lemma task_ok_inst:
  "task_ok n t \<Longrightarrow> dialog_inst (fst t) = Some j \<Longrightarrow> j < n"
  "task_ok n t \<Longrightarrow> card_inst (fst t) = Some j \<Longrightarrow> j < n"
  by (simp_all add: task_ok_def)

lemma flight_fresh:
  assumes "\<forall>t\<in>set ts. task_ok n t" and "n \<le> i"
  shows "dialog_flight ts i = 0 \<and> card_flight ts i = 0"
proof -
  have "\<forall>t\<in>set ts. dialog_inst (fst t) \<noteq> Some i \<and> card_inst (fst t) \<noteq> Some i"
    using assms task_ok_inst by fastforce
  then show ?thesis
    by (simp add: dialog_flight_def card_flight_def filter_empty_conv)
qed

lemma dialog_events_flag [simp]:
  "dlg_isSubmitting (set_open b s) = dlg_isSubmitting s"
  "dlg_isSubmitting (select_category i s) = dlg_isSubmitting s"
  "dlg_isSubmitting (type_title v s) = dlg_isSubmitting s"
  "dlg_isSubmitting (type_content v s) = dlg_isSubmitting s"
  by (simp_all add: model_simps)

lemma card_events_flag [simp]:
  "isSubmitting (toggle_comments s) = isSubmitting s"
  "isSubmitting (type_comment v s) = isSubmitting s"
  by (simp_all add: model_simps)

lemma submit_form_cases:
  "(new_state (submit_form s) = s \<and> calls (submit_form s) = [] \<and> \<not> reload (submit_form s))
   \<or> (\<not> dlg_isSubmitting s \<and> dlg_isSubmitting (new_state (submit_form s))
      \<and> length (calls (submit_form s)) = 1 \<and> calls_fit (KD i) (calls (submit_form s))
      \<and> \<not> reload (submit_form s))"
  by (auto simp: model_simps quiet_def calls_fit_def)

lemma click_send_cases:
  "(new_state (click_send f s) = s \<and> calls (click_send f s) = [] \<and> \<not> reload (click_send f s))
   \<or> (\<not> isSubmitting s \<and> isSubmitting (new_state (click_send f s))
      \<and> length (calls (click_send f s)) = 1 \<and> calls_fit (KC f i) (calls (click_send f s))
      \<and> \<not> reload (click_send f s))"
  by (auto simp: model_simps quiet_def calls_fit_def)

lemma compose_deliver_cases:
  assumes "cont_fits (KD i k) c" and "resp_fits c r"
  shows "(\<not> dlg_isSubmitting (new_state (compose_deliver k r s)) \<and> calls (compose_deliver k r s) = [])
   \<or> (new_state (compose_deliver k r s) = s \<and> length (calls (compose_deliver k r s)) = 1
      \<and> calls_fit (KD i) (calls (compose_deliver k r s)))"
  using assms
  by (cases k; cases c; cases r)
     (auto simp: model_simps calls_fit_def split: option.splits)

lemma comment_deliver_cases:
  assumes "cont_fits (KC f i k) c" and "resp_fits c r"
  shows "(\<not> isSubmitting (new_state (comment_deliver f k r s)) \<and> calls (comment_deliver f k r s) = [])
   \<or> (new_state (comment_deliver f k r s) = s \<and> length (calls (comment_deliver f k r s)) = 1
      \<and> calls_fit (KC f i) (calls (comment_deliver f k r s)))"
  using assms
  by (cases k; cases c; cases r)
     (auto simp: model_simps calls_fit_def split: option.splits)

lemma index_calls_fit:
  "calls_fit KI (calls (index_deliver k r s))"
  "calls_fit KI (calls (handleSignOut s))"
  "calls_fit KI (calls (index_mount s))"
  using index_deliver_calls [of k r s]
  by (auto simp: calls_fit_def model_simps)

lemma task_ok_mono: "task_ok n t \<Longrightarrow> n \<le> m \<Longrightarrow> task_ok m t"
  unfolding task_ok_def by (auto split: option.splits)

lemma settle_pending [simp]: "cl_pending (settle c) = cl_pending c"
  by (simp add: settle_def split: prod.splits)

lemma settle_inv: "client_inv c \<Longrightarrow> client_inv (settle c)"
proof -
  assume inv: "client_inv c"
  let ?ts = "cl_pending c" and ?n = "cl_next_inst c"
  obtain ds n1 where r1: "remount (mounted_slots c) (cl_dialogs c) dialog_init ?n = (ds, n1)"
    by fastforce
  obtain cs n2 where r2: "remount (mounted_cards c) (cl_cards c) card_init n1 = (cs, n2)"
    by fastforce
  have tasks: "\<forall>t\<in>set ?ts. task_ok ?n t" using inv by (simp add: client_inv_def)
  have fresh: "\<And>i. ?n \<le> i \<Longrightarrow> dialog_flight ?ts i = 0 \<and> card_flight ?ts i = 0"
    using flight_fresh [OF tasks] by blast
  have d: "entries_ok dlg_isSubmitting (dialog_flight ?ts) n1 ds \<and> ?n \<le> n1"
    using inv fresh by (intro entries_ok_remount [OF _ _ _ r1]) (simp_all add: client_inv_def dialog_init_def)
  have c0: "entries_ok isSubmitting (card_flight ?ts) n1 (cl_cards c)"
    using inv d entries_ok_mono by (fastforce simp: client_inv_def)
  have c: "entries_ok isSubmitting (card_flight ?ts) n2 cs \<and> n1 \<le> n2"
    using c0 fresh d by (intro entries_ok_remount [OF _ _ _ r2]) (simp_all add: card_init_def)
  have "\<forall>t\<in>set ?ts. task_ok n2 t"
    using tasks d c task_ok_mono by (meson order_trans)
  with d c show ?thesis
    using r1 r2 entries_ok_mono [of dlg_isSubmitting _ n1 ds n2]
    by (simp add: client_inv_def settle_def)
qed

lemma entries_ok_same:
  "entries_ok fl cnt n xs \<Longrightarrow> (\<And>j. cnt' j = cnt j) \<Longrightarrow> entries_ok fl cnt' n xs"
  by (simp add: entries_ok_def)

lemma spawn_ok:
  "calls_fit KI cs \<Longrightarrow> \<forall>t\<in>set (spawn KI cs). task_ok n t"
  "calls_fit (KD i) ds \<Longrightarrow> i < n \<Longrightarrow> \<forall>t\<in>set (spawn (KD i) ds). task_ok n t"
  "calls_fit (KC f i) cs' \<Longrightarrow> i < n \<Longrightarrow> \<forall>t\<in>set (spawn (KC f i) cs'). task_ok n t"
  "\<forall>t\<in>set (reload_tasks b). task_ok n t"
  by (auto simp: calls_fit_def spawn_def task_ok_def reload_tasks_def)

lemma calls_fit_Nil [simp]: "calls_fit tag []"
  by (simp add: calls_fit_def)

lemma apply_index_inv:
  "client_inv c \<Longrightarrow> calls_fit KI (calls out) \<Longrightarrow> client_inv (apply_index live out c)"
  using spawn_ok(1) [of "calls out" "cl_next_inst c"]
  by (auto simp: client_inv_def apply_index_def intro: entries_ok_same)

text \<open>A writer instance \<open>i\<close> that is mounted: its entry and what the invariant says of it.\<close>

lemma entries_ok_entry:
  "entries_ok fl cnt n xs \<Longrightarrow> (k, i, s) \<in> set xs \<Longrightarrow> i < n \<and> cnt i = (if fl s then 1 else 0)"
  by (auto simp: entries_ok_def)

lemma apply_dialog_ui_inv:
  assumes inv: "client_inv c" and e: "(d, i, st) \<in> set (cl_dialogs c)"
    and cases: "(new_state out = st \<and> calls out = [] \<and> \<not> reload out)
       \<or> (\<not> dlg_isSubmitting st \<and> dlg_isSubmitting (new_state out) \<and> length (calls out) = 1
          \<and> calls_fit (KD i) (calls out) \<and> \<not> reload out)"
  shows "client_inv (apply_dialog i out c)"
proof -
  let ?p = "cl_pending c" and ?n = "cl_next_inst c"
  have own: "i < ?n \<and> dialog_flight ?p i = (if dlg_isSubmitting st then 1 else 0)"
    using inv e by (auto simp: client_inv_def dest: entries_ok_entry)
  let ?p' = "?p @ spawn (KD i) (calls out) @ reload_tasks (reload out)"
  have fit: "calls_fit (KD i) (calls out)" using cases by auto
  have tasks: "\<forall>t\<in>set ?p'. task_ok ?n t"
    using inv own spawn_ok(2) [OF fit] spawn_ok(4) by (auto simp: client_inv_def)
  have dl: "entries_ok dlg_isSubmitting (dialog_flight ?p') ?n (set_inst i (new_state out) (cl_dialogs c))"
    using inv cases own by (intro entries_ok_set_inst) (auto simp: client_inv_def)
  have cd: "entries_ok isSubmitting (card_flight ?p') ?n (cl_cards c)"
    using inv by (auto simp: client_inv_def intro: entries_ok_same)
  from tasks dl cd show ?thesis
    by (simp add: client_inv_def apply_dialog_def)
qed

lemma apply_card_ui_inv:
  assumes inv: "client_inv c" and e: "(f, i, st) \<in> set (cl_cards c)"
    and cases: "(new_state out = st \<and> calls out = [] \<and> \<not> reload out)
       \<or> (\<not> isSubmitting st \<and> isSubmitting (new_state out) \<and> length (calls out) = 1
          \<and> calls_fit (KC f i) (calls out) \<and> \<not> reload out)"
  shows "client_inv (apply_card f i out c)"
proof -
  let ?p = "cl_pending c" and ?n = "cl_next_inst c"
  have own: "i < ?n \<and> card_flight ?p i = (if isSubmitting st then 1 else 0)"
    using inv e by (auto simp: client_inv_def dest: entries_ok_entry)
  let ?p' = "?p @ spawn (KC f i) (calls out) @ reload_tasks (reload out)"
  have fit: "calls_fit (KC f i) (calls out)" using cases by auto
  have tasks: "\<forall>t\<in>set ?p'. task_ok ?n t"
    using inv own spawn_ok(3) [OF fit] spawn_ok(4) by (auto simp: client_inv_def)
  have cd: "entries_ok isSubmitting (card_flight ?p') ?n (set_inst i (new_state out) (cl_cards c))"
    using inv cases own by (intro entries_ok_set_inst) (auto simp: client_inv_def)
  have dl: "entries_ok dlg_isSubmitting (dialog_flight ?p') ?n (cl_dialogs c)"
    using inv by (auto simp: client_inv_def intro: entries_ok_same)
  from tasks dl cd show ?thesis
    by (simp add: client_inv_def apply_card_def)
qed

lemma update_dialog_inv:
  assumes inv: "client_inv c" and fl: "\<And>s. dlg_isSubmitting (f s) = dlg_isSubmitting s"
    and u: "update_dialog d f c = Some c'"
  shows "client_inv c'"
proof -
  from u obtain i st where m: "map_of (cl_dialogs c) d = Some (i, st)"
    and c': "c' = c\<lparr>cl_dialogs := set_inst i (f st) (cl_dialogs c)\<rparr>"
    by (auto simp: update_dialog_def split: option.splits)
  from m have "(d, i, st) \<in> set (cl_dialogs c)" by (rule map_of_SomeD)
  with inv have "dialog_flight (cl_pending c) i = (if dlg_isSubmitting st then 1 else 0)"
    by (auto simp: client_inv_def dest: entries_ok_entry)
  with inv fl have "entries_ok dlg_isSubmitting (dialog_flight (cl_pending c)) (cl_next_inst c)
                      (set_inst i (f st) (cl_dialogs c))"
    by (intro entries_ok_set_inst) (auto simp: client_inv_def)
  with inv c' show ?thesis by (simp add: client_inv_def)
qed

lemma update_card_inv:
  assumes inv: "client_inv c" and fl: "\<And>s. isSubmitting (f s) = isSubmitting s"
    and u: "update_card fid f c = Some c'"
  shows "client_inv c'"
proof -
  from u obtain i st where m: "map_of (cl_cards c) fid = Some (i, st)"
    and c': "c' = c\<lparr>cl_cards := set_inst i (f st) (cl_cards c)\<rparr>"
    by (auto simp: update_card_def split: option.splits)
  from m have "(fid, i, st) \<in> set (cl_cards c)" by (rule map_of_SomeD)
  with inv have "card_flight (cl_pending c) i = (if isSubmitting st then 1 else 0)"
    by (auto simp: client_inv_def dest: entries_ok_entry)
  with inv fl have "entries_ok isSubmitting (card_flight (cl_pending c)) (cl_next_inst c)
                      (set_inst i (f st) (cl_cards c))"
    by (intro entries_ok_set_inst) (auto simp: client_inv_def)
  with inv c' show ?thesis by (simp add: client_inv_def)
qed

lemma ui_step_inv:
  assumes inv: "client_inv c" and step: "ui_step e c = Some c'"
  shows "client_inv c'"
proof (cases e)
  case (Submit d)
  with step obtain i st where m: "map_of (cl_dialogs c) d = Some (i, st)"
    and c': "c' = apply_dialog i (submit_form st) c"
    by (auto split: option.splits)
  from m have "(d, i, st) \<in> set (cl_dialogs c)" by (rule map_of_SomeD)
  with inv c' submit_form_cases [of st i] show ?thesis by (simp add: apply_dialog_ui_inv)
next
  case (Send_comment f)
  with step obtain i st where m: "map_of (cl_cards c) f = Some (i, st)"
    and c': "c' = apply_card f i (click_send f st) c"
    by (auto split: option.splits)
  from m have "(f, i, st) \<in> set (cl_cards c)" by (rule map_of_SomeD)
  with inv c' click_send_cases [of f st i] show ?thesis by (simp add: apply_card_ui_inv)
next
  case Click_sign_out
  with step inv index_calls_fit(2) show ?thesis
    by (auto simp: apply_index_inv split: if_splits)
next
  case (Open_change d b)
  with step have "update_dialog d (set_open b) c = Some c'" by simp
  then show ?thesis by (rule update_dialog_inv [OF inv, rotated]) simp
next
  case (Choose_category d i)
  with step have "update_dialog d (select_category i) c = Some c'" by simp
  then show ?thesis by (rule update_dialog_inv [OF inv, rotated]) simp
next
  case (Input_title d v)
  with step have "update_dialog d (type_title v) c = Some c'" by simp
  then show ?thesis by (rule update_dialog_inv [OF inv, rotated]) simp
next
  case (Input_content d v)
  with step have "update_dialog d (type_content v) c = Some c'" by simp
  then show ?thesis by (rule update_dialog_inv [OF inv, rotated]) simp
next
  case (Toggle_comments f)
  with step have "update_card f toggle_comments c = Some c'" by simp
  then show ?thesis by (rule update_card_inv [OF inv, rotated]) simp
next
  case (Input_comment f v)
  with step have "update_card f (type_comment v) c = Some c'" by simp
  then show ?thesis by (rule update_card_inv [OF inv, rotated]) simp
qed

lemma serve_resp_fits: "resp_fits cl (fst (serve sess cl f d))"
  by (cases cl; cases f) (auto simp: write_result_def split: sum.splits)

lemma serve_task_inv:
  assumes inv: "client_inv c" and sv: "serve_task i f c d = Some (c', d')"
  shows "client_inv c'"
proof -
  let ?p = "cl_pending c"
  from sv obtain k cl r where i: "i < length ?p" and ti: "?p ! i = (k, cl, None)"
    and r: "r = fst (serve (cl_session c) cl f d)"
    and c': "cl_pending c' = ?p[i := (k, cl, Some r)]" "cl_dialogs c' = cl_dialogs c"
            "cl_cards c' = cl_cards c" "cl_next_inst c' = cl_next_inst c"
    by (auto simp: serve_task_def split: if_splits option.splits prod.splits)
  have old: "task_ok (cl_next_inst c) (k, cl, None)"
    using inv i ti nth_mem by (fastforce simp: client_inv_def)
  then have "task_ok (cl_next_inst c) (k, cl, Some r)"
    using serve_resp_fits [of cl "cl_session c" f d] r by (simp add: task_ok_def)
  moreover have "set (cl_pending c') \<subseteq> insert (k, cl, Some r) (set ?p)"
    using c'(1) by (simp add: set_update_subset_insert)
  ultimately have tasks: "\<forall>t\<in>set (cl_pending c'). task_ok (cl_next_inst c) t"
    using inv by (auto simp: client_inv_def)
  have "dialog_flight (cl_pending c') = dialog_flight ?p"
       "card_flight (cl_pending c') = card_flight ?p"
    using i ti c'(1) by (simp_all add: fun_eq_iff dialog_flight_def card_flight_def filter_length_update)
  with inv tasks c' show ?thesis
    by (simp add: client_inv_def)
qed

lemma flight_remove_at:
  assumes "i < length p"
  shows "dialog_flight p j = dialog_flight (remove_at i p) j + (if dialog_inst (fst (p ! i)) = Some j then 1 else 0)"
    and "card_flight p j = card_flight (remove_at i p) j + (if card_inst (fst (p ! i)) = Some j then 1 else 0)"
  using assms by (simp_all add: dialog_flight_def card_flight_def filter_length_remove_at)

lemma deliver_dialog_inv:
  assumes inv: "client_inv c" and i: "i < length (cl_pending c)"
    and ti: "cl_pending c ! i = (KD j kd, cl, Some r)"
  shows "client_inv (run_cont (KD j kd) r (c\<lparr>cl_pending := remove_at i (cl_pending c)\<rparr>))"
proof -
  let ?p = "cl_pending c" and ?n = "cl_next_inst c" and ?q = "remove_at i (cl_pending c)"
  let ?st = "inst_state (cl_dialogs c) j dialog_init"
  let ?out = "compose_deliver kd r ?st"
  let ?p' = "?q @ spawn (KD j) (calls ?out) @ reload_tasks (reload ?out)"
  have tok: "task_ok ?n (KD j kd, cl, Some r)"
    using inv i ti nth_mem by (fastforce simp: client_inv_def)
  then have fits: "cont_fits (KD j kd) cl" "resp_fits cl r" and jn: "j < ?n"
    by (simp_all add: task_ok_def)
  have cases: "(\<not> dlg_isSubmitting (new_state ?out) \<and> calls ?out = [])
     \<or> (new_state ?out = ?st \<and> length (calls ?out) = 1 \<and> calls_fit (KD j) (calls ?out))"
    by (rule compose_deliver_cases [OF fits])
  then have fit: "calls_fit (KD j) (calls ?out)" by auto
  have cnt: "\<And>m. dialog_flight ?p m = dialog_flight ?q m + (if m = j then 1 else 0)"
    using flight_remove_at(1) [OF i] ti by simp
  have ccnt: "\<And>m. card_flight ?p m = card_flight ?q m"
    using flight_remove_at(2) [OF i] ti by simp
  have tasks: "\<forall>t\<in>set ?p'. task_ok ?n t"
    using inv set_remove_at [of i ?p] spawn_ok(2) [OF fit jn] spawn_ok(4)
    by (auto simp: client_inv_def)
  have own: "dialog_flight ?p' j = (if dlg_isSubmitting (new_state ?out) then 1 else 0)"
    if "\<exists>d s. (d, j, s) \<in> set (cl_dialogs c)"
  proof -
    from that obtain d s where "(d, j, s) \<in> set (cl_dialogs c)" by blast
    from inst_state_mem [OF this] obtain d' where e: "(d', j, ?st) \<in> set (cl_dialogs c)" by blast
    with inv have "dialog_flight ?p j = (if dlg_isSubmitting ?st then 1 else 0)"
      by (auto simp: client_inv_def dest: entries_ok_entry)
    with cnt [of j] have "dlg_isSubmitting ?st" and "dialog_flight ?q j = 0"
      by (auto split: if_splits)
    with cases show ?thesis by auto
  qed
  have dl: "entries_ok dlg_isSubmitting (dialog_flight ?p') ?n (set_inst j (new_state ?out) (cl_dialogs c))"
    using inv own cnt by (intro entries_ok_set_inst [where cnt = "dialog_flight ?p"])
                         (auto simp: client_inv_def)
  have cd: "entries_ok isSubmitting (card_flight ?p') ?n (cl_cards c)"
    using inv ccnt by (auto simp: client_inv_def intro: entries_ok_same)
  from tasks dl cd show ?thesis
    by (simp add: client_inv_def apply_dialog_def)
qed

lemma deliver_card_inv:
  assumes inv: "client_inv c" and i: "i < length (cl_pending c)"
    and ti: "cl_pending c ! i = (KC f j kc, cl, Some r)"
  shows "client_inv (run_cont (KC f j kc) r (c\<lparr>cl_pending := remove_at i (cl_pending c)\<rparr>))"
proof -
  let ?p = "cl_pending c" and ?n = "cl_next_inst c" and ?q = "remove_at i (cl_pending c)"
  let ?st = "inst_state (cl_cards c) j card_init"
  let ?out = "comment_deliver f kc r ?st"
  let ?p' = "?q @ spawn (KC f j) (calls ?out) @ reload_tasks (reload ?out)"
  have tok: "task_ok ?n (KC f j kc, cl, Some r)"
    using inv i ti nth_mem by (fastforce simp: client_inv_def)
  then have fits: "cont_fits (KC f j kc) cl" "resp_fits cl r" and jn: "j < ?n"
    by (simp_all add: task_ok_def)
  have cases: "(\<not> isSubmitting (new_state ?out) \<and> calls ?out = [])
     \<or> (new_state ?out = ?st \<and> length (calls ?out) = 1 \<and> calls_fit (KC f j) (calls ?out))"
    by (rule comment_deliver_cases [OF fits])
  then have fit: "calls_fit (KC f j) (calls ?out)" by auto
  have cnt: "\<And>m. card_flight ?p m = card_flight ?q m + (if m = j then 1 else 0)"
    using flight_remove_at(2) [OF i] ti by simp
  have dcnt: "\<And>m. dialog_flight ?p m = dialog_flight ?q m"
    using flight_remove_at(1) [OF i] ti by simp
  have tasks: "\<forall>t\<in>set ?p'. task_ok ?n t"
    using inv set_remove_at [of i ?p] spawn_ok(3) [OF fit jn] spawn_ok(4)
    by (auto simp: client_inv_def)
  have own: "card_flight ?p' j = (if isSubmitting (new_state ?out) then 1 else 0)"
    if "\<exists>d s. (d, j, s) \<in> set (cl_cards c)"
  proof -
    from that obtain d s where "(d, j, s) \<in> set (cl_cards c)" by blast
    from inst_state_mem [OF this] obtain d' where e: "(d', j, ?st) \<in> set (cl_cards c)" by blast
    with inv have "card_flight ?p j = (if isSubmitting ?st then 1 else 0)"
      by (auto simp: client_inv_def dest: entries_ok_entry)
    with cnt [of j] have "isSubmitting ?st" and "card_flight ?q j = 0"
      by (auto split: if_splits)
    with cases show ?thesis by auto
  qed
  have cd: "entries_ok isSubmitting (card_flight ?p') ?n (set_inst j (new_state ?out) (cl_cards c))"
    using inv own cnt by (intro entries_ok_set_inst [where cnt = "card_flight ?p"])
                         (auto simp: client_inv_def)
  have dl: "entries_ok dlg_isSubmitting (dialog_flight ?p') ?n (cl_dialogs c)"
    using inv dcnt by (auto simp: client_inv_def intro: entries_ok_same)
  from tasks dl cd show ?thesis
    by (simp add: client_inv_def apply_card_def)
qed

lemma deliver_index_inv:
  assumes inv: "client_inv c" and i: "i < length (cl_pending c)"
    and ti: "cl_pending c ! i = (KI k, cl, Some r)"
  shows "client_inv (run_cont (KI k) r (c\<lparr>cl_pending := remove_at i (cl_pending c)\<rparr>))"
proof -
  let ?p = "cl_pending c" and ?q = "remove_at i (cl_pending c)"
  have "dialog_flight ?q = dialog_flight ?p" "card_flight ?q = card_flight ?p"
    using flight_remove_at [OF i] ti by (simp_all add: fun_eq_iff)
  moreover have "\<forall>t\<in>set ?q. task_ok (cl_next_inst c) t"
    using inv set_remove_at [of i ?p] by (auto simp: client_inv_def)
  ultimately have "client_inv (c\<lparr>cl_pending := ?q\<rparr>)"
    using inv by (simp add: client_inv_def)
  then show ?thesis
    by (simp add: apply_index_inv index_calls_fit(1))
qed

lemma deliver_inv:
  assumes inv: "client_inv c" and dl: "deliver i c = Some c'"
  shows "client_inv c'"
proof -
  from dl obtain k cl r where i: "i < length (cl_pending c)"
    and ti: "cl_pending c ! i = (k, cl, Some r)"
    and c': "c' = run_cont k r (c\<lparr>cl_pending := remove_at i (cl_pending c)\<rparr>)"
    by (auto simp: deliver_def split: if_splits option.splits prod.splits)
  show ?thesis
  proof (cases k)
    case (KI x)
    with ti have "cl_pending c ! i = (KI x, cl, Some r)" by simp
    with c' KI show ?thesis using deliver_index_inv [OF inv i] by simp
  next
    case (KD j x)
    with ti have "cl_pending c ! i = (KD j x, cl, Some r)" by simp
    with c' KD show ?thesis using deliver_dialog_inv [OF inv i] by simp
  next
    case (KC f j x)
    with ti have "cl_pending c ! i = (KC f j x, cl, Some r)" by simp
    with c' KC show ?thesis using deliver_card_inv [OF inv i] by simp
  qed
qed

lemma client_inv_other_fields:
  "client_inv (c\<lparr>cl_index := x\<rparr>) = client_inv c"
  "client_inv (c\<lparr>cl_session := s\<rparr>) = client_inv c"
  by (simp_all add: client_inv_def)

lemma set_client_inv:
  "\<forall>m. client_inv (clients T m) \<Longrightarrow> client_inv c \<Longrightarrow> \<forall>m. client_inv (clients (set_client n c T) m)"
  by (simp add: set_client_def settle_inv)

lemma sys_exec_inv:
  assumes inv: "\<forall>m. client_inv (clients S m)" and ex: "sys_exec a S = Some S'"
  shows "\<forall>m. client_inv (clients S' m)"
proof (cases a)
  case (UI n e)
  with ex obtain c' where u: "ui_step e (clients S n) = Some c'" and S': "S' = set_client n c' S"
    by auto
  from inv u have "client_inv c'" by (blast intro: ui_step_inv)
  with inv S' show ?thesis by (simp add: set_client_inv)
next
  case (Serve n i f)
  with ex obtain c' d' where sv: "serve_task i f (clients S n) (backend S) = Some (c', d')"
    and S': "S' = set_client n c' (S\<lparr>backend := d'\<rparr>)"
    by (auto split: prod.splits)
  from inv sv have "client_inv c'" by (blast intro: serve_task_inv)
  with inv S' show ?thesis by (simp add: set_client_inv)
next
  case (Deliver n i)
  with ex obtain c' where dl: "deliver i (clients S n) = Some c'" and S': "S' = set_client n c' S"
    by auto
  from inv dl have "client_inv c'" by (blast intro: deliver_inv)
  with inv S' show ?thesis by (simp add: set_client_inv)
next
  case (Auth_event n)
  with ex inv show ?thesis by (auto simp: set_client_inv client_inv_other_fields)
next
  case (Session_lost n)
  with ex inv show ?thesis by (auto simp: set_client_inv client_inv_other_fields)
qed

lemma client_start_inv: "client_inv (client_start sess)"
  by (simp add: client_inv_def client_start_def entries_ok_def spawn_def task_ok_def model_simps)

lemma reach_client_inv:
  assumes "reach (sys_start ps sess) S"
  shows "\<forall>n. client_inv (clients S n)"
  using assms
proof (induction rule: reach.induct)
  case reach_start
  show ?case by (simp add: sys_start_def client_start_inv)
next
  case (reach_step S a S')
  from reach_step.IH reach_step.hyps(2) show ?case by (rule sys_exec_inv)
qed

subsection \<open>Invariants of the feeds a client holds\<close>

text \<open>
  A property of feeds that holds of the backend's feed whenever a query is served holds
  of every feed a client shows: the page's feed only ever comes from a query's answer.
\<close>

lemma serve_feed_ok:
  "P (query_feed d) \<Longrightarrow> resp_feed_ok P (k, c, Some (fst (serve sess c f d)))"
  by (cases c; cases f) (auto simp: resp_feed_ok_def write_result_def split: sum.splits)

lemma index_deliver_feed:
  "ix_feedbacks (new_state (index_deliver k r s)) = ix_feedbacks s
   \<or> (\<exists>xs. r = Resp_feed (Inr xs) \<and> ix_feedbacks (new_state (index_deliver k r s)) = xs)"
  by (cases "(k, r, s)" rule: index_deliver.cases)
     (auto simp: model_simps quiet_def Let_def split: option.splits sum.splits)

lemma spawn_resp_feed_ok [simp]: "\<forall>t\<in>set (spawn tag cs). resp_feed_ok P t"
  by (auto simp: spawn_def resp_feed_ok_def)

lemma reload_resp_feed_ok [simp]: "\<forall>t\<in>set (reload_tasks b). resp_feed_ok P t"
  by (auto simp: reload_tasks_def resp_feed_ok_def)

lemma settle_feeds: "client_feeds P (settle c) = client_feeds P c"
  by (simp add: client_feeds_def settle_def model_simps split: prod.splits)

lemma client_feeds_fields [simp]:
  "client_feeds P (c\<lparr>cl_index := onAuthStateChange s (cl_index c)\<rparr>) = client_feeds P c"
  "client_feeds P (c\<lparr>cl_session := u\<rparr>) = client_feeds P c"
  by (simp_all add: client_feeds_def onAuthStateChange_def)

lemma apply_dialog_feeds: "client_feeds P c \<Longrightarrow> client_feeds P (apply_dialog i out c)"
  by (auto simp: client_feeds_def apply_dialog_def)

lemma apply_card_feeds: "client_feeds P c \<Longrightarrow> client_feeds P (apply_card f i out c)"
  by (auto simp: client_feeds_def apply_card_def)

lemma ui_step_feeds:
  assumes ok: "client_feeds P c" and u: "ui_step e c = Some c'"
  shows "client_feeds P c'"
proof (cases e)
  case (Submit d)
  with u obtain i st where "c' = apply_dialog i (submit_form st) c"
    by (auto split: option.splits)
  with ok show ?thesis by (simp add: apply_dialog_feeds)
next
  case (Send_comment f)
  with u obtain i st where "c' = apply_card f i (click_send f st) c"
    by (auto split: option.splits)
  with ok show ?thesis by (simp add: apply_card_feeds)
next
  case Click_sign_out
  with ok u show ?thesis
    by (auto simp: client_feeds_def apply_index_def handleSignOut_def split: if_splits)
qed (use ok u in \<open>auto simp: client_feeds_def update_dialog_def update_card_def
                     split: option.splits\<close>)

lemma serve_task_feeds:
  assumes ok: "client_feeds P c" and q: "P (query_feed d)" and sv: "serve_task i f c d = Some (c', d')"
  shows "client_feeds P c'"
proof -
  let ?p = "cl_pending c"
  from sv obtain k cl where i: "i < length ?p" and ti: "?p ! i = (k, cl, None)"
    and c': "cl_pending c' = ?p[i := (k, cl, Some (fst (serve (cl_session c) cl f d)))]"
            "cl_index c' = cl_index c"
    by (auto simp: serve_task_def split: if_splits option.splits prod.splits)
  have "resp_feed_ok P (k, cl, Some (fst (serve (cl_session c) cl f d)))"
    using q by (rule serve_feed_ok)
  moreover have "set (cl_pending c') \<subseteq> insert (k, cl, Some (fst (serve (cl_session c) cl f d))) (set ?p)"
    using c'(1) by (simp add: set_update_subset_insert)
  ultimately show ?thesis using ok c'(2) by (auto simp: client_feeds_def)
qed

lemma deliver_feeds:
  assumes ok: "client_feeds P c" and dl: "deliver i c = Some c'"
  shows "client_feeds P c'"
proof -
  from dl obtain k cl r where i: "i < length (cl_pending c)"
    and ti: "cl_pending c ! i = (k, cl, Some r)"
    and c': "c' = run_cont k r (c\<lparr>cl_pending := remove_at i (cl_pending c)\<rparr>)"
    by (auto simp: deliver_def split: if_splits option.splits prod.splits)
  have rs: "resp_feed_ok P (k, cl, Some r)" using ok i ti nth_mem by (fastforce simp: client_feeds_def)
  have ok1: "client_feeds P (c\<lparr>cl_pending := remove_at i (cl_pending c)\<rparr>)"
    using ok set_remove_at [of i "cl_pending c"] by (auto simp: client_feeds_def)
  show ?thesis
  proof (cases k)
    case (KI x)
    from index_deliver_feed [of x r "cl_index c"]
    have "P (ix_feedbacks (new_state (index_deliver x r (cl_index c))))"
    proof
      assume "ix_feedbacks (new_state (index_deliver x r (cl_index c))) = ix_feedbacks (cl_index c)"
      with ok show ?thesis by (simp add: client_feeds_def)
    next
      assume "\<exists>xs. r = Resp_feed (Inr xs) \<and> ix_feedbacks (new_state (index_deliver x r (cl_index c))) = xs"
      then obtain xs where "r = Resp_feed (Inr xs)"
        and "ix_feedbacks (new_state (index_deliver x r (cl_index c))) = xs" by blast
      with rs show ?thesis by (simp add: resp_feed_ok_def)
    qed
    with ok1 c' KI show ?thesis by (auto simp: client_feeds_def apply_index_def)
  next
    case (KD j x)
    with ok1 c' show ?thesis by (simp add: apply_dialog_feeds)
  next
    case (KC f j x)
    with ok1 c' show ?thesis by (simp add: apply_card_feeds)
  qed
qed

lemma set_client_feeds:
  "\<forall>m. client_feeds P (clients S m) \<Longrightarrow> client_feeds P c \<Longrightarrow>
   \<forall>m. client_feeds P (clients (set_client n c S) m)"
  by (simp add: set_client_def settle_feeds)

lemma sys_exec_feeds:
  assumes ok: "\<forall>m. client_feeds P (clients S m)" and q: "P (query_feed (backend S))"
    and ex: "sys_exec a S = Some S'"
  shows "\<forall>m. client_feeds P (clients S' m)"
proof (cases a)
  case (UI n e)
  with ex obtain c' where u: "ui_step e (clients S n) = Some c'" and S': "S' = set_client n c' S"
    by auto
  from ok u have "client_feeds P c'" by (blast intro: ui_step_feeds)
  with ok S' show ?thesis by (simp add: set_client_feeds)
next
  case (Serve n i f)
  with ex obtain c' d' where sv: "serve_task i f (clients S n) (backend S) = Some (c', d')"
    and S': "S' = set_client n c' (S\<lparr>backend := d'\<rparr>)"
    by (auto split: prod.splits)
  from ok q sv have "client_feeds P c'" by (blast intro: serve_task_feeds)
  with ok S' show ?thesis by (simp add: set_client_feeds)
next
  case (Deliver n i)
  with ex obtain c' where dl: "deliver i (clients S n) = Some c'" and S': "S' = set_client n c' S"
    by auto
  from ok dl have "client_feeds P c'" by (blast intro: deliver_feeds)
  with ok S' show ?thesis by (simp add: set_client_feeds)
next
  case (Auth_event n)
  with ex ok show ?thesis by (auto simp: set_client_def settle_feeds)
next
  case (Session_lost n)
  with ex ok show ?thesis by (auto simp: set_client_def settle_feeds)
qed

text \<open>A step changes the tables only by serving one call.\<close>

lemma sys_exec_backend:
  assumes "sys_exec a S = Some S'"
  shows "backend S' = backend S \<or> (\<exists>sess cl f r. serve sess cl f (backend S) = (r, backend S'))"
proof (cases a)
  case (Serve n i f)
  with assms obtain c' d' where sv: "serve_task i f (clients S n) (backend S) = Some (c', d')"
    and S': "S' = set_client n c' (S\<lparr>backend := d'\<rparr>)"
    by (auto split: prod.splits)
  from sv have "\<exists>cl r. serve (cl_session (clients S n)) cl f (backend S) = (r, d')"
    unfolding serve_task_def by (auto simp del: serve.simps split: if_splits option.splits prod.splits)
  with S' show ?thesis by (auto simp: set_client_def)
qed (use assms in \<open>auto simp: set_client_def\<close>)

lemma client_feeds_start: "P [] \<Longrightarrow> client_feeds P (client_start s)"
  by (simp add: client_feeds_def client_start_def spawn_def index_mount_def index_init_def
                resp_feed_ok_def)

subsection \<open>The feed order invariant\<close>

lemma query_feed_sorted: "db_wf d \<Longrightarrow> feed_sorted (query_feed d)"
  by (simp add: feed_sorted_def map_created_query_feed feed_order_strict db_wf_def)

lemma sys_exec_feed_inv:
  assumes inv: "feed_inv S" and ex: "sys_exec a S = Some S'"
  shows "feed_inv S'"
proof -
  from inv have wf: "db_wf (backend S)" by (simp add: feed_inv_def)
  from sys_exec_backend [OF ex] have "db_wf (backend S')"
  proof
    assume "backend S' = backend S"
    with wf show ?thesis by simp
  next
    assume "\<exists>sess cl f r. serve sess cl f (backend S) = (r, backend S')"
    with wf show ?thesis by (blast intro: serve_wf)
  qed
  moreover from inv have "\<forall>m. client_feeds feed_sorted (clients S m)" by (simp add: feed_inv_def)
  then have "\<forall>m. client_feeds feed_sorted (clients S' m)"
    by (rule sys_exec_feeds [where P = feed_sorted, OF _ query_feed_sorted [OF wf] ex])
  ultimately show ?thesis by (simp add: feed_inv_def)
qed

lemma reach_feed_inv: "reach (sys_start ps sess) S \<Longrightarrow> feed_inv S"
proof (induction rule: reach.induct)
  case reach_start
  show ?case
    by (simp add: feed_inv_def sys_start_def db_wf_init client_feeds_start feed_sorted_def)
next
  case (reach_step S a S')
  from reach_step.IH reach_step.hyps(2) show ?case by (rule sys_exec_feed_inv)
qed

end
