(* ===== verification/Access_Invariants.thy ===== *)
theory Access_Invariants
  imports System_Invariants
begin

text \<open>
  Who may write and what is written. \<open>access_inv sess\<close> says, for clients whose initial
  sessions are \<open>sess\<close>: every stored feedback has an author signed in on some client, one
  of the four categories or none (the empty string the select starts with), and a
  non-empty title and content; every stored comment has such
  an author and content that is not blank after \<open>trim()\<close>. It rests on the pending
  requests: an insert carries the user that \<open>getUser\<close> returned to its client, a
  \<open>getUser\<close> answer names only that client's session, and the values a handler captured
  before its \<open>await\<close> passed the form's checks. \<open>anon_client\<close> is the state of a client
  that was never signed in: only \<open>getSession\<close> requests, no feed, no dialog or card.
\<close>

fun call_safe :: "uid option \<Rightarrow> call \<Rightarrow> bool" where
  "call_safe sess (Insert_feedback u k t x) \<longleftrightarrow>
     sess = Some u \<and> k \<in> set ([] # category_values) \<and> t \<noteq> [] \<and> x \<noteq> []"
| "call_safe sess (Insert_comment f u x) \<longleftrightarrow> sess = Some u \<and> js_trim x \<noteq> []"
| "call_safe sess c \<longleftrightarrow> True"

fun cont_safe :: "cont \<Rightarrow> bool" where
  "cont_safe (KD i (K_compose_user t x k)) \<longleftrightarrow> k \<in> set ([] # category_values) \<and> t \<noteq> [] \<and> x \<noteq> []"
| "cont_safe (KC f i (K_comment_user x)) \<longleftrightarrow> js_trim x \<noteq> []"
| "cont_safe k \<longleftrightarrow> True"

fun resp_safe :: "uid option \<Rightarrow> response \<Rightarrow> bool" where
  "resp_safe sess (Resp_user (Some u)) \<longleftrightarrow> sess = Some u"
| "resp_safe sess r \<longleftrightarrow> True"

definition task_safe :: "uid option \<Rightarrow> task \<Rightarrow> bool" where
  "task_safe sess t \<longleftrightarrow>
     cont_safe (fst t) \<and> call_safe sess (fst (snd t)) \<and> pred_option (resp_safe sess) (snd (snd t))"

definition client_safe :: "uid option \<Rightarrow> client \<Rightarrow> bool" where
  "client_safe sess c \<longleftrightarrow>
     cl_session c \<in> {None, sess}
   \<and> (\<forall>t\<in>set (cl_pending c). task_safe sess t)
   \<and> (\<forall>(d, i, st)\<in>set (cl_dialogs c). dialog_wf st)"

definition feedback_row_ok :: "(nat \<Rightarrow> uid option) \<Rightarrow> feedback_row \<Rightarrow> bool" where
  "feedback_row_ok sess r \<longleftrightarrow>
     Some (fb_user r) \<in> range sess \<and> fb_category r \<in> set ([] # category_values)
   \<and> fb_title r \<noteq> [] \<and> fb_content r \<noteq> []"

definition comment_row_ok :: "(nat \<Rightarrow> uid option) \<Rightarrow> comment_row \<Rightarrow> bool" where
  "comment_row_ok sess r \<longleftrightarrow> Some (cm_user r) \<in> range sess \<and> js_trim (cm_content r) \<noteq> []"

definition db_safe :: "(nat \<Rightarrow> uid option) \<Rightarrow> db \<Rightarrow> bool" where
  "db_safe sess d \<longleftrightarrow>
     (\<forall>r\<in>set (feedback_tbl d). feedback_row_ok sess r)
   \<and> (\<forall>r\<in>set (comments_tbl d). comment_row_ok sess r)"

definition access_inv :: "(nat \<Rightarrow> uid option) \<Rightarrow> sys \<Rightarrow> bool" where
  "access_inv sess S \<longleftrightarrow> db_safe sess (backend S) \<and> (\<forall>n. client_safe (sess n) (clients S n))"

definition anon_task :: "task \<Rightarrow> bool" where
  "anon_task t \<longleftrightarrow>
     fst t = KI K_check_session \<and> fst (snd t) = Get_session
   \<and> snd (snd t) \<in> {None, Some (Resp_session None)}"

definition anon_client :: "client \<Rightarrow> bool" where
  "anon_client c \<longleftrightarrow>
     cl_session c = None \<and> ix_isLoading (cl_index c) \<and> ix_feedbacks (cl_index c) = []
   \<and> cl_dialogs c = [] \<and> cl_cards c = [] \<and> (\<forall>t\<in>set (cl_pending c). anon_task t)"

subsection \<open>Mounted states\<close>

lemma find_mem: "find P xs = Some x \<Longrightarrow> x \<in> set xs"
  by (induction xs) (auto split: if_splits)

lemma inst_state_pred:
  "\<forall>(k, j, s)\<in>set xs. P s \<Longrightarrow> P s0 \<Longrightarrow> P (inst_state xs i s0)"
  by (auto simp: inst_state_def split: option.splits dest!: find_mem)

lemma set_inst_pred:
  "\<forall>(k, j, s)\<in>set xs. P s \<Longrightarrow> P s' \<Longrightarrow> \<forall>(k, j, s)\<in>set (set_inst i s' xs). P s"
  by (auto simp: set_inst_def split: if_splits)

lemma remount_pred:
  assumes "\<forall>(k, j, s)\<in>set old. P s" and "P s0" and "remount ks old s0 n = (ys, n')"
  shows "\<forall>(k, j, s)\<in>set ys. P s"
  using remount_entries [OF assms(3)] assms(1,2) by fastforce

subsection \<open>The writes a client issues\<close>

lemma spawn_safe:
  "\<forall>(k, cl)\<in>set cs. cont_safe (tag k) \<and> call_safe sess cl \<Longrightarrow>
   \<forall>t\<in>set (spawn tag cs). task_safe sess t"
  by (auto simp: spawn_def task_safe_def)

lemma reload_tasks_safe: "\<forall>t\<in>set (reload_tasks b). task_safe sess t"
  by (simp add: reload_tasks_def task_safe_def)

lemma submit_form_safe:
  "dialog_wf st \<Longrightarrow> \<forall>(k, cl)\<in>set (calls (submit_form st)). cont_safe (KD i k) \<and> call_safe sess cl"
  using submit_form_calls [of st]
  by (auto simp: form_valid_def dialog_wf_def range_item_value)

lemma click_send_safe:
  "\<forall>(k, cl)\<in>set (calls (click_send f st)). cont_safe (KC f i k) \<and> call_safe sess cl"
  by (auto simp: model_simps quiet_def)

lemma compose_deliver_safe:
  "cont_safe (KD i k) \<Longrightarrow> resp_safe sess r \<Longrightarrow>
   \<forall>(k', cl)\<in>set (calls (compose_deliver k r s)). cont_safe (KD i k') \<and> call_safe sess cl"
  by (cases "(k, r, s)" rule: compose_deliver.cases)
     (auto simp: model_simps quiet_def split: option.splits)

lemma comment_deliver_safe:
  "cont_safe (KC f i k) \<Longrightarrow> resp_safe sess r \<Longrightarrow>
   \<forall>(k', cl)\<in>set (calls (comment_deliver f k r s)). cont_safe (KC f i k') \<and> call_safe sess cl"
  by (cases "(f, k, r, s)" rule: comment_deliver.cases)
     (auto simp: model_simps quiet_def split: option.splits)

lemma index_calls_safe:
  "\<forall>(k, cl)\<in>set (calls (index_deliver k r s)). call_safe sess cl"
  "\<forall>(k, cl)\<in>set (calls (handleSignOut s)). call_safe sess cl"
  using index_deliver_calls [of k r s] by (auto simp: handleSignOut_def)

subsection \<open>Each action keeps the clients safe\<close>

lemma settle_safe: "client_safe sess c \<Longrightarrow> client_safe sess (settle c)"
proof -
  assume ok: "client_safe sess c"
  obtain ds n1 where r1: "remount (mounted_slots c) (cl_dialogs c) dialog_init (cl_next_inst c) = (ds, n1)"
    by fastforce
  obtain cs n2 where r2: "remount (mounted_cards c) (cl_cards c) card_init n1 = (cs, n2)"
    by fastforce
  have "\<forall>(d, i, st)\<in>set ds. dialog_wf st"
    using ok dialog_wf_init by (intro remount_pred [where P = dialog_wf, OF _ _ r1]) (auto simp: client_safe_def)
  with ok r1 r2 show ?thesis by (simp add: client_safe_def settle_def)
qed

lemma apply_index_safe:
  "client_safe sess c \<Longrightarrow> \<forall>(k, cl)\<in>set (calls out). call_safe sess cl \<Longrightarrow>
   client_safe sess (apply_index live out c)"
  using spawn_safe [of "calls out" KI sess]
  by (auto simp: client_safe_def apply_index_def)

lemma apply_dialog_safe:
  assumes "client_safe sess c" and "dialog_wf (new_state out)"
    and "\<forall>(k, cl)\<in>set (calls out). cont_safe (KD i k) \<and> call_safe sess cl"
  shows "client_safe sess (apply_dialog i out c)"
proof -
  have "\<forall>(d, j, st)\<in>set (set_inst i (new_state out) (cl_dialogs c)). dialog_wf st"
    using assms(1,2) by (intro set_inst_pred [where P = dialog_wf]) (auto simp: client_safe_def)
  with assms spawn_safe [OF assms(3)] reload_tasks_safe [of "reload out" sess] show ?thesis
    by (auto simp: client_safe_def apply_dialog_def)
qed

lemma apply_card_safe:
  "client_safe sess c \<Longrightarrow> \<forall>(k, cl)\<in>set (calls out). cont_safe (KC f i k) \<and> call_safe sess cl \<Longrightarrow>
   client_safe sess (apply_card f i out c)"
  using spawn_safe [of "calls out" "KC f i" sess] reload_tasks_safe [of "reload out" sess]
  by (auto simp: client_safe_def apply_card_def)

lemma update_dialog_safe:
  assumes "client_safe sess c" and "update_dialog d g c = Some c'"
    and "\<And>st. dialog_wf st \<Longrightarrow> dialog_wf (g st)"
  shows "client_safe sess c'"
proof -
  from assms(2) obtain i st where m: "map_of (cl_dialogs c) d = Some (i, st)"
    and c': "c' = c\<lparr>cl_dialogs := set_inst i (g st) (cl_dialogs c)\<rparr>"
    by (auto simp: update_dialog_def split: option.splits)
  from m have "(d, i, st) \<in> set (cl_dialogs c)" by (rule map_of_SomeD)
  with assms(1,3) have "dialog_wf (g st)" by (auto simp: client_safe_def)
  with assms(1) have "\<forall>(d, j, s)\<in>set (set_inst i (g st) (cl_dialogs c)). dialog_wf s"
    by (intro set_inst_pred [where P = dialog_wf]) (auto simp: client_safe_def)
  with assms(1) c' show ?thesis by (simp add: client_safe_def)
qed

lemma update_card_safe:
  "client_safe sess c \<Longrightarrow> update_card f g c = Some c' \<Longrightarrow> client_safe sess c'"
  by (auto simp: update_card_def client_safe_def split: option.splits)

lemma ui_step_safe:
  assumes ok: "client_safe sess c" and step: "ui_step e c = Some c'"
  shows "client_safe sess c'"
proof (cases e)
  case (Submit d)
  with step obtain i st where m: "map_of (cl_dialogs c) d = Some (i, st)"
    and c': "c' = apply_dialog i (submit_form st) c"
    by (auto split: option.splits)
  from m have "(d, i, st) \<in> set (cl_dialogs c)" by (rule map_of_SomeD)
  with ok have wf: "dialog_wf st" by (auto simp: client_safe_def)
  show ?thesis unfolding c'
    by (rule apply_dialog_safe [OF ok dialog_wf_submit [OF wf] submit_form_safe [OF wf]])
next
  case (Send_comment f)
  with step obtain i st where "c' = apply_card f i (click_send f st) c"
    by (auto split: option.splits)
  with ok click_send_safe show ?thesis by (simp add: apply_card_safe)
next
  case Click_sign_out
  with step ok index_calls_safe(2) show ?thesis
    by (auto simp: apply_index_safe split: if_splits)
qed (use ok step in \<open>auto intro: update_dialog_safe [OF ok] update_card_safe [OF ok] dialog_wf_events\<close>)

lemma serve_resp_safe:
  "cl_session c \<in> {None, sess} \<Longrightarrow> resp_safe sess (fst (serve (cl_session c) cl f d))"
  by (cases cl; cases f; cases "cl_session c") (auto simp: write_result_def split: sum.splits)

lemma range_someI: "s n = Some u \<Longrightarrow> Some u \<in> range s"
  by (metis rangeI)

lemma serve_db_safe:
  "db_safe sess d \<Longrightarrow> call_safe (sess n) cl \<Longrightarrow> db_safe sess (snd (serve s cl f d))"
  by (cases cl; cases f)
     (auto simp: write_result_def insert_feedback_def insert_comment_def db_safe_def
                 feedback_row_ok_def comment_row_ok_def intro: range_someI split: sum.splits)

lemma serve_task_safe:
  assumes ok: "client_safe sess c" and sv: "serve_task i f c d = Some (c', d')"
  shows "client_safe sess c'" and "\<exists>s cl. call_safe sess cl \<and> d' = snd (serve s cl f d)"
proof -
  let ?p = "cl_pending c"
  let ?r = "\<lambda>cl. fst (serve (cl_session c) cl f d)"
  have "i < length ?p \<and> (\<exists>k cl. ?p ! i = (k, cl, None) \<and> d' = snd (serve (cl_session c) cl f d)
          \<and> cl_pending c' = ?p[i := (k, cl, Some (?r cl))] \<and> cl_dialogs c' = cl_dialogs c
          \<and> cl_session c' \<in> {None, cl_session c})"
    using sv unfolding serve_task_def by (auto split: if_splits option.splits prod.splits)
  then obtain k cl where i: "i < length ?p" and ti: "?p ! i = (k, cl, None)"
    and d': "d' = snd (serve (cl_session c) cl f d)"
    and c': "cl_pending c' = ?p[i := (k, cl, Some (?r cl))]" "cl_dialogs c' = cl_dialogs c"
            "cl_session c' \<in> {None, cl_session c}"
    by blast
  have old: "task_safe sess (k, cl, None)"
    using ok i ti nth_mem by (fastforce simp: client_safe_def)
  then show "\<exists>s cl. call_safe sess cl \<and> d' = snd (serve s cl f d)"
    using d' by (auto simp: task_safe_def)
  have sess: "cl_session c \<in> {None, sess}" using ok by (simp add: client_safe_def)
  with old have "task_safe sess (k, cl, Some (?r cl))"
    by (simp add: task_safe_def serve_resp_safe)
  moreover have "set (cl_pending c') \<subseteq> insert (k, cl, Some (?r cl)) (set ?p)"
    using c'(1) by (simp add: set_update_subset_insert)
  ultimately show "client_safe sess c'"
    using ok sess c' by (auto simp: client_safe_def)
qed

lemma deliver_safe:
  assumes ok: "client_safe sess c" and dl: "deliver i c = Some c'"
  shows "client_safe sess c'"
proof -
  let ?c1 = "c\<lparr>cl_pending := remove_at i (cl_pending c)\<rparr>"
  from dl obtain k cl r where i: "i < length (cl_pending c)" and ti: "cl_pending c ! i = (k, cl, Some r)"
    and c': "c' = run_cont k r ?c1"
    by (auto simp: deliver_def split: if_splits option.splits prod.splits)
  have "task_safe sess (k, cl, Some r)"
    using ok i ti nth_mem by (fastforce simp: client_safe_def)
  then have fit: "cont_safe k" "resp_safe sess r" by (simp_all add: task_safe_def)
  have ok1: "client_safe sess ?c1"
    using ok set_remove_at [of i "cl_pending c"] unfolding client_safe_def by auto
  show ?thesis
  proof (cases k)
    case (KI x)
    from apply_index_safe [where live = "page_live ?c1", OF ok1 index_calls_safe(1) [of x r "cl_index c" sess]] KI c'
    show ?thesis by simp
  next
    case (KD j kd)
    have "dialog_wf (inst_state (cl_dialogs ?c1) j dialog_init)"
      using ok dialog_wf_init by (intro inst_state_pred [where P = dialog_wf]) (auto simp: client_safe_def)
    from apply_dialog_safe [OF ok1 dialog_wf_deliver [OF this]
                            compose_deliver_safe [of j kd sess r]] fit KD c'
    show ?thesis by simp
  next
    case (KC f j kc)
    from apply_card_safe [OF ok1 comment_deliver_safe [of f j kc sess r]] fit KC c'
    show ?thesis by simp
  qed
qed

lemma set_client_safe:
  "\<forall>m. client_safe (sess m) (clients S m) \<Longrightarrow> client_safe (sess n) c \<Longrightarrow>
   \<forall>m. client_safe (sess m) (clients (set_client n c S) m)"
  by (simp add: set_client_def settle_safe)

lemma sys_exec_access:
  assumes inv: "access_inv sess S" and ex: "sys_exec a S = Some S'"
  shows "access_inv sess S'"
proof (cases a)
  case (UI n e)
  with ex obtain c' where u: "ui_step e (clients S n) = Some c'" and S': "S' = set_client n c' S"
    by auto
  from inv u have "client_safe (sess n) c'" by (auto simp: access_inv_def intro: ui_step_safe)
  with inv S' show ?thesis by (simp add: access_inv_def set_client_safe) (simp add: set_client_def)
next
  case (Serve n i f)
  with ex obtain c' d' where sv: "serve_task i f (clients S n) (backend S) = Some (c', d')"
    and S': "S' = set_client n c' (S\<lparr>backend := d'\<rparr>)"
    by (auto split: prod.splits)
  from inv have ok: "client_safe (sess n) (clients S n)" by (simp add: access_inv_def)
  from serve_task_safe(2) [OF ok sv] obtain s cl where "call_safe (sess n) cl"
    and "d' = snd (serve s cl f (backend S))" by blast
  with inv have "db_safe sess d'" by (simp add: access_inv_def serve_db_safe)
  with inv serve_task_safe(1) [OF ok sv] S' show ?thesis
    by (simp add: access_inv_def set_client_safe) (simp add: set_client_def)
next
  case (Deliver n i)
  with ex obtain c' where dl: "deliver i (clients S n) = Some c'" and S': "S' = set_client n c' S"
    by auto
  from inv dl have "client_safe (sess n) c'" by (auto simp: access_inv_def intro: deliver_safe)
  with inv S' show ?thesis by (simp add: access_inv_def set_client_safe) (simp add: set_client_def)
next
  case (Auth_event n)
  let ?ix = "onAuthStateChange (cl_session (clients S n)) (cl_index (clients S n))"
  from Auth_event ex have S': "S' = set_client n ((clients S n)\<lparr>cl_index := ?ix\<rparr>) S"
    by simp
  from inv have "client_safe (sess n) (clients S n)" by (simp add: access_inv_def)
  then have "client_safe (sess n) ((clients S n)\<lparr>cl_index := ?ix\<rparr>)"
    by (simp add: client_safe_def)
  with inv S' show ?thesis
    by (simp add: access_inv_def set_client_safe) (simp add: set_client_def)
next
  case (Session_lost n)
  with ex have S': "S' = set_client n ((clients S n)\<lparr>cl_session := None\<rparr>) S"
    by simp
  from inv have "client_safe (sess n) (clients S n)" by (simp add: access_inv_def)
  then have "client_safe (sess n) ((clients S n)\<lparr>cl_session := None\<rparr>)"
    by (simp add: client_safe_def)
  with inv S' show ?thesis
    by (simp add: access_inv_def set_client_safe) (simp add: set_client_def)
qed

lemma reach_access_inv: "reach (sys_start ps sess) S \<Longrightarrow> access_inv sess S"
proof (induction rule: reach.induct)
  case reach_start
  show ?case
    by (simp add: access_inv_def sys_start_def client_start_def db_safe_def db_init_def
                  client_safe_def spawn_def index_mount_def task_safe_def)
next
  case (reach_step S a S')
  from reach_step.IH reach_step.hyps(2) show ?case by (rule sys_exec_access)
qed

subsection \<open>A client that was never signed in\<close>

lemma settle_anon: "anon_client c \<Longrightarrow> anon_client (settle c)"
  by (simp add: anon_client_def settle_def mounted_slots_def mounted_cards_def page_ready_def
                index_unmount_def)

lemma ui_step_anon: "anon_client c \<Longrightarrow> ui_step e c = None"
  by (cases e) (simp_all add: anon_client_def update_dialog_def update_card_def page_ready_def)

lemma serve_task_anon:
  assumes a: "anon_client c" and sv: "serve_task i f c d = Some (c', d')"
  shows "anon_client c'"
proof -
  let ?p = "cl_pending c" and ?r = "\<lambda>cl. fst (serve (cl_session c) cl f d)"
  have "i < length ?p \<and> (\<exists>k cl. ?p ! i = (k, cl, None)
          \<and> cl_pending c' = ?p[i := (k, cl, Some (?r cl))]
          \<and> cl_session c' \<in> {None, cl_session c}
          \<and> cl_index c' = cl_index c \<and> cl_dialogs c' = cl_dialogs c \<and> cl_cards c' = cl_cards c)"
    using sv unfolding serve_task_def by (auto split: if_splits option.splits prod.splits)
  then obtain k cl where i: "i < length ?p" and ti: "?p ! i = (k, cl, None)"
    and c': "cl_pending c' = ?p[i := (k, cl, Some (?r cl))]"
            "cl_session c' \<in> {None, cl_session c}" "cl_index c' = cl_index c" "cl_dialogs c' = cl_dialogs c" "cl_cards c' = cl_cards c"
    by blast
  have "anon_task (k, cl, None)"
    using a i ti nth_mem by (fastforce simp: anon_client_def)
  with a have new: "anon_task (k, cl, Some (?r cl))" and cl: "cl = Get_session"
    by (simp_all add: anon_task_def anon_client_def)
  have "set (cl_pending c') \<subseteq> insert (k, cl, Some (?r cl)) (set ?p)"
    using c'(1) by (simp add: set_update_subset_insert)
  with a new cl c' show ?thesis
    unfolding anon_client_def by auto
qed

lemma deliver_anon:
  assumes a: "anon_client c" and dl: "deliver i c = Some c'"
  shows "anon_client c'"
proof -
  let ?c1 = "c\<lparr>cl_pending := remove_at i (cl_pending c)\<rparr>"
  from dl obtain k cl r where i: "i < length (cl_pending c)" and ti: "cl_pending c ! i = (k, cl, Some r)"
    and c': "c' = run_cont k r ?c1"
    by (auto simp: deliver_def split: if_splits option.splits prod.splits)
  have "anon_task (k, cl, Some r)"
    using a i ti nth_mem by (fastforce simp: anon_client_def)
  then have k: "k = KI K_check_session" and r: "r = Resp_session None"
    by (simp_all add: anon_task_def)
  have "anon_client ?c1"
    using a set_remove_at [of i "cl_pending c"] unfolding anon_client_def by auto
  then show ?thesis
    unfolding c' k r
    by (simp add: anon_client_def apply_index_def checkAuth_after_session_def quiet_def spawn_def)
qed

lemma set_client_anon:
  "anon_client (clients S n) \<Longrightarrow> (m = n \<Longrightarrow> anon_client c) \<Longrightarrow>
   anon_client (clients (set_client m c S) n)"
  by (simp add: set_client_def settle_anon)

lemma sys_exec_anon:
  assumes a: "anon_client (clients S n)" and ex: "sys_exec e S = Some S'"
  shows "anon_client (clients S' n)"
proof (cases e)
  case (UI m ev)
  with ex obtain c' where u: "ui_step ev (clients S m) = Some c'" and S': "S' = set_client m c' S"
    by auto
  from a u ui_step_anon have "m \<noteq> n" by auto
  with a S' show ?thesis by (simp add: set_client_anon)
next
  case (Serve m i f)
  with ex obtain c' d' where sv: "serve_task i f (clients S m) (backend S) = Some (c', d')"
    and S': "S' = set_client m c' (S\<lparr>backend := d'\<rparr>)"
    by (auto split: prod.splits)
  from a sv have m: "m = n \<Longrightarrow> anon_client c'" by (auto intro: serve_task_anon)
  from a have "anon_client (clients (S\<lparr>backend := d'\<rparr>) n)" by simp
  then show ?thesis unfolding S' using m by (rule set_client_anon)
next
  case (Deliver m i)
  with ex obtain c' where dl: "deliver i (clients S m) = Some c'" and S': "S' = set_client m c' S"
    by auto
  from a dl have "m = n \<Longrightarrow> anon_client c'" by (auto intro: deliver_anon)
  with a S' show ?thesis by (simp add: set_client_anon)
next
  case (Auth_event m)
  let ?c = "(clients S m)\<lparr>cl_index :=
              onAuthStateChange (cl_session (clients S m)) (cl_index (clients S m))\<rparr>"
  from Auth_event ex have S': "S' = set_client m ?c S" by simp
  have "m = n \<Longrightarrow> anon_client ?c"
    using a by (simp add: anon_client_def onAuthStateChange_def)
  with a show ?thesis unfolding S' by (rule set_client_anon)
next
  case (Session_lost m)
  from Session_lost ex have S': "S' = set_client m ((clients S m)\<lparr>cl_session := None\<rparr>) S"
    by simp
  have "m = n \<Longrightarrow> anon_client ((clients S m)\<lparr>cl_session := None\<rparr>)"
    using a by (simp add: anon_client_def)
  with a show ?thesis unfolding S' by (rule set_client_anon)
qed

lemma reach_anon:
  "reach (sys_start ps sess) S \<Longrightarrow> sess n = None \<Longrightarrow> anon_client (clients S n)"
proof (induction rule: reach.induct)
  case reach_start
  then show ?case
    by (simp add: anon_client_def sys_start_def client_start_def index_mount_def index_init_def
                  spawn_def anon_task_def)
next
  case (reach_step S a S')
  then show ?case by (blast intro: sys_exec_anon)
qed

end
