(* ===== verification/Card_Render.thy ===== *)
theory Card_Render
  imports Commenter
begin

text \<open>
  The render of \<open>FeedbackCard\<close> (\<open>src/components/FeedbackCard.tsx\<close>): the author's
  initials (\<open>getInitials\<close>), the category badge read from two object literals with
  a string key (so inherited members of \<open>Object.prototype\<close> are found too), the
  comment count, and the comment list when it is open. A render either produces the card's
  content or throws (\<open>render_error\<close>); the lemmas say exactly when it throws and
  relate \<open>getInitials\<close> to a plain reference definition.
\<close>

definition getInitials :: "js_string \<Rightarrow> js_string" where
  "getInitials name =
     js_slice0 (js_to_upper (js_join [] (map js_index0 (js_split 0x20 name)))) 2"

text \<open>
  A reference for the initials: the first code unit of each non-empty space-separated word,
  upper-cased, cut to two code units.
\<close>

definition initials_ref :: "js_string \<Rightarrow> js_string" where
  "initials_ref name = take 2 (js_to_upper (map hd (filter (\<lambda>w. w \<noteq> []) (js_split 0x20 name))))"

text \<open>
  Indexing an object literal with a string key: an own property, a member inherited from
  \<open>Object.prototype\<close>, or \<open>undefined\<close>.
\<close>

datatype 'v js_lookup = Own_prop 'v | Proto_member js_string | Undefined_prop

definition object_proto_names :: "js_string list" where
  "object_proto_names = map js_str
     [''constructor'', ''__defineGetter__'', ''__defineSetter__'', ''hasOwnProperty'',
      ''__lookupGetter__'', ''__lookupSetter__'', ''isPrototypeOf'',
      ''propertyIsEnumerable'', ''toString'', ''valueOf'', ''__proto__'', ''toLocaleString'']"

definition obj_lookup :: "(js_string \<times> 'v) list \<Rightarrow> js_string \<Rightarrow> 'v js_lookup" where
  "obj_lookup obj k =
     (case map_of obj k of
        Some v \<Rightarrow> Own_prop v
      | None \<Rightarrow> if k \<in> set object_proto_names then Proto_member k else Undefined_prop)"

definition categoryColors :: "(js_string \<times> js_string) list" where
  "categoryColors =
     [(js_str ''professores'', js_str ''bg-blue-500/10 text-blue-700 dark:text-blue-300''),
      (js_str ''materias'', js_str ''bg-purple-500/10 text-purple-700 dark:text-purple-300''),
      (js_str ''atividades'', js_str ''bg-green-500/10 text-green-700 dark:text-green-300''),
      (js_str ''geral'', js_str ''bg-orange-500/10 text-orange-700 dark:text-orange-300'')]"

definition categoryLabels :: "(js_string \<times> js_string) list" where
  "categoryLabels =
     [(js_str ''professores'', js_str ''Professores''),
      (js_str ''materias'', js_str ''Mat'' @ [0xE9] @ js_str ''rias''),
      (js_str ''atividades'', js_str ''Atividades''),
      (js_str ''geral'', js_str ''Geral'')]"

datatype render_error = Null_profile_access | Object_as_react_child

text \<open>
  What React does with the badge's child: a string is shown, \<open>undefined\<close> and functions
  (every inherited member but \<open>__proto__\<close>) render nothing, and \<open>Object.prototype\<close>
  (the value of \<open>__proto__\<close>) is an object, which React refuses by throwing.
\<close>

definition badge_child :: "js_string \<Rightarrow> render_error + js_string option" where
  "badge_child category =
     (case obj_lookup categoryLabels category of
        Own_prop l \<Rightarrow> Inr (Some l)
      | Undefined_prop \<Rightarrow> Inr None
      | Proto_member k \<Rightarrow> if k = js_str ''__proto__'' then Inl Object_as_react_child else Inr None)"

definition comentario_label :: "nat \<Rightarrow> js_string" where
  "comentario_label n =
     (if n = 1 then js_str ''coment'' @ [0xE1] @ js_str ''rio''
      else js_str ''coment'' @ [0xE1] @ js_str ''rios'')"

record card_view =
  cv_initials :: js_string
  cv_author :: js_string
  cv_class :: js_string
  cv_badge_class :: "js_string js_lookup"
  cv_badge :: "js_string option"
  cv_title :: js_string
  cv_content :: js_string
  cv_count :: nat
  cv_count_label :: js_string
  cv_comments :: "(js_string \<times> js_string \<times> js_string \<times> js_string) list option"

text \<open>
  Each shown comment: its author's initials, name and class, and its text. Reading
  \<open>comment.profiles.full_name\<close> of a comment whose profile is \<open>null\<close> throws.
\<close>

fun render_comments ::
  "comment_view list \<Rightarrow> render_error + (js_string \<times> js_string \<times> js_string \<times> js_string) list" where
  "render_comments [] = Inr []"
| "render_comments (c # cs) =
     (case c_profiles c of
        None \<Rightarrow> Inl Null_profile_access
      | Some p \<Rightarrow> (case render_comments cs of
                   Inl e \<Rightarrow> Inl e
                 | Inr rs \<Rightarrow> Inr ((getInitials (full_name p), full_name p, profile_class p,
                                   c_content c) # rs)))"

text \<open>
  \<open>FeedbackCardProps\<close>: what \<open>Index.tsx\<close> passes to each card. The \<open>author\<close> prop is
  the feedback's embedded \<open>profiles\<close>, which is \<open>null\<close> when no profile row matches.
  \<open>onCommentAdded\<close> is the page's reload (\<open>reload_tasks\<close>).
\<close>

record card_props =
  p_id :: row_id
  p_title :: js_string
  p_content :: js_string
  p_category :: js_string
  p_author :: "profile option"
  p_created_at :: timestamp
  p_comments :: "comment_view list"

definition card_props_of :: "feedback_view \<Rightarrow> card_props" where
  "card_props_of fv =
     \<lparr>p_id = f_id fv, p_title = f_title fv, p_content = f_content fv, p_category = f_category fv,
      p_author = f_profiles fv, p_created_at = f_created_at fv, p_comments = f_comments fv\<rparr>"

definition render_card :: "card_props \<Rightarrow> card_state \<Rightarrow> render_error + card_view" where
  "render_card p s =
     (case p_author p of
        None \<Rightarrow> Inl Null_profile_access
      | Some author \<Rightarrow>
          (case badge_child (p_category p) of
             Inl e \<Rightarrow> Inl e
           | Inr badge \<Rightarrow>
               (case (if showComments s then map_sum id Some (render_comments (p_comments p))
                      else Inr None) of
                  Inl e \<Rightarrow> Inl e
                | Inr shown \<Rightarrow>
                    Inr \<lparr>cv_initials = getInitials (full_name author),
                         cv_author = full_name author, cv_class = profile_class author,
                         cv_badge_class = obj_lookup categoryColors (p_category p),
                         cv_badge = badge, cv_title = p_title p, cv_content = p_content p,
                         cv_count = length (p_comments p),
                         cv_count_label = comentario_label (length (p_comments p)),
                         cv_comments = shown\<rparr>)))"

text \<open>
  \<open>feedbacks.map(...)\<close> of \<open>Index.tsx\<close>: one card per feedback, keyed by its id, each
  with the state React keeps for that key (a new key starts from the initial state). There
  is no error boundary: the first card that throws makes the whole list throw.
\<close>

definition card_state_for :: "(row_id \<times> nat \<times> card_state) list \<Rightarrow> row_id \<Rightarrow> card_state" where
  "card_state_for cards f = (case map_of cards f of Some (i, s) \<Rightarrow> s | None \<Rightarrow> card_init)"

fun render_feed ::
  "(row_id \<times> nat \<times> card_state) list \<Rightarrow> feedback_view list \<Rightarrow> render_error + card_view list" where
  "render_feed cards [] = Inr []"
| "render_feed cards (fv # fvs) =
     (case render_card (card_props_of fv) (card_state_for cards (f_id fv)) of
        Inl e \<Rightarrow> Inl e
      | Inr v \<Rightarrow> (case render_feed cards fvs of Inl e \<Rightarrow> Inl e | Inr vs \<Rightarrow> Inr (v # vs)))"

lemmas render_defs =
  getInitials_def obj_lookup_def object_proto_names_def categoryColors_def categoryLabels_def
  badge_child_def comentario_label_def render_card_def card_props_of_def card_state_for_def

subsection \<open>Rendering lemmas\<close>

lemma render_comments_ok:
  "(\<forall>c\<in>set cs. c_profiles c \<noteq> None) \<longleftrightarrow> (\<exists>rs. render_comments cs = Inr rs)"
  by (induction cs) (auto split: option.splits sum.splits)

lemma js_join_empty_sep: "js_join [] xs = concat (map js_elem_str xs)"
  by (induction "[] :: js_string" xs rule: js_join.induct) simp_all

lemma first_units: "concat (map (js_elem_str \<circ> js_index0) ws) = map hd (filter (\<lambda>w. w \<noteq> []) ws)"
  by (induction ws) (auto simp: js_index0_def split: list.splits)

lemma js_split_piece_subset: "w \<in> set (js_split d s) \<Longrightarrow> set w \<subseteq> set s"
  by (induction d s arbitrary: w rule: js_split.induct) (fastforce split: list.splits if_splits)+

lemma set_js_join_sep:
  "set (js_join [d] xs) \<subseteq> insert d (\<Union>x\<in>set xs. set (js_elem_str x))"
  by (induction "[d]" xs rule: js_join.induct) auto

text \<open>
  C9. \<open>getInitials\<close> is equivalent to its reference: splitting on spaces, taking
  \<open>n[0]\<close> of every piece (\<open>undefined\<close>, written as nothing by \<open>join\<close>, for the
  empty pieces that consecutive spaces make), upper-casing and slicing to two code units
  is the same as upper-casing the first unit of each non-empty word and keeping two units.
\<close>

theorem getInitials_equiv: "getInitials = initials_ref"
  by (simp add: fun_eq_iff getInitials_def initials_ref_def js_slice0_def js_join_empty_sep
                first_units)

lemma initials_ref_Nil_iff: "initials_ref name = [] \<longleftrightarrow> set name \<subseteq> {0x20}"
proof
  assume "initials_ref name = []"
  then have empty: "\<forall>w\<in>set (js_split 0x20 name). w = []"
    by (simp add: initials_ref_def filter_empty_conv)
  have "set name = set (js_join [0x20] (map Some (js_split 0x20 name)))"
    by (simp add: js_join_split)
  also have "\<dots> \<subseteq> {0x20}"
    using set_js_join_sep [where d = "0x20" and xs = "map Some (js_split 0x20 name)"] empty
    by fastforce
  finally show "set name \<subseteq> {0x20}" .
next
  assume sp: "set name \<subseteq> {0x20}"
  have "w = []" if "w \<in> set (js_split 0x20 name)" for w
    using js_split_piece_subset [OF that] js_split_pieces [OF that] sp by (cases w) auto
  then show "initials_ref name = []"
    by (simp add: initials_ref_def filter_empty_conv)
qed

text \<open>
  C10. The avatar text is at most two code units, and it is empty exactly when the author's
  name has no character other than the space (the empty name included).
\<close>

theorem getInitials_bounds:
  "length (getInitials name) \<le> 2 \<and> (getInitials name = [] \<longleftrightarrow> set name \<subseteq> {0x20})"
  by (simp add: getInitials_equiv initials_ref_Nil_iff) (simp add: initials_ref_def)

lemma badge_child_Inl_iff: "(\<exists>e. badge_child k = Inl e) \<longleftrightarrow> k = js_str ''__proto__''"
  by (auto simp: badge_child_def obj_lookup_def categoryLabels_def object_proto_names_def js_str_def
           split: js_lookup.splits if_splits)

lemma render_comments_Inl_iff:
  "(\<exists>e. render_comments cs = Inl e) \<longleftrightarrow> (\<exists>c\<in>set cs. c_profiles c = None)"
  using render_comments_ok [of cs] by (cases "render_comments cs") auto

lemma render_card_Inl_iff:
  "(\<exists>e. render_card p s = Inl e) \<longleftrightarrow>
     p_author p = None \<or> p_category p = js_str ''__proto__''
   \<or> (showComments s \<and> (\<exists>c\<in>set (p_comments p). c_profiles c = None))"
proof (cases "p_author p")
  case None
  then show ?thesis by (simp add: render_card_def)
next
  case (Some a)
  show ?thesis
  proof (cases "badge_child (p_category p)")
    case (Inl e)
    with Some badge_child_Inl_iff [of "p_category p"] show ?thesis
      by (auto simp: render_card_def)
  next
    case (Inr b)
    with badge_child_Inl_iff [of "p_category p"] have "p_category p \<noteq> js_str ''__proto__''"
      by auto
    with Some Inr render_comments_Inl_iff [of "p_comments p"] show ?thesis
      by (cases "render_comments (p_comments p)") (auto simp: render_card_def)
  qed
qed

lemma render_feed_Inl_iff:
  "(\<exists>e. render_feed cards fvs = Inl e) \<longleftrightarrow>
     (\<exists>fv\<in>set fvs. \<exists>e. render_card (card_props_of fv) (card_state_for cards (f_id fv)) = Inl e)"
proof (induction fvs)
  case Nil
  then show ?case by simp
next
  case (Cons fv fvs)
  then show ?case
    by (cases "render_card (card_props_of fv) (card_state_for cards (f_id fv))";
        cases "render_feed cards fvs") auto
qed

text \<open>
  C11. The card \<open>Index.tsx\<close> renders for a feedback throws exactly when the feedback's
  author profile is \<open>null\<close>, when its category is \<open>__proto__\<close> (whose look-up in
  \<open>categoryLabels\<close> yields \<open>Object.prototype\<close>, an object React refuses as a child), or
  when the card's comments are open and one of them has a \<open>null\<close> profile. Every other
  category, known or not, renders.
\<close>

theorem render_card_error:
  "(\<exists>e. render_card (card_props_of fv) s = Inl e) \<longleftrightarrow>
     f_profiles fv = None \<or> f_category fv = js_str ''__proto__''
   \<or> (showComments s \<and> (\<exists>c\<in>set (f_comments fv). c_profiles c = None))"
  by (simp add: render_card_Inl_iff card_props_of_def)

end
