(* ===== verification/Page_Render.thy ===== *)
theory Page_Render
  imports Feed_System Card_Render
begin

text \<open>
  What a client's feed page shows (\<open>Index.tsx\<close>, the render): the loading screen, the
  empty-feed card, or one \<open>FeedbackCard\<close> per feedback with the state React keeps for
  its key. As there is no error boundary, a card that throws takes the page with it.
\<close>

datatype page_view = Page_loading | Page_empty | Page_feed "card_view list"

definition render_page :: "client \<Rightarrow> render_error + page_view" where
  "render_page c =
     (case index_screen (cl_index c) of
        Screen_loading \<Rightarrow> Inr Page_loading
      | Screen_empty \<Rightarrow> Inr Page_empty
      | Screen_feed fs \<Rightarrow> map_sum id Page_feed (render_feed (cl_cards c) fs))"

text \<open>
  C15. One bad row blanks the page: a loaded feed page throws, showing none of its
  feedbacks, exactly when one of the feedbacks it holds has a \<open>null\<close> author profile or
  the category \<open>__proto__\<close>, or has its comments open with a comment whose profile is
  \<open>null\<close>.
\<close>

theorem page_render_error:
  "(\<exists>e. render_page c = Inl e) \<longleftrightarrow>
     \<not> ix_isLoading (cl_index c)
   \<and> (\<exists>fv\<in>set (ix_feedbacks (cl_index c)).
        f_profiles fv = None \<or> f_category fv = js_str ''__proto__''
      \<or> (showComments (card_state_for (cl_cards c) (f_id fv))
         \<and> (\<exists>cm\<in>set (f_comments fv). c_profiles cm = None)))"
proof -
  have "(\<exists>e. map_sum id Page_feed (render_feed cs fs) = Inl e) \<longleftrightarrow> (\<exists>e. render_feed cs fs = Inl e)"
    for cs fs by (cases "render_feed cs fs") auto
  then show ?thesis
    by (auto simp: render_page_def index_screen_def render_feed_Inl_iff render_card_Inl_iff
                   card_props_of_def)
qed

end
