(* ===== verification/Render_Safety.thy ===== *)
theory Render_Safety
  imports Access_Invariants Page_Render
begin

text \<open>
  When the pages render. The foreign keys of both tables to \<open>profiles\<close> let the backend
  store only rows whose author has a profile row (\<open>authors_profiled\<close>), and the composer
  sends only the empty category or one of the four (\<open>Access_Invariants\<close>), never the
  \<open>__proto__\<close> that makes a card throw. So every feed the backend returns is
  \<open>feed_renderable\<close>, and by the generic feed invariant \<open>client_feeds\<close> so is every
  feed any client holds.
\<close>

definition feed_renderable :: "feedback_view list \<Rightarrow> bool" where
  "feed_renderable xs \<longleftrightarrow>
     (\<forall>fv\<in>set xs. f_profiles fv \<noteq> None \<and> f_category fv \<in> set ([] # category_values)
                  \<and> (\<forall>cm\<in>set (f_comments fv). c_profiles cm \<noteq> None))"

definition authors_profiled :: "db \<Rightarrow> bool" where
  "authors_profiled d \<longleftrightarrow>
     (\<forall>r\<in>set (feedback_tbl d). profiles d (fb_user r) \<noteq> None)
   \<and> (\<forall>r\<in>set (comments_tbl d). profiles d (cm_user r) \<noteq> None)"

lemma serve_authors_profiled:
  "authors_profiled d \<Longrightarrow> serve s cl f d = (r, d') \<Longrightarrow> authors_profiled d'"
  by (cases cl; cases f)
     (auto simp: authors_profiled_def write_result_def insert_feedback_def insert_comment_def
           split: sum.splits if_splits)

lemma reach_authors_profiled: "reach (sys_start ps sess) S \<Longrightarrow> authors_profiled (backend S)"
proof (induction rule: reach.induct)
  case reach_start
  show ?case by (simp add: authors_profiled_def sys_start_def db_init_def)
next
  case (reach_step S a S')
  from sys_exec_backend [OF reach_step.hyps(2)] reach_step.IH show ?case
    by (auto dest: serve_authors_profiled)
qed

lemma query_feed_renderable:
  "db_safe sess d \<Longrightarrow> authors_profiled d \<Longrightarrow> feed_renderable (query_feed d)"
  by (auto simp: feed_renderable_def query_feed_def feedback_join_def comment_join_def db_safe_def
                 feedback_row_ok_def authors_profiled_def)

lemma reach_renderable:
  "reach (sys_start ps sess) S \<Longrightarrow> \<forall>m. client_feeds feed_renderable (clients S m)"
proof (induction rule: reach.induct)
  case reach_start
  show ?case by (simp add: sys_start_def client_feeds_start feed_renderable_def)
next
  case (reach_step S a S')
  have "db_safe sess (backend S)"
    using reach_access_inv [OF reach_step.hyps(1)] by (simp add: access_inv_def)
  then have "feed_renderable (query_feed (backend S))"
    using reach_authors_profiled [OF reach_step.hyps(1)] by (rule query_feed_renderable)
  from reach_step.IH this reach_step.hyps(2) show ?case
    by (rule sys_exec_feeds [where P = feed_renderable])
qed

lemma proto_not_category: "js_str ''__proto__'' \<notin> set ([] # category_values)"
  by (simp add: category_values_def js_str_def)

text \<open>
  C16. No feed page ever throws: in every reachable state, whatever the interleaving of the
  clients' requests, each client's page renders (loading, empty, or every card).
\<close>

theorem pages_render:
  assumes "reach (sys_start ps sess) S"
  shows "\<exists>v. render_page (clients S n) = Inr v"
proof -
  from reach_renderable [OF assms] have ok: "feed_renderable (ix_feedbacks (cl_index (clients S n)))"
    by (simp add: client_feeds_def)
  have "\<not> (\<exists>e. render_feed (cl_cards (clients S n)) (ix_feedbacks (cl_index (clients S n))) = Inl e)"
    using ok proto_not_category
    by (auto simp: render_feed_Inl_iff render_card_Inl_iff card_props_of_def feed_renderable_def)
  then show ?thesis
    by (cases "render_feed (cl_cards (clients S n)) (ix_feedbacks (cl_index (clients S n)))")
       (auto simp: render_page_def index_screen_def)
qed

end
