(* ===== verification/Liveness.thy ===== *)
theory Liveness
  imports System_Invariants
begin

text \<open>
  Progress of a client's requests. Every handler chain of the code is finite:
  \<open>getSession\<close> may lead to the feed query, \<open>getUser\<close> to an insert, an insert to a
  reload, and a reload, \<open>signOut\<close> or \<open>checkAuth\<close>'s query to nothing. \<open>cont_rank\<close>
  counts the requests a continuation may still cause, and \<open>client_weight\<close> sums twice
  the rank of each request in flight, less one once it is answered. Serving the first
  request or delivering its answer lowers the weight, so a network that answers and
  delivers in order empties the client's queue; by the busy-flag invariant every
  \<open>isSubmitting\<close> flag is then clear.
\<close>

fun cont_rank :: "cont \<Rightarrow> nat" where
  "cont_rank (KI K_check_session) = 2"
| "cont_rank (KI k) = 1"
| "cont_rank (KD i (K_compose_user t x k)) = 3"
| "cont_rank (KD i K_compose_insert) = 2"
| "cont_rank (KC f i (K_comment_user x)) = 3"
| "cont_rank (KC f i K_comment_insert) = 2"

definition task_weight :: "task \<Rightarrow> nat" where
  "task_weight t = 2 * cont_rank (fst t) - (if snd (snd t) = None then 0 else 1)"

definition client_weight :: "client \<Rightarrow> nat" where
  "client_weight c = sum_list (map task_weight (cl_pending c))"

text \<open>The action that serves the first request of client \<open>n\<close>, or delivers its answer.\<close>

definition drain_step :: "nat \<Rightarrow> client \<Rightarrow> action" where
  "drain_step n c = (if snd (snd (hd (cl_pending c))) = None then Serve n 0 No_fault else Deliver n 0)"

definition calls_weight :: "('k \<Rightarrow> cont) \<Rightarrow> ('k \<times> call) list \<Rightarrow> nat" where
  "calls_weight tag cs = sum_list (map (\<lambda>(k, c). 2 * cont_rank (tag k)) cs)"

subsection \<open>Each handler causes fewer requests than its continuation's rank\<close>

lemma cont_rank_pos: "0 < cont_rank k"
  by (cases k rule: cont_rank.cases) simp_all

lemma weight_spawn [simp]: "sum_list (map task_weight (spawn tag cs)) = calls_weight tag cs"
  by (induction cs) (auto simp: spawn_def task_weight_def calls_weight_def)

lemma weight_reload_tasks [simp]:
  "sum_list (map task_weight (reload_tasks b)) = (if b then 2 else 0)"
  by (simp add: reload_tasks_def task_weight_def)

lemma index_deliver_weight:
  "calls_weight KI (calls (index_deliver k r s)) + 2 \<le> 2 * cont_rank (KI k)"
  using cont_rank_pos [of "KI k"]
  by (cases "(k, r, s)" rule: index_deliver.cases)
     (auto simp: model_simps calls_weight_def Let_def split: option.splits sum.splits)

lemma compose_deliver_weight:
  "calls_weight (KD i) (calls (compose_deliver k r s)) + (if reload (compose_deliver k r s) then 2 else 0) + 2
     \<le> 2 * cont_rank (KD i k)"
  using cont_rank_pos [of "KD i k"]
  by (cases "(k, r, s)" rule: compose_deliver.cases)
     (auto simp: model_simps calls_weight_def split: option.splits)

lemma comment_deliver_weight:
  "calls_weight (KC f i) (calls (comment_deliver f k r s)) + (if reload (comment_deliver f k r s) then 2 else 0) + 2
     \<le> 2 * cont_rank (KC f i k)"
  using cont_rank_pos [of "KC f i k"]
  by (cases "(f, k, r, s)" rule: comment_deliver.cases)
     (auto simp: model_simps calls_weight_def split: option.splits)

lemma run_cont_weight:
  "client_weight (run_cont k r c) + 2 \<le> client_weight c + 2 * cont_rank k"
proof (cases k)
  case (KI x)
  with index_deliver_weight [of x r "cl_index c"] show ?thesis
    by (simp add: client_weight_def apply_index_def)
next
  case (KD i x)
  with compose_deliver_weight [of i x r "inst_state (cl_dialogs c) i dialog_init"] show ?thesis
    by (simp add: client_weight_def apply_dialog_def)
next
  case (KC f i x)
  with comment_deliver_weight [of f i x r "inst_state (cl_cards c) i card_init"] show ?thesis
    by (simp add: client_weight_def apply_card_def)
qed

subsection \<open>Draining a client's queue\<close>

lemma client_weight_settle [simp]: "client_weight (settle c) = client_weight c"
  by (simp add: client_weight_def)

lemma clients_set_client_same [simp]: "clients (set_client n c S) n = settle c"
  by (simp add: set_client_def)

lemma drain_step_weight:
  assumes ne: "cl_pending (clients S n) \<noteq> []"
  shows "\<exists>S'. sys_exec (drain_step n (clients S n)) S = Some S'
              \<and> client_weight (clients S' n) < client_weight (clients S n)"
proof -
  let ?c = "clients S n"
  from ne obtain k cl x ts where p: "cl_pending ?c = (k, cl, x) # ts"
    by (cases "cl_pending ?c") auto
  have pos: "0 < cont_rank k" by (rule cont_rank_pos)
  show ?thesis
  proof (cases x)
    case None
    obtain r d' where sv: "serve (cl_session ?c) cl No_fault (backend S) = (r, d')" by fastforce
    let ?c' = "?c\<lparr>cl_pending := (k, cl, Some r) # ts,
                   cl_session := (if cl = Sign_out then None else cl_session ?c)\<rparr>"
    have "serve_task 0 No_fault ?c (backend S) = Some (?c', d')"
      using p None sv by (simp add: serve_task_def)
    then have "sys_exec (drain_step n ?c) S = Some (set_client n ?c' (S\<lparr>backend := d'\<rparr>))"
      using p None by (simp add: drain_step_def)
    moreover have "client_weight (clients (set_client n ?c' (S\<lparr>backend := d'\<rparr>)) n) < client_weight ?c"
      using p None pos by (simp add: client_weight_def task_weight_def)
    ultimately show ?thesis by blast
  next
    case (Some r)
    let ?c1 = "?c\<lparr>cl_pending := ts\<rparr>"
    have "deliver 0 ?c = Some (run_cont k r ?c1)"
      using p Some by (simp add: deliver_def remove_at_def)
    then have "sys_exec (drain_step n ?c) S = Some (set_client n (run_cont k r ?c1) S)"
      using p Some by (simp add: drain_step_def)
    moreover have "client_weight (clients (set_client n (run_cont k r ?c1) S) n) < client_weight ?c"
      using run_cont_weight [of k r ?c1] p Some pos
      by (simp add: client_weight_def task_weight_def)
    ultimately show ?thesis by blast
  qed
qed

lemma drain:
  "\<exists>acts S'. set acts \<subseteq> {Serve n 0 No_fault, Deliver n 0} \<and> sys_run acts S = Some S'
             \<and> cl_pending (clients S' n) = []"
proof (induction "client_weight (clients S n)" arbitrary: S rule: less_induct)
  case less
  show ?case
  proof (cases "cl_pending (clients S n) = []")
    case True
    then show ?thesis by (intro exI [of _ "[]"]) simp
  next
    case False
    from drain_step_weight [OF False] obtain S1
      where ex: "sys_exec (drain_step n (clients S n)) S = Some S1"
        and lt: "client_weight (clients S1 n) < client_weight (clients S n)"
      by blast
    from less [OF lt] obtain acts S' where "set acts \<subseteq> {Serve n 0 No_fault, Deliver n 0}"
      and "sys_run acts S1 = Some S'" and "cl_pending (clients S' n) = []"
      by blast
    with ex show ?thesis
      by (intro exI [of _ "drain_step n (clients S n) # acts"] exI [of _ S'])
         (simp add: drain_step_def)
  qed
qed

end
