(* ===== verification/Writer_Spec.thy ===== *)
theory Writer_Spec
  imports Feed_System
begin

text \<open>
  The writers' contract. The spec gives both writers, the composer
  (\<open>NewFeedbackDialog.tsx\<close>) and the commenter (\<open>FeedbackCard.tsx\<close>), one state
  machine: Idle, Submitting, and back to Idle on success (inputs cleared, reload) or on
  failure (inputs kept, one notification); an unauthenticated writer writes nothing and
  shows the unauthenticated notice; a second submit while one is in flight does nothing.
  \<open>writer_spec\<close> is that machine over an abstract writer (busy flag and input), and
  \<open>observe\<close> reads a handler's outcome at that level: the writer's busy flag and inputs,
  the kind of notification, the kinds of request issued, and whether the reload ran.
  Each writer refines the machine on every branch of its handlers.
\<close>

record 'i writer =
  w_busy :: bool
  w_input :: 'i

datatype notice = No_notice | Unauthenticated | Write_failed | Write_ok | Other_notice

datatype request = Identity | Write | Other_request

datatype writer_event = Submit_pressed bool | Got_user "uid option" | Write_done "backend_error option"

fun request_of :: "call \<Rightarrow> request" where
  "request_of Get_user = Identity"
| "request_of (Insert_feedback u k t x) = Write"
| "request_of (Insert_comment f u x) = Write"
| "request_of c = Other_request"

fun notice_of :: "toast list \<Rightarrow> notice" where
  "notice_of [] = No_notice"
| "notice_of [Toast_error m] =
     (if m = Voce_precisa_estar_logado \<or> m = Voce_precisa_estar_logado_para_comentar
      then Unauthenticated else Write_failed)"
| "notice_of [Toast_success m] = Write_ok"
| "notice_of ts = Other_notice"

text \<open>
  The abstract machine; \<open>e0\<close> is the cleared input, and \<open>Submit_pressed ok\<close> is a
  submission whose input passes the writer's own checks when \<open>ok\<close>.
\<close>

fun writer_spec ::
  "'i \<Rightarrow> writer_event \<Rightarrow> 'i writer \<Rightarrow> 'i writer \<times> notice \<times> request list \<times> bool" where
  "writer_spec e0 (Submit_pressed ok) w =
     (if w_busy w \<or> \<not> ok then (w, No_notice, [], False)
      else (w\<lparr>w_busy := True\<rparr>, No_notice, [Identity], False))"
| "writer_spec e0 (Got_user None) w = (w\<lparr>w_busy := False\<rparr>, Unauthenticated, [], False)"
| "writer_spec e0 (Got_user (Some u)) w = (w, No_notice, [Write], False)"
| "writer_spec e0 (Write_done None) w = (\<lparr>w_busy = False, w_input = e0\<rparr>, Write_ok, [], True)"
| "writer_spec e0 (Write_done (Some e)) w = (w\<lparr>w_busy := False\<rparr>, Write_failed, [], False)"

definition observe ::
  "('s \<Rightarrow> 'i writer) \<Rightarrow> ('s, 'k) outcome \<Rightarrow> 'i writer \<times> notice \<times> request list \<times> bool" where
  "observe ab out = (ab (new_state out), notice_of (toasts out), map (request_of \<circ> snd) (calls out), reload out)"

definition dialog_writer :: "dialog_state \<Rightarrow> (js_string \<times> js_string \<times> js_string) writer" where
  "dialog_writer s = \<lparr>w_busy = dlg_isSubmitting s, w_input = (dlg_category s, dlg_title s, dlg_content s)\<rparr>"

definition card_writer :: "card_state \<Rightarrow> js_string writer" where
  "card_writer s = \<lparr>w_busy = isSubmitting s, w_input = newComment s\<rparr>"

text \<open>
  C18. The composer implements the writers' state machine: pressing submit, the answer to
  \<open>getUser\<close> and the answer to the insert each act on the busy flag, the form's inputs, the
  notification, the requests issued and the reload exactly as the abstract machine does
  (an open dialog with title and content filled is a submission that passes the checks; the
  select does not block an empty category).
\<close>

theorem composer_refines_writer_spec:
  "observe dialog_writer (submit_form s)
     = writer_spec ([], [], []) (Submit_pressed (dlg_open s \<and> form_valid s)) (dialog_writer s)
   \<and> observe dialog_writer (compose_deliver (K_compose_user t x k) (Resp_user u) s)
     = writer_spec ([], [], []) (Got_user u) (dialog_writer s)
   \<and> observe dialog_writer (compose_deliver K_compose_insert (Resp_done err) s)
     = writer_spec ([], [], []) (Write_done err) (dialog_writer s)"
  by (auto simp: submit_form_def handleSubmit_def compose_after_user_def compose_after_insert_def
                 observe_def dialog_writer_def quiet_def split: option.splits)

text \<open>
  C19. The commenter implements the same machine: a click on send with the comments shown
  and a non-blank comment starts a submission unless one is in flight, and the answers to
  \<open>getUser\<close> and to the insert act as the abstract machine does, the comment text being
  the writer's input.
\<close>

theorem commenter_refines_writer_spec:
  "observe card_writer (click_send fid s)
     = writer_spec [] (Submit_pressed (showComments s \<and> js_trim (newComment s) \<noteq> [])) (card_writer s)
   \<and> observe card_writer (comment_deliver fid (K_comment_user x) (Resp_user u) s)
     = writer_spec [] (Got_user u) (card_writer s)
   \<and> observe card_writer (comment_deliver fid K_comment_insert (Resp_done err) s)
     = writer_spec [] (Write_done err) (card_writer s)"
  by (auto simp: click_send_def send_disabled_def handleSubmitComment_def comment_after_user_def
                 comment_after_insert_def observe_def card_writer_def quiet_def split: option.splits)

text \<open>
  C20. A blank comment never reaches the backend: pressing send on a mounted card whose
  comment is empty or whitespace only is accepted by the page but issues no request,
  shows no toast and leaves the tables unchanged.
\<close>

theorem blank_comment_no_request:
  assumes card: "map_of (cl_cards (clients S n)) f = Some (i, st)"
    and blank: "js_trim (newComment st) = []"
  shows "\<exists>S'. sys_exec (UI n (Send_comment f)) S = Some S' \<and> backend S' = backend S
              \<and> cl_pending (clients S' n) = cl_pending (clients S n)
              \<and> cl_shown (clients S' n) = cl_shown (clients S n)"
proof -
  from blank have "click_send f st = quiet st" by (simp add: click_send_quiet)
  with card show ?thesis
    by (simp add: apply_card_def quiet_def spawn_def reload_tasks_def set_client_def settle_def
                  split: prod.splits)
qed

end
