(* ===== verification/Teardown.thy ===== *)
theory Teardown
  imports Feed_System
begin

text \<open>
  Leaving the feed page (\<open>Index.tsx\<close>). When \<open>navigate("/auth")\<close> runs, after a
  sign-out or a lost session, the router unmounts the page: the effect's cleanup
  unsubscribes from \<open>onAuthStateChange\<close> and the dialogs and cards go with it.
  \<open>page_gone c\<close> is that state of a client whose route is \<open>/auth\<close>. Nothing brings the
  page back, and no later action changes what the torn-down page holds; responses that
  arrive late still run the rest of their handlers (toasts, the reload callback), which
  the root theory shows on a concrete run.
\<close>

definition page_gone :: "client \<Rightarrow> bool" where
  "page_gone c \<longleftrightarrow>
     ix_route (cl_index c) = Route_auth
     \<longrightarrow> \<not> ix_subscribed (cl_index c) \<and> cl_dialogs c = [] \<and> cl_cards c = []"

lemma settle_page_gone: "page_gone (settle c)"
  by (simp add: page_gone_def settle_def page_live_def page_ready_def mounted_slots_def
                mounted_cards_def index_unmount_def split: prod.splits)

lemma sys_exec_clients:
  "sys_exec a S = Some S' \<Longrightarrow> \<exists>n c. clients S' = (clients S)(n := settle c)"
  by (cases a) (fastforce simp: set_client_def split: option.splits prod.splits)+

lemma serve_task_view:
  "serve_task i f c d = Some (c', d') \<Longrightarrow>
   cl_index c' = cl_index c \<and> cl_dialogs c' = cl_dialogs c \<and> cl_cards c' = cl_cards c"
  by (auto simp: serve_task_def split: if_splits option.splits prod.splits)

lemma deliver_view:
  "deliver i c = Some c' \<Longrightarrow> \<exists>k r. c' = run_cont k r (c\<lparr>cl_pending := remove_at i (cl_pending c)\<rparr>)"
  by (auto simp: deliver_def split: if_splits prod.splits option.splits)

lemma reach_page_gone: "reach (sys_start ps sess) S \<Longrightarrow> page_gone (clients S n)"
proof (induction arbitrary: n rule: reach.induct)
  case reach_start
  show ?case by (simp add: page_gone_def sys_start_def client_start_def index_mount_def index_init_def)
next
  case (reach_step S a S')
  from sys_exec_clients [OF reach_step.hyps(2)] obtain m c where "clients S' = (clients S)(m := settle c)"
    by blast
  with reach_step.IH settle_page_gone show ?case by simp
qed

text \<open>On a torn-down page every handler that could touch the page's state finds nothing.\<close>

lemma gone_ui_step:
  "page_gone c \<Longrightarrow> ix_route (cl_index c) = Route_auth \<Longrightarrow> ui_step e c = None"
  by (cases e) (simp_all add: page_gone_def update_dialog_def update_card_def page_ready_def page_live_def)

lemma gone_settle:
  "page_gone c \<Longrightarrow> ix_route (cl_index c) = Route_auth \<Longrightarrow> settle c = c"
  by (simp add: page_gone_def settle_def page_live_def page_ready_def mounted_slots_def
                mounted_cards_def index_unmount_def split: prod.splits)

lemma gone_run_cont:
  assumes "page_gone c" and "ix_route (cl_index c) = Route_auth"
  shows "cl_index (run_cont k r c) = cl_index c \<and> cl_dialogs (run_cont k r c) = []
         \<and> cl_cards (run_cont k r c) = []"
  using assms by (cases k) (simp_all add: page_gone_def apply_index_def apply_dialog_def
                                          apply_card_def set_inst_def page_live_def)

text \<open>
  C21. Leaving the page is final and the cleanup is complete: once a client's route is
  \<open>/auth\<close>, in every reachable state, no action (a UI event, a request served, a late
  response delivered, an auth event, a lost session) changes the page's state, remounts a
  dialog or a card, or brings back the auth subscription.
\<close>

theorem left_page_frozen:
  assumes r: "reach (sys_start ps sess) S" and auth: "ix_route (cl_index (clients S n)) = Route_auth"
    and ex: "sys_exec a S = Some S'"
  shows "cl_index (clients S' n) = cl_index (clients S n) \<and> cl_dialogs (clients S' n) = []
         \<and> cl_cards (clients S' n) = [] \<and> \<not> ix_subscribed (cl_index (clients S' n))"
proof -
  let ?c = "clients S n"
  have gone: "page_gone ?c" by (rule reach_page_gone [OF r])
  then have sub: "\<not> ix_subscribed (cl_index ?c)" and old: "cl_dialogs ?c = []" "cl_cards ?c = []"
    using auth by (simp_all add: page_gone_def)
  have keep: "cl_index (settle c') = cl_index ?c \<and> cl_dialogs (settle c') = [] \<and> cl_cards (settle c') = []"
    if "cl_index c' = cl_index ?c" "cl_dialogs c' = []" "cl_cards c' = []" for c'
  proof -
    have "page_gone c'" using that sub by (simp add: page_gone_def)
    with that auth show ?thesis by (simp add: gone_settle)
  qed
  have step: "clients S' n = ?c \<or> (\<exists>c'. clients S' n = settle c' \<and> cl_index c' = cl_index ?c
                                         \<and> cl_dialogs c' = [] \<and> cl_cards c' = [])"
  proof (cases a)
    case (UI m e)
    with ex obtain c' where u: "ui_step e (clients S m) = Some c'" and S': "S' = set_client m c' S"
      by auto
    from u gone_ui_step [OF gone auth] have "m \<noteq> n" by auto
    with S' show ?thesis by (simp add: set_client_def)
  next
    case (Serve m i f)
    with ex obtain c' d' where sv: "serve_task i f (clients S m) (backend S) = Some (c', d')"
      and S': "S' = set_client m c' (S\<lparr>backend := d'\<rparr>)"
      by (auto split: prod.splits)
    show ?thesis
    proof (cases "m = n")
      case True
      with sv S' serve_task_view [OF sv] old show ?thesis
        by (intro disjI2 exI [of _ c']) (simp add: set_client_def)
    qed (use S' in \<open>simp add: set_client_def\<close>)
  next
    case (Deliver m i)
    with ex obtain c' where dl: "deliver i (clients S m) = Some c'" and S': "S' = set_client m c' S"
      by auto
    show ?thesis
    proof (cases "m = n")
      case True
      from deliver_view [OF dl] obtain k r
        where c': "c' = run_cont k r (?c\<lparr>cl_pending := remove_at i (cl_pending ?c)\<rparr>)"
        using True by blast
      have "page_gone (?c\<lparr>cl_pending := remove_at i (cl_pending ?c)\<rparr>)"
        using gone by (simp add: page_gone_def)
      from gone_run_cont [OF this] auth c' True S' show ?thesis
        by (intro disjI2 exI [of _ c']) (simp add: set_client_def)
    qed (use S' in \<open>simp add: set_client_def\<close>)
  next
    case (Auth_event m)
    have same: "onAuthStateChange (cl_session ?c) (cl_index ?c) = cl_index ?c"
      using sub by (simp add: onAuthStateChange_def)
    from ex Auth_event have S': "S' = set_client m ((clients S m)\<lparr>cl_index :=
        onAuthStateChange (cl_session (clients S m)) (cl_index (clients S m))\<rparr>) S" by simp
    show ?thesis
    proof (cases "m = n")
      case True
      from S' True same old show ?thesis
        by (intro disjI2 exI [of _ "?c\<lparr>cl_index := cl_index ?c\<rparr>"]) (simp add: set_client_def)
    qed (use S' in \<open>simp add: set_client_def\<close>)
  next
    case (Session_lost m)
    from ex Session_lost have S': "S' = set_client m ((clients S m)\<lparr>cl_session := None\<rparr>) S" by simp
    show ?thesis
    proof (cases "m = n")
      case True
      from S' True old show ?thesis
        by (intro disjI2 exI [of _ "?c\<lparr>cl_session := None\<rparr>"]) (simp add: set_client_def)
    qed (use S' in \<open>simp add: set_client_def\<close>)
  qed
  then have "cl_index (clients S' n) = cl_index ?c \<and> cl_dialogs (clients S' n) = [] \<and> cl_cards (clients S' n) = []"
  proof
    assume "clients S' n = ?c"
    with old show ?thesis by simp
  next
    assume "\<exists>c'. clients S' n = settle c' \<and> cl_index c' = cl_index ?c \<and> cl_dialogs c' = [] \<and> cl_cards c' = []"
    then obtain c' where "clients S' n = settle c'" and "cl_index c' = cl_index ?c"
      and "cl_dialogs c' = []" and "cl_cards c' = []" by blast
    with keep [of c'] show ?thesis by simp
  qed
  with sub show ?thesis by simp
qed

text \<open>
  C22. A write's completion outlives the page: in every reachable state in which a
  client's page has gone to \<open>/auth\<close>, so that no card is mounted, the answer to a
  successful comment insert still runs the rest of \<open>handleSubmitComment\<close>: the client
  shows ``Coment\'ario enviado!'' and \<open>onCommentAdded\<close> runs the dead page's
  \<open>loadFeedbacks\<close>, which sends a full feed query. The spec leaves such unguarded
  completions open (\<open>spec.md\<close> section 9).
\<close>

theorem late_comment_still_runs:
  assumes r: "reach (sys_start ps sess) S" and auth: "ix_route (cl_index (clients S n)) = Route_auth"
    and i: "i < length (cl_pending (clients S n))"
    and t: "cl_pending (clients S n) ! i = (KC f j K_comment_insert, cl, Some (Resp_done None))"
  shows "cl_cards (clients S n) = []
         \<and> (\<exists>S'. sys_exec (Deliver n i) S = Some S'
               \<and> cl_shown (clients S' n) = cl_shown (clients S n) @ [Toast_success Comentario_enviado]
               \<and> cl_pending (clients S' n)
                 = remove_at i (cl_pending (clients S n)) @ [(KI K_reload, Query_feed, None)])"
proof -
  have "cl_cards (clients S n) = []"
    using reach_page_gone [OF r, of n] auth by (simp add: page_gone_def)
  moreover have "\<exists>S'. sys_exec (Deliver n i) S = Some S'
               \<and> cl_shown (clients S' n) = cl_shown (clients S n) @ [Toast_success Comentario_enviado]
               \<and> cl_pending (clients S' n)
                 = remove_at i (cl_pending (clients S n)) @ [(KI K_reload, Query_feed, None)]"
    using i t
    by (simp add: deliver_def apply_card_def comment_after_insert_def spawn_def reload_tasks_def
                  set_client_def settle_def split: prod.splits)
  ultimately show ?thesis by blast
qed

end
