(* ===== verification/Spec2Isabelle.thy ===== *)
theory Spec2Isabelle
  imports Render_Safety Liveness Writer_Spec Teardown
begin

text \<open>
  \<^bold>\<open>GCTalk feedback feed: a verification development.\<close>

  The program (\<open>feedback-festa-main/src/\<close> under \<open>src/\<close>) is a React page over a
  hosted database. \<open>pages/Index.tsx\<close> checks the session, loads the whole feed
  (feedbacks with author profile and comments, newest first) and renders a card per
  feedback and the composer dialog; \<open>components/NewFeedbackDialog.tsx\<close> publishes a
  feedback; \<open>components/FeedbackCard.tsx\<close> renders one feedback and publishes comments.
  The components talk to the backend only through \<open>getSession\<close>, \<open>getUser\<close>, the feed
  query, two inserts and \<open>signOut\<close>, and to each other only through the reload callbacks
  \<open>onFeedbackAdded\<close>/\<open>onCommentAdded\<close>, which run the page's \<open>loadFeedbacks\<close>.

  \<^bold>\<open>Theories.\<close>
  \<^item> \<open>JS_Prelude\<close>: strings as UTF-16 code units (\<open>16 word list\<close>) and the built-ins
    the code calls (\<open>trim\<close>, \<open>split\<close>, \<open>n[0]\<close>, \<open>join\<close>, \<open>toUpperCase\<close>,
    \<open>slice\<close>), with the split/join round trip.
  \<^item> \<open>Backend\<close>: the three tables as a record \<open>db\<close> with an id counter and a clock, the
    nested select \<open>query_feed\<close> (\<open>Index.tsx\<close> 66--78) with its order, the two inserts
    (the comment's foreign keys included), well-formedness \<open>db_wf\<close>, and the effect of a
    write on the feed (C7, C8). The embedded comments carry no order in the code; the
    model returns them in table order, and C8 is stated on their multisets. The backend is
    not in the repository; it is modelled from the spec and from what the query needs
    (the foreign keys to \<open>profiles\<close> that its embeds follow).
  \<^item> \<open>Interface\<close>: the calls, responses, toasts and network faults the components and the
    backend agree on, and \<open>serve\<close>, the backend's answer to a call. A handler is cut at
    each \<open>await\<close>; each piece returns an \<open>outcome\<close> (new state, calls issued, toasts,
    whether the reload callback ran).
  \<^item> \<open>Feed_Loader\<close> (\<open>Index.tsx\<close>): the mount effect, \<open>checkAuth\<close>, \<open>loadFeedbacks\<close>,
    the auth subscription, \<open>handleSignOut\<close> and the screen rendered.
  \<^item> \<open>Composer\<close> (\<open>NewFeedbackDialog.tsx\<close>): \<open>handleSubmit\<close> in three pieces, the
    open/close, select and input events, the required-field validation (title and content;
    the select's \<open>required\<close> does not block an empty category), and the render.
  \<^item> \<open>Commenter\<close> and \<open>Card_Render\<close> (\<open>FeedbackCard.tsx\<close>): \<open>handleSubmitComment\<close>
    in three pieces, the send button's guard, and the card render: \<open>getInitials\<close>,
    category look-ups with the prototype chain, the comment list. \<open>Card_Render\<close> proves
    \<open>getInitials\<close> equal to a reference (C9), its bounds (C10), and exactly when the
    render throws (C11).
  \<^item> \<open>Feed_System\<close>: the running application. Several browser clients share one backend;
    each holds its session, page state, the mounted dialogs and cards (association lists
    keyed as React keys them, with fresh instance numbers so a response to an unmounted
    instance changes nothing), its requests in flight and the toasts shown. Actions are
    UI events, serving a request (with a fault), delivering a response, an auth event and
    a lost session, in any interleaving; \<open>sys_exec\<close>/\<open>sys_run\<close> execute them and
    \<open>reach\<close> is the reachable set.
  \<^item> \<open>System_Invariants\<close>: the busy-flag invariant (one request in flight per writer
    exactly while its \<open>isSubmitting\<close> is set) and \<open>client_feeds P\<close>, which carries any
    property \<open>P\<close> of the backend's feed to every feed a client holds; the newest-first
    order is its first instance. Each is proved per action and lifted by rule induction on
    \<open>reach\<close>.
  \<^item> \<open>Access_Invariants\<close>: what may be written (authenticated author, the empty category
    or one of the four, non-empty fields, non-blank comments) and what a signed-out client
    does.
  \<^item> \<open>Liveness\<close>: a weight on the requests in flight that serving or delivering the first
    one lowers, so a client's queue always drains (C13).
  \<^item> \<open>Page_Render\<close>: the feed page as \<open>Index.tsx\<close> renders it, one card per feedback
    with the props \<open>Index.tsx\<close> passes (\<open>card_props_of\<close>) and the state React keeps
    per key; with no error boundary, one card that throws blanks the page (C15).
  \<^item> \<open>Render_Safety\<close>: every stored author has a profile row and no stored category is
    \<open>__proto__\<close>, so no page ever throws (C16), by the generic feed invariant of
    \<open>System_Invariants\<close>.
  \<^item> \<open>Writer_Spec\<close>: the spec's writer state machine (Idle, Submitting, back to Idle on
    success with the inputs cleared or on failure with them kept; unauthenticated means no
    write) over an abstract writer, and its refinement by the composer (C18) and by the
    commenter (C19) on every branch; a blank comment issues no request (C20).
  \<^item> \<open>Teardown\<close>: the page leaving for \<open>/auth\<close>. The effect's cleanup unsubscribes, the
    dialogs and cards unmount, and no later action changes the torn-down page (C21); the
    rest of a handler whose answer arrives late still runs (C22).
  \<^item> This theory: concrete two-browser runs (evaluated by \<open>code_simp\<close>), the claims that
    span components (C1--C6, C12--C14, C17) and the witnesses of all claims. The runs of
    the spec's scenarios A and B, of a lost response and of two reloads delivered out of
    order are lemmas that test the model and back the findings.

  \<^bold>\<open>Results.\<close> Writers never have two submissions in flight (C1); every feed a page holds
  is newest first (C2); a client without a session sends no feed query or write (C3);
  stored rows are authored, have non-empty fields and a category that is empty or one of
  the four, and stored comments are non-blank (C4--C6); a write's effect on the feed is the
  abstract one (C7, C8); an open composer's button shows whether a submission is in
  flight (C12); every request chain ends and releases the busy flags (C13); a reload keeps
  the state of the cards still listed (C14); no page ever throws (C16); both writers
  implement the spec's writer state machine (C18, C19) and a blank comment never reaches
  the backend (C20); leaving the page is final and releases the auth subscription (C21).
  Findings: a lost response invites a duplicate write (lemma \<open>lost_response_duplicate\<close>);
  reloads are applied in arrival order, so a page can end stale (lemma
  \<open>stale_reload_overwrites\<close>); a category \<open>__proto__\<close> or a missing profile makes the
  card throw (C11) and with it the whole page (C15), though neither can be stored through
  this application (C16); a feedback with no category can be stored (C5); a failed first
  load shows the empty-feed screen and is never retried (C17); a comment answered after
  sign-out still toasts and makes the dead page query the feed (C22).

  \<^bold>\<open>Bounds.\<close> No fuel is used: every loop of the code is a \<open>map\<close>, \<open>filter\<close> or
  \<open>split\<close> over a finite list, modelled by structural recursion; the only unbounded
  behaviour, the asynchronous chain of requests, is shown to end by the weight of
  \<open>Liveness\<close>. Concrete runs use two
  signed-in clients and one signed-out client, which is enough for every scenario of the
  spec and for the two races.

  \<^bold>\<open>Not modelled.\<close> Styling, icons and layout (no behaviour); \<open>formatDistanceToNow\<close>
  (a date-fns presentation call); the auth page, router and client setup (outside these
  files); row-level security and triggers of the database (not in the repository; the
  foreign keys the feed query needs are modelled);
  \<open>toUpperCase\<close> beyond Latin-1 (the model maps code units outside U+0000..U+00FF to
  themselves); time as wall-clock (the backend's clock is a counter, which keeps only the
  order \<open>created_at\<close> is used for).
\<close>

definition ana :: profile where
  "ana = \<lparr>full_name = js_str ''Ana Silva'', profile_class = js_str ''9A''\<rparr>"

definition bruno :: profile where
  "bruno = \<lparr>full_name = js_str ''Bruno Costa'', profile_class = js_str ''9B''\<rparr>"

definition festa_otima :: js_string where
  "festa_otima = js_str ''Festa '' @ [0xF3] @ js_str ''tima''"

text \<open>
  Two signed-in browsers: client 0 as user 1 (Ana), client 1 as user 2 (Bruno); every
  other client has no session.
\<close>

definition two_profiles :: "uid \<rightharpoonup> profile" where
  "two_profiles = [1 \<mapsto> ana, 2 \<mapsto> bruno]"

definition two_sessions :: "nat \<Rightarrow> uid option" where
  "two_sessions n = (if n = 0 then Some 1 else if n = 1 then Some 2 else None)"

definition two_users :: sys where
  "two_users = sys_start two_profiles two_sessions"

text \<open>Client 0 loads the empty feed and submits a feedback; the submission is in flight.\<close>

definition run_submitting :: "action list" where
  "run_submitting =
    [Serve 0 0 No_fault, Deliver 0 0, Serve 0 0 No_fault, Deliver 0 0,
     UI 0 (Open_change Header_dialog True), UI 0 (Choose_category Header_dialog Geral),
     UI 0 (Input_title Header_dialog festa_otima),
     UI 0 (Input_content Header_dialog (js_str ''Gostei muito'')),
     UI 0 (Submit Header_dialog)]"

definition state_submitting :: sys where
  "state_submitting = the (sys_run run_submitting two_users)"

text \<open>Scenario A: the submission completes and the page reloads the feed.\<close>

definition run_published :: "action list" where
  "run_published = run_submitting @
     [Serve 0 0 No_fault, Deliver 0 0, Serve 0 0 No_fault, Deliver 0 0,
      Serve 0 0 No_fault, Deliver 0 0]"

definition state_published :: sys where
  "state_published = the (sys_run run_published two_users)"

text \<open>Client 0 then publishes a second feedback, in another category.\<close>

definition run_two_posts :: "action list" where
  "run_two_posts = run_published @
     [UI 0 (Open_change Header_dialog True), UI 0 (Choose_category Header_dialog Professores),
      UI 0 (Input_title Header_dialog (js_str ''Aula de quimica'')),
      UI 0 (Input_content Header_dialog (js_str ''Muito boa'')),
      UI 0 (Submit Header_dialog),
      Serve 0 0 No_fault, Deliver 0 0, Serve 0 0 No_fault, Deliver 0 0,
      Serve 0 0 No_fault, Deliver 0 0]"

definition state_two_posts :: sys where
  "state_two_posts = the (sys_run run_two_posts two_users)"

text \<open>
  Scenario B: after scenario A, client 1 (Bruno) loads the feed, opens the comments of
  Ana's feedback, and sends ``Concordo!''.
\<close>

definition concordo :: js_string where
  "concordo = js_str ''Concordo!''"

definition run_commented :: "action list" where
  "run_commented = run_published @
     [Serve 1 0 No_fault, Deliver 1 0, Serve 1 0 No_fault, Deliver 1 0,
      UI 1 (Toggle_comments 0), UI 1 (Input_comment 0 concordo), UI 1 (Send_comment 0),
      Serve 1 0 No_fault, Deliver 1 0, Serve 1 0 No_fault, Deliver 1 0,
      Serve 1 0 No_fault, Deliver 1 0]"

definition state_commented :: sys where
  "state_commented = the (sys_run run_commented two_users)"

text \<open>Scenario C: client 2 has no session; its \<open>getSession\<close> request has been answered.\<close>

definition state_anon_served :: sys where
  "state_anon_served = the (sys_run [Serve 2 0 No_fault] two_users)"

definition state_anon_redirected :: sys where
  "state_anon_redirected = the (sys_run [Serve 2 0 No_fault, Deliver 2 0] two_users)"

text \<open>
  A lost response: the insert reaches the backend but its answer does not reach client 0,
  which shows the error toast; the user submits the unchanged form again.
\<close>

definition run_lost_response :: "action list" where
  "run_lost_response = run_submitting @
     [Serve 0 0 No_fault, Deliver 0 0, Serve 0 0 Lost_response, Deliver 0 0,
      UI 0 (Submit Header_dialog),
      Serve 0 0 No_fault, Deliver 0 0, Serve 0 0 No_fault, Deliver 0 0,
      Serve 0 0 No_fault, Deliver 0 0]"

definition state_lost_response :: sys where
  "state_lost_response = the (sys_run run_lost_response two_users)"

text \<open>
  Two reloads of client 0 in flight: the one after the first post is answered first but
  delivered last, after the one that follows the second post.
\<close>

definition run_stale_reload :: "action list" where
  "run_stale_reload = run_submitting @
     [Serve 0 0 No_fault, Deliver 0 0, Serve 0 0 No_fault, Deliver 0 0, Serve 0 0 No_fault,
      UI 0 (Open_change Header_dialog True), UI 0 (Choose_category Header_dialog Professores),
      UI 0 (Input_title Header_dialog (js_str ''Aula de quimica'')),
      UI 0 (Input_content Header_dialog (js_str ''Muito boa'')),
      UI 0 (Submit Header_dialog),
      Serve 0 1 No_fault, Deliver 0 1, Serve 0 1 No_fault, Deliver 0 1,
      Serve 0 1 No_fault, Deliver 0 1, Deliver 0 0]"

definition state_stale_reload :: sys where
  "state_stale_reload = the (sys_run run_stale_reload two_users)"

text \<open>Tables holding Ana's post, and a feedback row whose category is \<open>__proto__\<close>.\<close>

definition db_one_post :: db where
  "db_one_post = insert_feedback 1 (js_str ''geral'') festa_otima (js_str ''Gostei muito'')
                   (db_init two_profiles)"

definition proto_view :: feedback_view where
  "proto_view = \<lparr>f_id = 0, f_title = js_str ''Oi'', f_content = js_str ''Oi'',
                  f_category = js_str ''__proto__'', f_created_at = 0, f_profiles = Some ana,
                  f_comments = []\<rparr>"

text \<open>
  Client 1 loads the feed, opens the comments of Ana's post and types a draft, then
  publishes a feedback of its own; the reload that follows has been answered.
\<close>

definition run_draft :: "action list" where
  "run_draft = run_published @
     [Serve 1 0 No_fault, Deliver 1 0, Serve 1 0 No_fault, Deliver 1 0,
      UI 1 (Toggle_comments 0), UI 1 (Input_comment 0 (js_str ''Concordo'')),
      UI 1 (Open_change Header_dialog True), UI 1 (Choose_category Header_dialog Materias),
      UI 1 (Input_title Header_dialog (js_str ''Prova'')),
      UI 1 (Input_content Header_dialog (js_str ''Dificil'')),
      UI 1 (Submit Header_dialog), Serve 1 0 No_fault, Deliver 1 0, Serve 1 0 No_fault,
      Deliver 1 0, Serve 1 0 No_fault]"

definition state_draft :: sys where
  "state_draft = the (sys_run run_draft two_users)"

definition draft_card :: card_state where
  "draft_card = \<lparr>showComments = True, newComment = js_str ''Concordo'', isSubmitting = False\<rparr>"

text \<open>
  Client 0 publishes a feedback without choosing a category: the select's \<open>required\<close>
  does not stop the submission.
\<close>

definition run_no_category :: "action list" where
  "run_no_category =
    [Serve 0 0 No_fault, Deliver 0 0, Serve 0 0 No_fault, Deliver 0 0,
     UI 0 (Open_change Header_dialog True),
     UI 0 (Input_title Header_dialog (js_str ''Aviso'')),
     UI 0 (Input_content Header_dialog (js_str ''Sem categoria'')),
     UI 0 (Submit Header_dialog),
     Serve 0 0 No_fault, Deliver 0 0, Serve 0 0 No_fault, Deliver 0 0,
     Serve 0 0 No_fault, Deliver 0 0]"

definition state_no_category :: sys where
  "state_no_category = the (sys_run run_no_category two_users)"

text \<open>A loaded page holding a feedback whose stored category is \<open>__proto__\<close>.\<close>

definition proto_client :: client where
  "proto_client = (client_start (Some 1))\<lparr>cl_index :=
     index_init\<lparr>ix_isLoading := False, ix_feedbacks := [proto_view]\<rparr>\<rparr>"

text \<open>After scenario A, client 1's first feed query is lost on the network.\<close>

definition state_load_failed :: sys where
  "state_load_failed = the (sys_run (run_published @
     [Serve 1 0 No_fault, Deliver 1 0, Serve 1 0 Lost_request]) two_users)"

text \<open>After scenario A, client 0 opens the comments of its feedback and types two spaces.\<close>

definition state_blank_comment :: sys where
  "state_blank_comment = the (sys_run (run_published @
     [UI 0 (Toggle_comments 0), UI 0 (Input_comment 0 (js_str ''  ''))]) two_users)"

text \<open>
  After scenario A, client 0 comments on its feedback and signs out while the insert is
  in flight: the insert is served, then the sign-out, whose answer sends the page to
  \<open>/auth\<close>; the insert's answer arrives after the page is gone.
\<close>

definition run_late_comment :: "action list" where
  "run_late_comment = run_published @
     [UI 0 (Toggle_comments 0), UI 0 (Input_comment 0 concordo), UI 0 (Send_comment 0),
      Serve 0 0 No_fault, Deliver 0 0, UI 0 Click_sign_out,
      Serve 0 0 No_fault, Serve 0 1 No_fault, Deliver 0 1]"

definition state_left_page :: sys where
  "state_left_page = the (sys_run run_late_comment two_users)"

definition state_late_comment :: sys where
  "state_late_comment = the (sys_exec (Deliver 0 0) state_left_page)"

lemma reach_state_submitting: "reach two_users state_submitting"
  unfolding state_submitting_def by (rule sys_run_reach_the) code_simp

lemma reach_state_published: "reach two_users state_published"
  unfolding state_published_def by (rule sys_run_reach_the) code_simp

lemma reach_state_two_posts: "reach two_users state_two_posts"
  unfolding state_two_posts_def by (rule sys_run_reach_the) code_simp

lemma reach_state_commented: "reach two_users state_commented"
  unfolding state_commented_def by (rule sys_run_reach_the) code_simp

lemma reach_state_anon_served: "reach two_users state_anon_served"
  unfolding state_anon_served_def by (rule sys_run_reach_the) code_simp

lemma reach_state_no_category: "reach two_users state_no_category"
  unfolding state_no_category_def by (rule sys_run_reach_the) code_simp

lemma reach_two_users: "reach two_users S \<Longrightarrow> reach (sys_start two_profiles two_sessions) S"
  by (simp only: two_users_def)

text \<open>
  C1. The busy flag of each writer is exact: in every reachable state of the application,
  every mounted composer dialog and every mounted feedback card has exactly one backend
  request in flight while its \<open>isSubmitting\<close> flag is set, and none while it is clear.
  So no writer instance ever has two submissions in flight.
\<close>

theorem writer_single_flight:
  assumes "reach (sys_start ps sess) S"
  shows "(\<forall>(d, i, st)\<in>set (cl_dialogs (clients S n)).
            dialog_flight (cl_pending (clients S n)) i = (if dlg_isSubmitting st then 1 else 0))
       \<and> (\<forall>(f, i, st)\<in>set (cl_cards (clients S n)).
            card_flight (cl_pending (clients S n)) i = (if isSubmitting st then 1 else 0))"
proof -
  from reach_client_inv [OF assms] have "client_inv (clients S n)" by blast
  then show ?thesis by (auto simp: client_inv_def entries_ok_def)
qed

theorem writer_single_flight_witness:
  "reach two_users state_submitting
   \<and> dlg_isSubmitting (snd (snd (hd (cl_dialogs (clients state_submitting 0)))))
   \<and> dialog_flight (cl_pending (clients state_submitting 0))
         (fst (snd (hd (cl_dialogs (clients state_submitting 0))))) = 1"
proof -
  let ?ds = "cl_dialogs (clients state_submitting 0)"
  have r: "reach (sys_start two_profiles two_sessions) state_submitting"
    using reach_state_submitting by (simp only: two_users_def)
  have ne: "\<not> List.null ?ds" and sub: "dlg_isSubmitting (snd (snd (hd ?ds)))"
    unfolding state_submitting_def by code_simp+
  from ne have mem: "hd ?ds \<in> set ?ds" by (simp add: List.null_iff)
  obtain d i st where h: "hd ?ds = (d, i, st)" by (cases "hd ?ds") auto
  from writer_single_flight [OF r, of 0]
  have "\<forall>(d, i, st)\<in>set ?ds. dialog_flight (cl_pending (clients state_submitting 0)) i
          = (if dlg_isSubmitting st then 1 else 0)" by blast
  then have "case hd ?ds of (d, i, st) \<Rightarrow>
               dialog_flight (cl_pending (clients state_submitting 0)) i
                 = (if dlg_isSubmitting st then 1 else 0)"
    using mem by (rule bspec)
  with h sub reach_state_submitting show ?thesis by simp
qed

text \<open>
  C2. The feed is shown newest first: in every reachable state, the feedbacks each client's
  page holds are strictly ordered by \<open>created_at\<close>, descending, whichever order the
  requests, responses and reloads of all clients interleave in.
\<close>

theorem feed_newest_first:
  assumes "reach (sys_start ps sess) S"
  shows "sorted_wrt (>) (map f_created_at (ix_feedbacks (cl_index (clients S n))))"
  using reach_feed_inv [OF assms]
  by (simp add: feed_inv_def client_feeds_def feed_sorted_def)

theorem feed_newest_first_witness:
  "reach two_users state_two_posts
   \<and> length (ix_feedbacks (cl_index (clients state_two_posts 0))) = 2
   \<and> sorted_wrt (>) (map f_created_at (ix_feedbacks (cl_index (clients state_two_posts 0))))"
proof -
  have r: "reach (sys_start two_profiles two_sessions) state_two_posts"
    using reach_state_two_posts by (simp only: two_users_def)
  have "length (ix_feedbacks (cl_index (clients state_two_posts 0))) = 2"
    unfolding state_two_posts_def by code_simp
  with feed_newest_first [OF r, of 0] reach_state_two_posts show ?thesis by simp
qed

text \<open>
  Scenario A of the spec on a concrete run: signed in as Ana, a user who opens the dialog,
  picks ``Geral'', types the title ``Festa \<open>o\<close>tima'' (with an acute o) and a content and submits sees, once the
  requests complete, the success toast, the dialog closed with its fields cleared, and
  the feed holding exactly that feedback, with its text unchanged (the accented title
  included), category \<open>geral\<close> and author Ana.
\<close>

lemma scenario_publish_listed:
  "map (\<lambda>v. (f_title v, f_content v, f_category v, f_profiles v))
       (ix_feedbacks (cl_index (clients state_published 0)))
     = [(festa_otima, js_str ''Gostei muito'', js_str ''geral'', Some ana)]
   \<and> cl_shown (clients state_published 0) = [Toast_success Feedback_publicado_com_sucesso]
   \<and> map (\<lambda>(d, i, st). (d, dlg_open st, dlg_title st, dlg_content st))
         (cl_dialogs (clients state_published 0)) = [(Header_dialog, False, [], [])]"
  unfolding state_published_def by code_simp

text \<open>
  Scenario B of the spec on a concrete run: after Ana's post, Bruno, in another browser,
  comments ``Concordo!'' on it. The backend's feed then returns that feedback with exactly one comment, with that
  text and author Bruno, and Bruno's page shows it after its reload.
\<close>

lemma scenario_comment_author:
  "map (\<lambda>v. map (\<lambda>c. (c_content c, c_profiles c)) (f_comments v)) (query_feed (backend state_commented))
     = [[(concordo, Some bruno)]]
   \<and> ix_feedbacks (cl_index (clients state_commented 1)) = query_feed (backend state_commented)"
  unfolding state_commented_def by code_simp

text \<open>
  C3. Scenario C: a client that has no session issues no request but \<open>getSession\<close>
  (in particular no feed query and no write), holds no feed, and renders no composer and no
  card, in every reachable state; once its \<open>getSession\<close> answer arrives it is sent to
  the sign-in route.
\<close>

theorem signed_out_no_feed_request:
  assumes "reach (sys_start ps sess) S" and "sess n = None"
  shows "(\<forall>t\<in>set (cl_pending (clients S n)). fst (snd t) = Get_session)
       \<and> ix_feedbacks (cl_index (clients S n)) = []
       \<and> cl_dialogs (clients S n) = [] \<and> cl_cards (clients S n) = []"
  using reach_anon [OF assms] by (auto simp: anon_client_def anon_task_def)

theorem signed_out_no_feed_request_witness:
  "reach two_users state_anon_served \<and> two_sessions 2 = None
   \<and> fst (snd (hd (cl_pending (clients state_anon_served 2)))) = Get_session
   \<and> ix_feedbacks (cl_index (clients state_anon_served 2)) = []
   \<and> ix_route (cl_index (clients state_anon_redirected 2)) = Route_auth"
proof -
  have s: "two_sessions 2 = None" by (simp add: two_sessions_def)
  have ne: "cl_pending (clients state_anon_served 2) \<noteq> []"
    unfolding state_anon_served_def by code_simp
  have route: "ix_route (cl_index (clients state_anon_redirected 2)) = Route_auth"
    unfolding state_anon_redirected_def by code_simp
  from signed_out_no_feed_request [OF reach_two_users [OF reach_state_anon_served] s] ne
  have "fst (snd (hd (cl_pending (clients state_anon_served 2)))) = Get_session
        \<and> ix_feedbacks (cl_index (clients state_anon_served 2)) = []"
    by simp
  with reach_state_anon_served s route show ?thesis by simp
qed

text \<open>
  C4. Every stored feedback and every stored comment has as author a user that is signed in
  on some client: the \<open>user_id\<close> of an insert is the identity \<open>getUser\<close> returned
  to the submitting client, never a value the client makes up.
\<close>

theorem stored_rows_authored:
  assumes "reach (sys_start ps sess) S"
  shows "(\<forall>r\<in>set (feedback_tbl (backend S)). \<exists>n. sess n = Some (fb_user r))
       \<and> (\<forall>r\<in>set (comments_tbl (backend S)). \<exists>n. sess n = Some (cm_user r))"
  using reach_access_inv [OF assms]
  by (auto simp: access_inv_def db_safe_def feedback_row_ok_def comment_row_ok_def image_iff)
     (metis)+

theorem stored_rows_authored_witness:
  "reach two_users state_commented
   \<and> (\<exists>n. two_sessions n = Some (fb_user (hd (feedback_tbl (backend state_commented)))))
   \<and> (\<exists>n. two_sessions n = Some (cm_user (hd (comments_tbl (backend state_commented)))))"
proof -
  have ne: "feedback_tbl (backend state_commented) \<noteq> []" "comments_tbl (backend state_commented) \<noteq> []"
    unfolding state_commented_def by code_simp+
  from stored_rows_authored [OF reach_two_users [OF reach_state_commented]] ne reach_state_commented
  show ?thesis by simp
qed

text \<open>
  C5. Every stored feedback has a non-empty title and content, and as category one of the
  four (\<open>professores\<close>, \<open>materias\<close>, \<open>atividades\<close>, \<open>geral\<close>) or the empty
  string: the composer sends only what its select can hold and its required inputs let
  through, and the select's \<open>required\<close> does not stop a submission with no category.
\<close>

theorem stored_feedback_valid:
  assumes "reach (sys_start ps sess) S"
  shows "\<forall>r\<in>set (feedback_tbl (backend S)).
           fb_category r \<in> set ([] # category_values) \<and> fb_title r \<noteq> [] \<and> fb_content r \<noteq> []"
  using reach_access_inv [OF assms] by (simp add: access_inv_def db_safe_def feedback_row_ok_def)

theorem stored_feedback_valid_witness:
  "reach two_users state_no_category
   \<and> fb_category (hd (feedback_tbl (backend state_no_category))) \<in> set ([] # category_values)
   \<and> fb_category (hd (feedback_tbl (backend state_no_category))) = []
   \<and> fb_title (hd (feedback_tbl (backend state_no_category))) \<noteq> []"
proof -
  have ne: "feedback_tbl (backend state_no_category) \<noteq> []"
    and empty: "fb_category (hd (feedback_tbl (backend state_no_category))) = []"
    unfolding state_no_category_def by code_simp+
  from stored_feedback_valid [OF reach_two_users [OF reach_state_no_category]] ne empty
       reach_state_no_category
  show ?thesis by simp
qed

text \<open>
  C6. No stored comment is blank: a comment whose content is empty or only whitespace
  (what \<open>trim()\<close> removes) never reaches the backend.
\<close>

theorem stored_comments_nonblank:
  assumes "reach (sys_start ps sess) S"
  shows "\<forall>r\<in>set (comments_tbl (backend S)). js_trim (cm_content r) \<noteq> []"
  using reach_access_inv [OF assms] by (simp add: access_inv_def db_safe_def comment_row_ok_def)

theorem stored_comments_nonblank_witness:
  "reach two_users state_commented
   \<and> js_trim (cm_content (hd (comments_tbl (backend state_commented)))) \<noteq> []"
proof -
  have ne: "comments_tbl (backend state_commented) \<noteq> []"
    unfolding state_commented_def by code_simp
  from stored_comments_nonblank [OF reach_two_users [OF reach_state_commented]] ne reach_state_commented
  show ?thesis by simp
qed

theorem query_feed_insert_feedback_witness:
  "db_wf (db_init two_profiles)
   \<and> map (\<lambda>v. (f_title v, f_profiles v, f_comments v)) (query_feed db_one_post)
       = [(festa_otima, Some ana, [])]"
  using Backend.query_feed_insert_feedback [OF db_wf_init, of 1 "js_str ''geral''" festa_otima
          "js_str ''Gostei muito''" two_profiles]
  by (simp add: db_one_post_def db_wf_init two_profiles_def) (simp add: query_feed_def feed_order_def db_init_def)

theorem query_feed_insert_comment_witness:
  "insert_comment 2 0 concordo db_one_post = Inr (projr (insert_comment 2 0 concordo db_one_post))
   \<and> map (\<lambda>v. mset (f_comments v)) (query_feed (projr (insert_comment 2 0 concordo db_one_post)))
       = [{#\<lparr>c_id = 1, c_content = concordo, c_created_at = 1, c_profiles = Some bruno\<rparr>#}]"
proof -
  have ins: "insert_comment 2 0 concordo db_one_post = Inr (projr (insert_comment 2 0 concordo db_one_post))"
    by (simp add: insert_comment_def db_one_post_def insert_feedback_def db_init_def two_profiles_def)
  have feed: "query_feed db_one_post =
      [\<lparr>f_id = 0, f_title = festa_otima, f_content = js_str ''Gostei muito'',
        f_category = js_str ''geral'', f_created_at = 0, f_profiles = Some ana, f_comments = []\<rparr>]"
    unfolding db_one_post_def by code_simp
  have "next_id db_one_post = 1" "clock db_one_post = 1" "profiles db_one_post 2 = Some bruno"
    by (simp_all add: db_one_post_def insert_feedback_def db_init_def two_profiles_def)
  with Backend.query_feed_insert_comment [OF ins] feed ins show ?thesis
    by (auto simp: list_all2_Cons2)
qed

theorem getInitials_equiv_witness:
  "getInitials (js_str ''ana  silva'') = js_str ''AS''
   \<and> initials_ref (js_str ''ana  silva'') = js_str ''AS''"
proof -
  have "initials_ref (js_str ''ana  silva'') = js_str ''AS''"
    by (simp add: initials_ref_def js_eval)
  with Card_Render.getInitials_equiv show ?thesis by simp
qed

theorem getInitials_bounds_witness:
  "getInitials (js_str ''   '') = [] \<and> length (getInitials (js_str ''Bruno Costa'')) \<le> 2"
  using Card_Render.getInitials_bounds [of "js_str ''   ''"]
        Card_Render.getInitials_bounds [of "js_str ''Bruno Costa''"]
  by (simp add: js_str_def)

theorem render_card_error_witness:
  "(\<exists>e. render_card (card_props_of proto_view) card_init = Inl e) \<and> f_profiles proto_view = Some ana"
  using Card_Render.render_card_error [of proto_view card_init]
  by (simp add: proto_view_def)

text \<open>
  On a concrete run, a lost response makes a successful write look failed, and the retry
  it invites writes a duplicate: the insert is applied, client 0 shows ``Erro ao publicar feedback''
  and keeps the form as typed, and submitting it again stores a second, identical
  feedback. Nothing in the composer or the backend detects the repeat.
\<close>

lemma lost_response_duplicate:
  "map (\<lambda>r. (fb_user r, fb_title r, fb_content r)) (feedback_tbl (backend state_lost_response))
     = [(1, festa_otima, js_str ''Gostei muito''), (1, festa_otima, js_str ''Gostei muito'')]
   \<and> cl_shown (clients state_lost_response 0)
     = [Toast_error Erro_ao_publicar_feedback, Toast_success Feedback_publicado_com_sucesso]"
  unfolding state_lost_response_def by code_simp

text \<open>
  On a concrete run, reloads are applied in the order their responses arrive, not the
  order they were sent: when the reload after a first post is delivered after the reload that follows a
  second post, the page ends, with nothing left in flight, showing only the first post,
  although the backend holds both and both success toasts were shown.
\<close>

lemma stale_reload_overwrites:
  "cl_pending (clients state_stale_reload 0) = []
   \<and> length (query_feed (backend state_stale_reload)) = 2
   \<and> map f_title (ix_feedbacks (cl_index (clients state_stale_reload 0))) = [festa_otima]
   \<and> cl_shown (clients state_stale_reload 0)
     = [Toast_success Feedback_publicado_com_sucesso, Toast_success Feedback_publicado_com_sucesso]"
  unfolding state_stale_reload_def by code_simp

text \<open>
  C12. The composer's submit button tells the truth: in every reachable state, an open
  composer renders its submit button disabled and reading ``Publicando...'' exactly when
  one of its requests is in flight, and enabled and reading ``Publicar'' otherwise; the
  select shows the chosen category or its placeholder, and the inputs what was typed.
\<close>

theorem submit_button_busy:
  assumes "reach (sys_start ps sess) S" and "(d, i, st) \<in> set (cl_dialogs (clients S n))"
    and "dlg_open st"
  shows "dv_form (render_dialog st) =
           Some \<lparr>df_category = select_display (dlg_category st),
                 df_title = dlg_title st, df_content = dlg_content st,
                 df_submit_label = (if dialog_flight (cl_pending (clients S n)) i = 0
                                    then js_str ''Publicar'' else js_str ''Publicando...''),
                 df_submit_disabled = (dialog_flight (cl_pending (clients S n)) i \<noteq> 0)\<rparr>"
proof -
  from reach_client_inv [OF assms(1)] have "client_inv (clients S n)" by blast
  with assms(2) have "dialog_flight (cl_pending (clients S n)) i = (if dlg_isSubmitting st then 1 else 0)"
    by (fastforce simp: client_inv_def entries_ok_def)
  with assms(3) show ?thesis by (simp add: render_dialog_def)
qed

theorem submit_button_busy_witness:
  "hd (cl_dialogs (clients state_submitting 0)) \<in> set (cl_dialogs (clients state_submitting 0))
   \<and> dlg_open (snd (snd (hd (cl_dialogs (clients state_submitting 0)))))
   \<and> map_option df_submit_label
       (dv_form (render_dialog (snd (snd (hd (cl_dialogs (clients state_submitting 0)))))))
     = Some (js_str ''Publicando...'')"
proof -
  let ?ds = "cl_dialogs (clients state_submitting 0)"
  have ne: "?ds \<noteq> []" and op: "dlg_open (snd (snd (hd ?ds)))"
    and fl: "dialog_flight (cl_pending (clients state_submitting 0)) (fst (snd (hd ?ds))) = 1"
    unfolding state_submitting_def by code_simp+
  have mem: "(fst (hd ?ds), fst (snd (hd ?ds)), snd (snd (hd ?ds))) \<in> set ?ds"
    using ne by simp
  from submit_button_busy [OF reach_two_users [OF reach_state_submitting] mem op] fl mem op
  show ?thesis by simp
qed

text \<open>
  C13. No handler waits forever: from every reachable state, a network that answers and
  delivers a client's requests in order, without faults, empties that client's queue in
  finitely many steps, and then no composer and no card of the client is left with its
  \<open>isSubmitting\<close> flag set.
\<close>

theorem requests_complete:
  assumes "reach (sys_start ps sess) S"
  shows "\<exists>acts S'. set acts \<subseteq> {Serve n 0 No_fault, Deliver n 0} \<and> sys_run acts S = Some S'
           \<and> cl_pending (clients S' n) = []
           \<and> (\<forall>(d, i, st)\<in>set (cl_dialogs (clients S' n)). \<not> dlg_isSubmitting st)
           \<and> (\<forall>(f, i, st)\<in>set (cl_cards (clients S' n)). \<not> isSubmitting st)"
proof -
  obtain acts S' where acts: "set acts \<subseteq> {Serve n 0 No_fault, Deliver n 0}"
    and run: "sys_run acts S = Some S'" and empty: "cl_pending (clients S' n) = []"
    using drain by blast
  from sys_run_reach [OF run assms] have "client_inv (clients S' n)"
    using reach_client_inv by blast
  with empty have "(\<forall>(d, i, st)\<in>set (cl_dialogs (clients S' n)). \<not> dlg_isSubmitting st)
                 \<and> (\<forall>(f, i, st)\<in>set (cl_cards (clients S' n)). \<not> isSubmitting st)"
    by (fastforce simp: client_inv_def entries_ok_def dialog_flight_def card_flight_def)
  with acts run empty show ?thesis by blast
qed

theorem requests_complete_witness:
  "reach two_users state_submitting
   \<and> dlg_isSubmitting (snd (snd (hd (cl_dialogs (clients state_submitting 0)))))
   \<and> (\<exists>acts S'. sys_run acts state_submitting = Some S' \<and> cl_pending (clients S' 0) = [])"
proof -
  have "dlg_isSubmitting (snd (snd (hd (cl_dialogs (clients state_submitting 0)))))"
    unfolding state_submitting_def by code_simp
  with requests_complete [OF reach_two_users [OF reach_state_submitting], of 0]
       reach_state_submitting
  show ?thesis by blast
qed

text \<open>
  C14. A reload keeps each listed card as it is: when the answer to a reload reaches a
  loaded page, the page shows the new feed, and every card whose feedback is still in it
  keeps its instance and its state (comments open or closed, the comment being typed, the
  busy flag), as React keeps a component whose key stays rendered.
\<close>

theorem reload_keeps_cards:
  assumes j: "j < length (cl_pending (clients S n))"
    and t: "cl_pending (clients S n) ! j = (KI K_reload, cl, Some (Resp_feed (Inr fs)))"
    and ready: "page_ready (clients S n)"
    and card: "map_of (cl_cards (clients S n)) f = Some (i, st)"
    and listed: "f \<in> set (map f_id fs)"
  shows "\<exists>S'. sys_exec (Deliver n j) S = Some S' \<and> ix_feedbacks (cl_index (clients S' n)) = fs
              \<and> map_of (cl_cards (clients S' n)) f = Some (i, st)"
proof -
  let ?c = "clients S n"
  let ?c2 = "apply_index True (loadFeedbacks_after_query (Inr fs) (cl_index ?c))
               (?c\<lparr>cl_pending := remove_at j (cl_pending ?c)\<rparr>)"
  have dl: "deliver j ?c = Some ?c2"
    using j t ready by (simp add: deliver_def page_ready_def page_live_def)
  have ix: "cl_index ?c2 = (cl_index ?c)\<lparr>ix_feedbacks := fs\<rparr>" and cards: "cl_cards ?c2 = cl_cards ?c"
    by (simp_all add: apply_index_def loadFeedbacks_after_query_def quiet_def)
  with ready have "mounted_cards ?c2 = map f_id fs" and live: "page_live ?c2"
    by (simp_all add: mounted_cards_def page_ready_def page_live_def)
  with cards card listed have "map_of (cl_cards (settle ?c2)) f = Some (i, st)"
    by (intro settle_keeps_card) simp_all
  moreover from ix live have "ix_feedbacks (cl_index (settle ?c2)) = fs"
    by (simp add: settle_index_live)
  ultimately show ?thesis using dl by simp
qed

theorem reload_keeps_cards_witness:
  "0 < length (cl_pending (clients state_draft 1))
   \<and> cl_pending (clients state_draft 1) ! 0
       = (KI K_reload, Query_feed, Some (Resp_feed (Inr (query_feed (backend state_draft)))))
   \<and> page_ready (clients state_draft 1)
   \<and> map_of (cl_cards (clients state_draft 1)) 0 = Some (1, draft_card)
   \<and> 0 \<in> set (map f_id (query_feed (backend state_draft)))
   \<and> (\<exists>S'. sys_exec (Deliver 1 0) state_draft = Some S'
          \<and> map_of (cl_cards (clients S' 1)) 0 = Some (1, draft_card))"
proof -
  have h: "0 < length (cl_pending (clients state_draft 1))"
    "cl_pending (clients state_draft 1) ! 0
       = (KI K_reload, Query_feed, Some (Resp_feed (Inr (query_feed (backend state_draft)))))"
    "page_ready (clients state_draft 1)"
    "map_of (cl_cards (clients state_draft 1)) 0 = Some (1, draft_card)"
    "0 \<in> set (map f_id (query_feed (backend state_draft)))"
    unfolding state_draft_def draft_card_def by code_simp+
  from reload_keeps_cards [OF h] h show ?thesis by blast
qed

theorem page_render_error_witness:
  "\<not> ix_isLoading (cl_index proto_client)
   \<and> proto_view \<in> set (ix_feedbacks (cl_index proto_client))
   \<and> f_category proto_view = js_str ''__proto__''
   \<and> (\<exists>e. render_page proto_client = Inl e)"
proof -
  have h: "\<not> ix_isLoading (cl_index proto_client)" "proto_view \<in> set (ix_feedbacks (cl_index proto_client))"
    "f_category proto_view = js_str ''__proto__''"
    by (simp_all add: proto_client_def proto_view_def)
  with Page_Render.page_render_error [of proto_client] show ?thesis by blast
qed

theorem pages_render_witness:
  "reach two_users state_commented \<and> (\<exists>v. render_page (clients state_commented 1) = Inr v)"
  using Render_Safety.pages_render [OF reach_two_users [OF reach_state_commented]]
        reach_state_commented
  by blast

text \<open>
  C17. A failed feed query changes nothing but the toasts and the loading flag: when the
  answer to the first load or to a reload is an error, the page keeps the feed it had (none,
  on the first load), shows ``Erro ao carregar feedbacks'', and sends nothing more; there
  is no retry. The first load's \<open>checkAuth\<close> clears \<open>isLoading\<close> all the same, so the
  page leaves the loading screen for the empty-feed card, the screen of a feed with no
  feedback, although the backend may hold many.
\<close>

theorem failed_load_keeps_feed:
  assumes i: "i < length (cl_pending c)"
    and t: "cl_pending c ! i = (KI k, cl, Some (Resp_feed (Inl e)))"
    and k: "k \<in> {K_check_load, K_reload}" and live: "page_live c"
  shows "\<exists>c'. deliver i c = Some c'
           \<and> ix_feedbacks (cl_index c') = ix_feedbacks (cl_index c)
           \<and> ix_isLoading (cl_index c') = (ix_isLoading (cl_index c) \<and> k = K_reload)
           \<and> index_screen (cl_index c') =
               (if ix_isLoading (cl_index c) \<and> k = K_reload then Screen_loading
                else if ix_feedbacks (cl_index c) = [] then Screen_empty
                else Screen_feed (ix_feedbacks (cl_index c)))
           \<and> cl_shown c' = cl_shown c @ [Toast_error Erro_ao_carregar_feedbacks]
           \<and> cl_pending c' = remove_at i (cl_pending c)"
  using i t k live
  by (auto simp: deliver_def apply_index_def spawn_def checkAuth_after_load_def
                 loadFeedbacks_after_query_def index_screen_def page_live_def)

theorem failed_load_keeps_feed_witness:
  "0 < length (cl_pending (clients state_load_failed 1))
   \<and> cl_pending (clients state_load_failed 1) ! 0
       = (KI K_check_load, Query_feed, Some (Resp_feed (Inl Network_failure)))
   \<and> K_check_load \<in> {K_check_load, K_reload}
   \<and> page_live (clients state_load_failed 1)
   \<and> ix_isLoading (cl_index (clients state_load_failed 1))
   \<and> index_screen (cl_index (the (deliver 0 (clients state_load_failed 1)))) = Screen_empty
   \<and> cl_shown (the (deliver 0 (clients state_load_failed 1))) = [Toast_error Erro_ao_carregar_feedbacks]
   \<and> query_feed (backend state_load_failed) \<noteq> []"
proof -
  have h: "0 < length (cl_pending (clients state_load_failed 1))"
    "cl_pending (clients state_load_failed 1) ! 0
       = (KI K_check_load, Query_feed, Some (Resp_feed (Inl Network_failure)))"
    unfolding state_load_failed_def by code_simp+
  have live: "page_live (clients state_load_failed 1)"
    unfolding state_load_failed_def page_live_def by code_simp
  have rest: "ix_isLoading (cl_index (clients state_load_failed 1))"
    "ix_feedbacks (cl_index (clients state_load_failed 1)) = []"
    "query_feed (backend state_load_failed) \<noteq> []" "cl_shown (clients state_load_failed 1) = []"
    unfolding state_load_failed_def by code_simp+
  have k: "K_check_load \<in> {K_check_load, K_reload}" by simp
  from failed_load_keeps_feed [OF h k live] rest h k live show ?thesis by auto
qed

lemma reach_state_left_page: "reach two_users state_left_page"
  unfolding state_left_page_def by (rule sys_run_reach_the) code_simp

theorem blank_comment_no_request_witness:
  "map_of (cl_cards (clients state_blank_comment 0)) 0
     = Some (2, \<lparr>showComments = True, newComment = js_str ''  '', isSubmitting = False\<rparr>)
   \<and> js_trim (js_str ''  '') = []
   \<and> (\<exists>S'. sys_exec (UI 0 (Send_comment 0)) state_blank_comment = Some S'
           \<and> backend S' = backend state_blank_comment
           \<and> cl_pending (clients S' 0) = cl_pending (clients state_blank_comment 0)
           \<and> cl_shown (clients S' 0) = cl_shown (clients state_blank_comment 0))"
proof -
  have h: "map_of (cl_cards (clients state_blank_comment 0)) 0
     = Some (2, \<lparr>showComments = True, newComment = js_str ''  '', isSubmitting = False\<rparr>)"
    unfolding state_blank_comment_def by code_simp
  have b: "js_trim (newComment \<lparr>showComments = True, newComment = js_str ''  '', isSubmitting = False\<rparr>) = []"
    by code_simp
  from blank_comment_no_request [OF h b] h b show ?thesis by simp
qed

theorem left_page_frozen_witness:
  "ix_route (cl_index (clients state_left_page 0)) = Route_auth
   \<and> sys_exec (Deliver 0 0) state_left_page = Some state_late_comment
   \<and> cl_index (clients state_late_comment 0) = cl_index (clients state_left_page 0)
   \<and> cl_dialogs (clients state_late_comment 0) = [] \<and> cl_cards (clients state_late_comment 0) = []
   \<and> \<not> ix_subscribed (cl_index (clients state_late_comment 0))"
proof -
  have r: "reach (sys_start two_profiles two_sessions) state_left_page"
    by (rule reach_two_users [OF reach_state_left_page])
  have a: "ix_route (cl_index (clients state_left_page 0)) = Route_auth"
    unfolding state_left_page_def by code_simp
  have "\<not> Option.is_none (sys_exec (Deliver 0 0) state_left_page)"
    unfolding state_left_page_def by code_simp
  then have e: "sys_exec (Deliver 0 0) state_left_page = Some state_late_comment"
    by (auto simp: state_late_comment_def Option.is_none_def)
  from left_page_frozen [OF r a e] a e show ?thesis by blast
qed

theorem late_comment_still_runs_witness:
  "reach two_users state_left_page
   \<and> ix_route (cl_index (clients state_left_page 0)) = Route_auth
   \<and> 0 < length (cl_pending (clients state_left_page 0))
   \<and> cl_pending (clients state_left_page 0) ! 0
       = (KC 0 2 K_comment_insert, Insert_comment 0 1 concordo, Some (Resp_done None))
   \<and> cl_cards (clients state_left_page 0) = []
   \<and> cl_session (clients state_left_page 0) = None
   \<and> (\<exists>S'. sys_exec (Deliver 0 0) state_left_page = Some S'
         \<and> cl_shown (clients S' 0)
           = cl_shown (clients state_left_page 0) @ [Toast_success Comentario_enviado]
         \<and> cl_pending (clients S' 0) = [(KI K_reload, Query_feed, None)])"
proof -
  have r: "reach (sys_start two_profiles two_sessions) state_left_page"
    by (rule reach_two_users [OF reach_state_left_page])
  have h: "ix_route (cl_index (clients state_left_page 0)) = Route_auth"
    "0 < length (cl_pending (clients state_left_page 0))"
    "cl_pending (clients state_left_page 0) ! 0
       = (KC 0 2 K_comment_insert, Insert_comment 0 1 concordo, Some (Resp_done None))"
    "cl_session (clients state_left_page 0) = None"
    "remove_at 0 (cl_pending (clients state_left_page 0)) = []"
    unfolding state_left_page_def by code_simp+
  from Teardown.late_comment_still_runs [OF r h(1,2,3)] h reach_state_left_page show ?thesis
    by auto
qed

end
